(* ===== verification/Prelude.thy ===== *)
theory Prelude
  imports Main "HOL-Library.Word"
begin

text \<open>
  Shared ground of the development: the C integer types as words of their width, the
  comparisons the C and C++ sources make between a signed byte count and an unsigned size,
  decimal printing as \<open>operator<<\<close> of a \<open>stringstream\<close> does it, the lists-and-separators
  lemmas that printing needs, and the locale of a system with an invariant, which the
  components instantiate with their own steps.
\<close>

section \<open>C types\<close>

type_synonym u8 = "8 word"
type_synonym u16 = "16 word"
type_synonym u32 = "32 word"
type_synonym u64 = "64 word"

text \<open>\<open>int\<close> and \<open>pid_t\<close> are 32 bits wide and read with \<open>sint\<close>.\<close>

type_synonym s32 = "32 word"

text \<open>Addresses of objects the program allocates; \<open>0\<close> is \<open>NULL\<close>.\<close>

type_synonym ptr = nat

named_theorems c_compare \<open>C comparisons between signed counts and unsigned sizes\<close>
named_theorems model_defs \<open>definitions of operations that proofs by evaluation unfold\<close>
named_theorems lock_simps \<open>facts about the set of mutexes a thread holds\<close>

section \<open>Comparisons between signed counts and unsigned sizes\<close>

text \<open>
  \<open>n < sizeof(x)\<close> with \<open>int n\<close>: the usual arithmetic conversions turn \<open>n\<close> into a
  64-bit unsigned value (sign extension), and the comparison is unsigned.
\<close>

definition int_lt_size :: "s32 \<Rightarrow> u64 \<Rightarrow> bool" where
  "int_lt_size n sz \<longleftrightarrow> (scast n :: u64) < sz"

text \<open>\<open>read(...) < sizeof(x)\<close>: \<open>ssize_t\<close> against \<open>size_t\<close>, again unsigned.\<close>

definition ssize_lt_size :: "64 word \<Rightarrow> u64 \<Rightarrow> bool" where
  "ssize_lt_size n sz \<longleftrightarrow> n < sz"

text \<open>\<open>n < body_size\<close>: \<open>int\<close> against \<open>uint32_t\<close>, unsigned at 32 bits.\<close>

definition int_lt_u32 :: "s32 \<Rightarrow> u32 \<Rightarrow> bool" where
  "int_lt_u32 n sz \<longleftrightarrow> n < sz"

text \<open>\<open>n < size\<close> with two \<open>int\<close>s, and \<open>n < 0\<close>.\<close>

definition int_lt_int :: "s32 \<Rightarrow> s32 \<Rightarrow> bool" where
  "int_lt_int a b \<longleftrightarrow> sint a < sint b"

definition int_neg :: "s32 \<Rightarrow> bool" where
  "int_neg n \<longleftrightarrow> sint n < 0"

lemma sint_ge_32: "- (2 ^ 31) \<le> sint (n :: s32)"
  using sint_ge [of n] by simp

lemma sint_lt_32: "sint (n :: s32) < 2 ^ 31"
  using sint_lt [of n] by simp

lemma uint_scast_64: "uint (scast (n :: s32) :: u64) = sint n mod 2 ^ 64"
  unfolding scast_eq uint_word_of_int by simp

lemma uint_scast_neg:
  assumes "sint (n :: s32) < 0"
  shows "uint (scast n :: u64) = 2 ^ 64 + sint n"
proof -
  have "(sint n + 2 ^ 64) mod 2 ^ 64 = sint n + 2 ^ 64"
    using assms sint_ge_32 [of n] by (intro mod_pos_pos_trivial) auto
  then show ?thesis by (simp add: uint_scast_64)
qed

lemma uint_scast_nonneg:
  assumes "0 \<le> sint (n :: s32)"
  shows "uint (scast n :: u64) = sint n"
  unfolding uint_scast_64 using assms sint_lt_32 [of n]
  by (intro mod_pos_pos_trivial) auto

lemma int_lt_size_neg [c_compare]:
  assumes "sint n < 0" and "uint sz \<le> 2 ^ 63"
  shows "\<not> int_lt_size n sz"
  using assms sint_ge_32 [of n] by (simp add: int_lt_size_def word_less_def uint_scast_neg)

lemma int_lt_size_nonneg [c_compare]:
  assumes "0 \<le> sint n"
  shows "int_lt_size n sz \<longleftrightarrow> sint n < uint sz"
  using assms by (simp add: int_lt_size_def word_less_def uint_scast_nonneg)

lemma uint_neg_32:
  assumes "sint (n :: s32) < 0"
  shows "uint n = 2 ^ 32 + sint n"
proof -
  have "(sint n + 2 ^ 32) mod 2 ^ 32 = sint n + 2 ^ 32"
    using assms sint_ge_32 [of n] by (intro mod_pos_pos_trivial) auto
  then show ?thesis by (simp add: uint_sint take_bit_eq_mod)
qed

lemma int_lt_u32_neg [c_compare]:
  assumes "sint n < 0" and "uint sz < 2 ^ 31"
  shows "\<not> int_lt_u32 n sz"
  using assms sint_ge_32 [of n] by (simp add: int_lt_u32_def word_less_def uint_neg_32)

lemma ssize_lt_size_neg [c_compare]:
  assumes "sint (n :: 64 word) < 0" and "uint sz < 2 ^ 63"
  shows "\<not> ssize_lt_size n sz"
proof -
  have lo: "- (2 ^ 63) \<le> sint n" using sint_ge [of n] by simp
  have "(sint n + 2 ^ 64) mod 2 ^ 64 = sint n + 2 ^ 64"
    using assms lo by (intro mod_pos_pos_trivial) auto
  then have "uint n = 2 ^ 64 + sint n" by (simp add: uint_sint take_bit_eq_mod)
  then show ?thesis using assms lo by (simp add: ssize_lt_size_def word_less_def)
qed

section \<open>Decimal printing\<close>

text \<open>\<open>ss << n\<close> for an integer: decimal digits, a minus sign in front of a negative one.\<close>

definition digit :: "nat \<Rightarrow> char" where
  "digit d = char_of (48 + d)"

fun show_nat :: "nat \<Rightarrow> string" where
  "show_nat n = (if n < 10 then [digit n] else show_nat (n div 10) @ [digit (n mod 10)])"

declare show_nat.simps [simp del]

definition show_int :: "int \<Rightarrow> string" where
  "show_int i = (if i < 0 then CHR ''-'' # show_nat (nat (- i)) else show_nat (nat i))"

definition digit_chars :: "char set" where
  "digit_chars = digit ` {0..<10}"

lemma digit_inject [simp]:
  assumes "a < 10" and "b < 10"
  shows "digit a = digit b \<longleftrightarrow> a = b"
  using assms by (auto simp: digit_def dest!: arg_cong [where f = "of_char :: char \<Rightarrow> nat"])

lemma show_nat_nonempty [simp]: "show_nat n \<noteq> []"
  by (subst show_nat.simps) simp

lemma Nil_not_show_nat [simp]: "[] \<noteq> show_nat n"
  by (metis show_nat_nonempty)

lemma set_show_nat: "set (show_nat n) \<subseteq> digit_chars"
proof (induction n rule: show_nat.induct)
  case (1 n)
  then show ?case
    by (cases "n < 10") (auto simp: show_nat.simps [of n] digit_chars_def)
qed

lemma show_nat_inject [simp]: "show_nat a = show_nat b \<longleftrightarrow> a = b"
proof (induction a arbitrary: b rule: show_nat.induct)
  case (1 a)
  show ?case
  proof (cases "a < 10")
    case True
    then show ?thesis
      by (auto simp: show_nat.simps [of a] show_nat.simps [of b])
  next
    case big: False
    show ?thesis
    proof (cases "b < 10")
      case True
      then show ?thesis using big
        by (auto simp: show_nat.simps [of a] show_nat.simps [of b])
    next
      case False
      have "show_nat a = show_nat b \<longleftrightarrow> a div 10 = b div 10 \<and> a mod 10 = b mod 10"
        using big False "1.IH" by (simp add: show_nat.simps [of a] show_nat.simps [of b])
      also have "\<dots> \<longleftrightarrow> a = b" by (metis div_mult_mod_eq)
      finally show ?thesis .
    qed
  qed
qed

lemma length_show_nat: "n < 10 ^ k \<Longrightarrow> 0 < k \<Longrightarrow> length (show_nat n) \<le> k"
proof (induction n arbitrary: k rule: show_nat.induct)
  case (1 n)
  show ?case
  proof (cases "n < 10")
    case True
    then show ?thesis using "1.prems" by (simp add: show_nat.simps [of n])
  next
    case False
    then obtain j where k: "k = Suc j" and j: "0 < j"
      using "1.prems" by (cases k; cases "k = 1") auto
    have "n div 10 < 10 ^ j" using "1.prems" k by (simp add: less_mult_imp_div_less mult.commute)
    then have "length (show_nat (n div 10)) \<le> j" using "1.IH" False j by blast
    then show ?thesis using False k by (simp add: show_nat.simps [of n])
  qed
qed

lemma minus_not_digit [simp]: "CHR ''-'' \<notin> digit_chars"
  by (auto simp: digit_chars_def digit_def dest!: arg_cong [where f = "of_char :: char \<Rightarrow> nat"])

lemma set_show_int: "set (show_int i) \<subseteq> insert (CHR ''-'') digit_chars"
  using set_show_nat by (auto simp: show_int_def)

lemma show_int_inject [simp]: "show_int a = show_int b \<longleftrightarrow> a = b"
proof -
  have minus: "CHR ''-'' # xs \<noteq> show_nat n" for xs n
    using set_show_nat [of n] by (metis list.set_intros(1) minus_not_digit subsetD)
  show ?thesis
    using minus minus [symmetric] by (auto simp: show_int_def nat_eq_iff)
qed

text \<open>The printed form of an \<open>int\<close> has at most 11 characters.\<close>

lemma length_show_int: "\<bar>i\<bar> < 10 ^ k \<Longrightarrow> 0 < k \<Longrightarrow> length (show_int i) \<le> Suc k"
  using length_show_nat [of "nat (- i)" k] length_show_nat [of "nat i" k]
  by (auto simp: show_int_def nat_less_iff le_SucI)

text \<open>A separator that the parts before it do not contain splits a string in one way only.\<close>

lemma sep_inject:
  assumes "c \<notin> set xs" and "c \<notin> set xs'"
  shows "xs @ c # ys = xs' @ c # ys' \<longleftrightarrow> xs = xs' \<and> ys = ys'"
  using assms
proof (induction xs arbitrary: xs')
  case Nil
  then show ?case by (cases xs') auto
next
  case (Cons x xs)
  then show ?case by (cases xs') auto
qed

section \<open>Tables of objects\<close>

text \<open>Lists without common elements, and a heap after some of its objects are freed.\<close>

lemma distinct_concat_map:
  "distinct xs \<Longrightarrow> (\<And>x. x \<in> set xs \<Longrightarrow> distinct (f x)) \<Longrightarrow>
     (\<And>x y p. x \<in> set xs \<Longrightarrow> y \<in> set xs \<Longrightarrow> p \<in> set (f x) \<Longrightarrow> p \<in> set (f y) \<Longrightarrow> x = y) \<Longrightarrow>
     distinct (concat (map f xs))"
proof (induction xs)
  case (Cons x xs)
  have "distinct (concat (map f xs))" by (rule Cons.IH) (use Cons.prems in auto)
  moreover have "p \<notin> set (f y)" if "p \<in> set (f x)" "y \<in> set xs" for p y
    using Cons.prems(3) [of x y p] Cons.prems(1) that by auto
  ultimately show ?case using Cons.prems(2) [of x] by auto
qed simp

definition heap_minus :: "('k \<Rightarrow> 'v option) \<Rightarrow> 'k set \<Rightarrow> 'k \<Rightarrow> 'v option" where
  "heap_minus h A = (\<lambda>p. if p \<in> A then None else h p)"

lemma heap_minus_simps [simp]:
  "heap_minus h {} = h"
  "heap_minus (heap_minus h A) B = heap_minus h (A \<union> B)" "dom (heap_minus h A) = dom h - A"
  by (auto simp: heap_minus_def fun_eq_iff split: if_splits)

section \<open>Systems with an invariant\<close>

text \<open>
  A component that handles one event after the other: \<open>step e s\<close> is the state after the
  event \<open>e\<close>. The locale is the contract between the component that proves its steps
  preserve an invariant (for the events \<open>ok\<close> admits) and whoever relies on it over a
  whole run.
\<close>

primrec run_steps :: "('e \<Rightarrow> 's \<Rightarrow> 's) \<Rightarrow> 'e list \<Rightarrow> 's \<Rightarrow> 's" where
  "run_steps step [] s = s"
| "run_steps step (e # es) s = run_steps step es (step e s)"

primrec run_ok :: "('e \<Rightarrow> 's \<Rightarrow> 's) \<Rightarrow> ('e \<Rightarrow> 's \<Rightarrow> bool) \<Rightarrow> 'e list \<Rightarrow> 's \<Rightarrow> bool" where
  "run_ok step ok [] s = True"
| "run_ok step ok (e # es) s = (ok e s \<and> run_ok step ok es (step e s))"

locale invariant_system =
  fixes step :: "'e \<Rightarrow> 's \<Rightarrow> 's"
    and ok :: "'e \<Rightarrow> 's \<Rightarrow> bool"
    and inv :: "'s \<Rightarrow> bool"
  assumes step_inv: "inv s \<Longrightarrow> ok e s \<Longrightarrow> inv (step e s)"
begin

lemma run_inv: "inv s \<Longrightarrow> run_ok step ok es s \<Longrightarrow> inv (run_steps step es s)"
  by (induction es arbitrary: s) (auto intro: step_inv)

end

text \<open>
  The same for a system of threads that is given as a step relation, with \<open>None\<close> for the state
  after a crash: what a step keeps holds in every state that can be reached before a crash.
\<close>

locale thread_system =
  fixes step :: "'t \<times> 's option \<Rightarrow> 't \<times> 's option \<Rightarrow> bool"
    and inv :: "'t \<Rightarrow> 's \<Rightarrow> bool"
  assumes crashed_ends: "\<not> step (t, None) c"
    and step_keeps: "step (t, Some s) (t', Some s') \<Longrightarrow> inv t s \<Longrightarrow> inv t' s'"
begin

lemma crashed_stays: "step\<^sup>*\<^sup>* (t, None) c \<Longrightarrow> c = (t, None)"
  by (induction rule: rtranclp_induct) (auto simp: crashed_ends)

lemma reach_keeps:
  assumes "step\<^sup>*\<^sup>* (t, Some s) (t', Some s')" and "inv t s"
  shows "inv t' s'"
proof -
  have "\<forall>s'. snd c = Some s' \<longrightarrow> inv (fst c) s'" if "step\<^sup>*\<^sup>* (t, Some s) c" for c
    using that
  proof (induction rule: rtranclp_induct)
    case base
    then show ?case using assms(2) by simp
  next
    case (step b c)
    then show ?case using crashed_ends step_keeps by (cases b; cases c; cases "snd b") auto
  qed
  from this [OF assms(1)] show ?thesis by simp
qed

end

end
