(* ===== verification/Keys.thy ===== *)
theory Keys
  imports Prelude
begin

text \<open>
  The keys of the router's hash tables (\<open>HostKey\<close>, \<open>ConnKey\<close>, \<open>ConnId\<close> of
  \<open>scalerouter/common.h\<close>): their equality operators and their hash functions.
  A GID is its 16 raw bytes.
\<close>

unbundle bit_operations_syntax

section \<open>The key structs\<close>

type_synonym gid = "u8 list"

record HostKey =
  src_gid :: gid
  dst_gid :: gid

record ConnKey =
  host_key :: HostKey
  src_qpn :: u32
  dst_qpn :: u32

record ConnId =
  conn_key :: ConnKey
  process_id :: s32

definition wf_gid :: "gid \<Rightarrow> bool" where
  "wf_gid g \<longleftrightarrow> length g = 16"

definition wf_HostKey :: "HostKey \<Rightarrow> bool" where
  "wf_HostKey k \<longleftrightarrow> wf_gid (src_gid k) \<and> wf_gid (dst_gid k)"

section \<open>Equality\<close>

text \<open>\<open>memcmp\<close>: the sign of the first difference among the first \<open>n\<close> bytes.\<close>

fun memcmp :: "u8 list \<Rightarrow> u8 list \<Rightarrow> nat \<Rightarrow> int" where
  "memcmp (a # as) (b # bs) (Suc n) =
     (if a = b then memcmp as bs n else if a < b then -1 else 1)"
| "memcmp _ _ _ = 0"

definition HostKey_eq :: "HostKey \<Rightarrow> HostKey \<Rightarrow> bool" where
  "HostKey_eq self tmp =
     (let src = memcmp (src_gid self) (src_gid tmp) 16;
          dst = memcmp (dst_gid self) (dst_gid tmp) 16
      in if src = 0 \<and> dst = 0 then True else False)"

definition ConnId_eq :: "ConnId \<Rightarrow> ConnId \<Rightarrow> bool" where
  "ConnId_eq self tmp =
     (if process_id self = process_id tmp
       \<and> HostKey_eq (host_key (conn_key self)) (host_key (conn_key tmp))
       \<and> src_qpn (conn_key self) = src_qpn (conn_key tmp)
       \<and> dst_qpn (conn_key self) = dst_qpn (conn_key tmp)
      then True else False)"

lemma memcmp_eq_0: "length as = n \<Longrightarrow> length bs = n \<Longrightarrow> memcmp as bs n = 0 \<longleftrightarrow> as = bs"
proof (induction n arbitrary: as bs)
  case (Suc n)
  then obtain a as' b bs' where "as = a # as'" "bs = b # bs'"
    by (metis length_Suc_conv)
  with Suc show ?case by auto
qed simp

lemma HostKey_eq_iff:
  assumes "wf_HostKey a" and "wf_HostKey b"
  shows "HostKey_eq a b \<longleftrightarrow> a = b"
  using assms
  by (auto simp: HostKey_eq_def wf_HostKey_def wf_gid_def memcmp_eq_0 intro: HostKey.equality)

lemma ConnId_eq_iff:
  assumes "wf_HostKey (host_key (conn_key a))" and "wf_HostKey (host_key (conn_key b))"
  shows "ConnId_eq a b \<longleftrightarrow> a = b"
  using assms
  by (auto simp: ConnId_eq_def HostKey_eq_iff intro!: ConnId.equality ConnKey.equality)

section \<open>Hashing\<close>

text \<open>
  \<open>reinterpret_cast<char *>(&tmp.src_gid)\<close> read as a C string: the bytes of memory from the
  field on, up to the first zero byte. What follows the key in memory is \<open>rest\<close>.
  \<open>hash<string>\<close> and \<open>hash<int>\<close> of the C++ library are parameters.
\<close>

definition c_string :: "u8 list \<Rightarrow> u8 list" where
  "c_string mem = takeWhile (\<lambda>b. b \<noteq> 0) mem"

definition HostKey_hash :: "(u8 list \<Rightarrow> u64) \<Rightarrow> u8 list \<Rightarrow> HostKey \<Rightarrow> u64" where
  "HostKey_hash hash_string rest tmp =
     (let src = c_string (src_gid tmp @ dst_gid tmp @ rest);
          dst = c_string (dst_gid tmp @ rest)
      in hash_string src XOR push_bit 1 (hash_string dst))"

definition le_bytes32 :: "32 word \<Rightarrow> u8 list" where
  "le_bytes32 n = [ucast n, ucast (drop_bit 8 n), ucast (drop_bit 16 n), ucast (drop_bit 24 n)]"

definition ConnId_hash :: "(u8 list \<Rightarrow> u64) \<Rightarrow> (32 word \<Rightarrow> u64) \<Rightarrow> u8 list \<Rightarrow> ConnId \<Rightarrow> u64" where
  "ConnId_hash hash_string hash_int rest tmp =
     (let ck = conn_key tmp;
          after_host_key = le_bytes32 (src_qpn ck) @ le_bytes32 (dst_qpn ck)
            @ le_bytes32 (process_id tmp) @ rest
      in (drop_bit 1 (hash_int (process_id tmp)
             XOR push_bit 1 (HostKey_hash hash_string after_host_key (host_key ck)))
           XOR drop_bit 1 (push_bit 1 (hash_int (src_qpn ck))))
         XOR push_bit 1 (hash_int (dst_qpn ck)))"

text \<open>\<open>ArrayHasher\<close> of \<open>scalerouter.h\<close>, the hash of \<open>dst_qp_map\<close>.\<close>

definition ArrayHasher :: "(u8 \<Rightarrow> u64) \<Rightarrow> gid \<Rightarrow> u64" where
  "ArrayHasher hash_u8 arr =
     foldl (\<lambda>h i. h XOR (hash_u8 i + 0x9e3779b9 + push_bit 6 h + drop_bit 2 h)) 0 arr"

lemma c_string_stop: "0 \<in> set xs \<Longrightarrow> c_string (xs @ ys) = c_string xs"
  by (auto simp: c_string_def)

lemma c_string_append: "0 \<notin> set xs \<Longrightarrow> c_string (xs @ ys) = xs @ c_string ys"
  by (auto simp: c_string_def takeWhile_append)

text \<open>With a zero byte in the destination GID the hash is a function of the key alone.\<close>

lemma HostKey_hash_stable:
  assumes "0 \<in> set (dst_gid k)"
  shows "HostKey_hash h rest k = HostKey_hash h rest' k"
proof -
  have "c_string (src_gid k @ dst_gid k @ r) = c_string (src_gid k @ dst_gid k)" for r
    using assms c_string_stop [of "src_gid k @ dst_gid k" r] by simp
  moreover have "c_string (dst_gid k @ r) = c_string (dst_gid k)" for r
    using assms by (rule c_string_stop)
  ultimately show ?thesis by (simp add: HostKey_hash_def)
qed

text \<open>Without one, the bytes that happen to follow the key in memory enter the hash.\<close>

lemma HostKey_hash_overrun:
  assumes "0 \<notin> set (src_gid k)" and "0 \<notin> set (dst_gid k)"
  shows "HostKey_hash h rest k =
    h (src_gid k @ dst_gid k @ c_string rest) XOR push_bit 1 (h (dst_gid k @ c_string rest))"
  using assms by (simp add: HostKey_hash_def c_string_append)

text \<open>GIDs that begin with a zero byte, as every IPv4-mapped one does, all collide.\<close>

lemma HostKey_hash_collide:
  assumes "src_gid k \<noteq> []" "hd (src_gid k) = 0" "dst_gid k \<noteq> []" "hd (dst_gid k) = 0"
  shows "HostKey_hash h rest k = h [] XOR push_bit 1 (h [])"
  using assms by (cases "src_gid k"; cases "dst_gid k") (auto simp: HostKey_hash_def c_string_def)

end
