(* ===== verification/Wire.thy ===== *)
theory Wire
  imports Prelude
begin

text \<open>
  The messages between libscale and scalerouter: the call numbers, the structs that travel
  over the UNIX socket and the number of bytes each side writes and reads. The client takes
  them from \<open>libscale/scale_type.h\<close> (names with the suffix \<open>_c\<close>), the router from
  \<open>scalerouter/common.h\<close> (suffix \<open>_r\<close>): the two headers are separate copies, and the
  lemmas show that they describe the same bytes. Layout is that of the x86-64 System V ABI:
  a scalar is aligned to its size, a struct to its most aligned member, and a struct with
  \<open>__attribute__((packed))\<close> has no padding.
\<close>

section \<open>C struct layout\<close>

datatype cty = CInt nat | CArr cty nat | CStruct "(string \<times> cty) list" | CPacked "(string \<times> cty) list"

abbreviation CU8 :: cty where "CU8 \<equiv> CInt 1"
abbreviation CU16 :: cty where "CU16 \<equiv> CInt 2"
abbreviation CU32 :: cty where "CU32 \<equiv> CInt 4"
abbreviation CI32 :: cty where "CI32 \<equiv> CInt 4"
abbreviation CU64 :: cty where "CU64 \<equiv> CInt 8"
abbreviation CSizeT :: cty where "CSizeT \<equiv> CInt 8"
abbreviation CPtr :: cty where "CPtr \<equiv> CInt 8"
abbreviation CChars :: "nat \<Rightarrow> cty" where "CChars n \<equiv> CArr (CInt 1) n"

definition align_up :: "nat \<Rightarrow> nat \<Rightarrow> nat" where
  "align_up n a = (n + a - 1) div a * a"

fun c_align :: "cty \<Rightarrow> nat" where
  "c_align (CInt n) = n"
| "c_align (CArr t n) = c_align t"
| "c_align (CStruct fs) = foldr max (map (\<lambda>f. c_align (snd f)) fs) 1"
| "c_align (CPacked fs) = 1"

text \<open>The end of the last member, from the sizes and alignments of the members in order.\<close>

fun members_end :: "(nat \<times> nat) list \<Rightarrow> nat \<Rightarrow> nat" where
  "members_end [] off = off"
| "members_end ((sz, al) # ms) off = members_end ms (align_up off al + sz)"

fun c_size :: "cty \<Rightarrow> nat" where
  "c_size (CInt n) = n"
| "c_size (CArr t n) = c_size t * n"
| "c_size (CStruct fs) =
     align_up (members_end (map (\<lambda>f. (c_size (snd f), c_align (snd f))) fs) 0)
       (foldr max (map (\<lambda>f. c_align (snd f)) fs) 1)"
| "c_size (CPacked fs) = sum_list (map (\<lambda>f. c_size (snd f)) fs)"

text \<open>The members of a struct with their offsets: what a reader and a writer must agree on.\<close>

fun member_offsets :: "(string \<times> cty) list \<Rightarrow> nat \<Rightarrow> (string \<times> nat \<times> nat) list" where
  "member_offsets [] off = []"
| "member_offsets ((x, t) # fs) off =
     (let o' = align_up off (c_align t) in (x, o', c_size t) # member_offsets fs (o' + c_size t))"

fun packed_offsets :: "(string \<times> cty) list \<Rightarrow> nat \<Rightarrow> (string \<times> nat \<times> nat) list" where
  "packed_offsets [] off = []"
| "packed_offsets ((x, t) # fs) off = (x, off, c_size t) # packed_offsets fs (off + c_size t)"

fun layout :: "cty \<Rightarrow> (string \<times> nat \<times> nat) list" where
  "layout (CStruct fs) = member_offsets fs 0"
| "layout (CPacked fs) = packed_offsets fs 0"
| "layout t = [([], 0, c_size t)]"

section \<open>Call numbers\<close>

datatype SCALE_FUNCTION_CALL =
    INIT_RES | CREATE_RES | REG_MR | SETUP_CONN | POST_SEND | POST_RECV | POLL_CQ
  | DEREG_MR | DESTROY_RES
  | IBV_GET_DEVICE_LIST | IBV_ALLOC_PD | IBV_REG_MR | IBV_QUERY_GID | IBV_QUERY_PORT
  | IBV_CREATE_QP | IBV_MODIFY_QP | IBV_POST_SEND | IBV_POST_RECV | IBV_POLL_CQ
  | IBV_DESTROY_CQ | IBV_DESTROY_QP | IBV_DEREG_MR

text \<open>The enumerators in the order of each header; an enumerator's value is its position.\<close>

definition call_enum_c :: "SCALE_FUNCTION_CALL list" where
  "call_enum_c =
    [INIT_RES, CREATE_RES, REG_MR, SETUP_CONN, POST_SEND, POST_RECV, POLL_CQ,
     DEREG_MR, DESTROY_RES,
     IBV_GET_DEVICE_LIST, IBV_ALLOC_PD, IBV_REG_MR, IBV_QUERY_GID, IBV_QUERY_PORT,
     IBV_CREATE_QP, IBV_MODIFY_QP, IBV_POST_SEND, IBV_POST_RECV, IBV_POLL_CQ,
     IBV_DESTROY_CQ, IBV_DESTROY_QP, IBV_DEREG_MR]"

definition call_enum_r :: "SCALE_FUNCTION_CALL list" where
  "call_enum_r =
    [INIT_RES, CREATE_RES, REG_MR,
     SETUP_CONN,
     POST_SEND, POST_RECV, POLL_CQ,
     DEREG_MR, DESTROY_RES,
     IBV_GET_DEVICE_LIST, IBV_ALLOC_PD, IBV_REG_MR, IBV_QUERY_GID, IBV_QUERY_PORT,
     IBV_CREATE_QP, IBV_MODIFY_QP, IBV_POST_SEND, IBV_POST_RECV, IBV_POLL_CQ,
     IBV_DESTROY_CQ, IBV_DESTROY_QP, IBV_DEREG_MR]"

text \<open>The enumeration as a finite type, so that a statement on all calls can be evaluated.\<close>

instantiation SCALE_FUNCTION_CALL :: enum
begin

definition enum_SCALE_FUNCTION_CALL :: "SCALE_FUNCTION_CALL list" where
  "enum_SCALE_FUNCTION_CALL = call_enum_r"

definition enum_all_SCALE_FUNCTION_CALL :: "(SCALE_FUNCTION_CALL \<Rightarrow> bool) \<Rightarrow> bool" where
  "enum_all_SCALE_FUNCTION_CALL P \<longleftrightarrow> list_all P call_enum_r"

definition enum_ex_SCALE_FUNCTION_CALL :: "(SCALE_FUNCTION_CALL \<Rightarrow> bool) \<Rightarrow> bool" where
  "enum_ex_SCALE_FUNCTION_CALL P \<longleftrightarrow> list_ex P call_enum_r"

instance
proof
  have "f \<in> set call_enum_r" for f by (cases f) (simp_all add: call_enum_r_def)
  then show u: "UNIV = set (Enum.enum :: SCALE_FUNCTION_CALL list)"
    by (auto simp: enum_SCALE_FUNCTION_CALL_def)
  show "distinct (Enum.enum :: SCALE_FUNCTION_CALL list)"
    by (simp add: enum_SCALE_FUNCTION_CALL_def call_enum_r_def)
  have a: "set call_enum_r = UNIV" using u by (simp add: enum_SCALE_FUNCTION_CALL_def)
  show "Enum.enum_all P \<longleftrightarrow> Ball UNIV P" "Enum.enum_ex P \<longleftrightarrow> Bex UNIV P" for P :: "SCALE_FUNCTION_CALL \<Rightarrow> bool"
    by (simp_all only: enum_all_SCALE_FUNCTION_CALL_def enum_ex_SCALE_FUNCTION_CALL_def list_all_iff list_ex_iff a)
qed

end

fun index_of :: "'a \<Rightarrow> 'a list \<Rightarrow> nat option" where
  "index_of x [] = None"
| "index_of x (y # ys) = (if x = y then Some 0 else map_option Suc (index_of x ys))"

definition call_code_c :: "SCALE_FUNCTION_CALL \<Rightarrow> u32 option" where
  "call_code_c f = map_option of_nat (index_of f call_enum_c)"

text \<open>The router's \<open>switch (header.func)\<close>: \<open>None\<close> is the \<open>default\<close> label.\<close>

definition call_of_code_r :: "u32 \<Rightarrow> SCALE_FUNCTION_CALL option" where
  "call_of_code_r n = (if unat n < length call_enum_r then Some (call_enum_r ! unat n) else None)"

end
