(* ===== verification/Wire_Structs.thy ===== *)
theory Wire_Structs
  imports Wire
begin

text \<open>
  Every struct that crosses the UNIX socket, transcribed member by member from the two
  headers. \<open>cty\<close> values give sizes and member offsets by evaluation.
\<close>

section \<open>The structs of \<open>libscale/scale_type.h\<close>\<close>

definition ScaleReqHeader_c :: cty where
  "ScaleReqHeader_c = CStruct [
    (''process_id'', CI32),
    (''func'', CU32),
    (''body_size'', CU32)]"

definition ScaleRspHeader_c :: cty where
  "ScaleRspHeader_c = CStruct [
    (''body_size'', CU32)]"

definition IBV_GET_DEVICE_LIST_RSP_c :: cty where
  "IBV_GET_DEVICE_LIST_RSP_c = CStruct [
    (''node_type'', CU32),
    (''transport_type'', CU32),
    (''name'', CChars 64),
    (''dev_name'', CChars 64),
    (''dev_path'', CChars 256),
    (''ibdev_path'', CChars 256)]"

definition IBV_ALLOC_PD_RSP_c :: cty where
  "IBV_ALLOC_PD_RSP_c = CStruct [
    (''handle'', CU32)]"

definition IBV_REG_MR_REQ_c :: cty where
  "IBV_REG_MR_REQ_c = CStruct [
    (''access_flag'', CU32),
    (''length'', CSizeT),
    (''client_addr'', CPtr)]"

definition IBV_REG_MR_RSP_c :: cty where
  "IBV_REG_MR_RSP_c = CStruct [
    (''handle'', CU32),
    (''lkey'', CU32),
    (''rkey'', CU32),
    (''shm_name'', CChars 100),
    (''router_mr'', CPtr),
    (''router_addr'', CPtr),
    (''router_shm_fd'', CI32)]"

definition IBV_QUERY_GID_RSP_c :: cty where
  "IBV_QUERY_GID_RSP_c = CStruct [
    (''gid'', CArr CU8 16)]"

definition IBV_QUERY_PORT_RSP_c :: cty where
  "IBV_QUERY_PORT_RSP_c = CStruct [
    (''state'', CU32),
    (''max_mtu'', CU32),
    (''active_mtu'', CU32),
    (''gid_tbl_len'', CI32),
    (''port_cap_flags'', CU32),
    (''max_msg_sz'', CU32),
    (''bad_pkey_cntr'', CU32),
    (''qkey_viol_cntr'', CU32),
    (''pkey_tbl_len'', CU16),
    (''lid'', CU16),
    (''sm_lid'', CU16),
    (''lmc'', CU8),
    (''max_vl_num'', CU8),
    (''sm_sl'', CU8),
    (''subnet_timeout'', CU8),
    (''init_type_reply'', CU8),
    (''active_width'', CU8),
    (''active_speed'', CU8),
    (''phys_state'', CU8),
    (''link_layer'', CU8)]"

definition IBV_CREATE_QP_REQ_c :: cty where
  "IBV_CREATE_QP_REQ_c = CStruct [
    (''send_cq_handle'', CU32),
    (''recv_cq_handle'', CU32),
    (''qp_handle'', CU32)]"

definition IBV_CREATE_QP_RSP_c :: cty where
  "IBV_CREATE_QP_RSP_c = CStruct [
    (''qp_num'', CU32)]"

definition IBV_MODIFY_QP_REQ_c :: cty where
  "IBV_MODIFY_QP_REQ_c = CStruct [
    (''dst_gid'', CArr CU8 16),
    (''dst_lid'', CU16),
    (''dst_v_qp_num'', CU32),
    (''src_v_qp_num'', CU32),
    (''src_v_qp_handle'', CU32),
    (''qp_state'', CU32)]"

definition IBV_MODIFY_QP_RSP_c :: cty where
  "IBV_MODIFY_QP_RSP_c = CStruct [
    (''flag'', CU8)]"

definition IBV_POST_SEND_REQ_c :: cty where
  "IBV_POST_SEND_REQ_c = CStruct [
    (''qp_handle'', CU32),
    (''client_addr'', CPtr),
    (''opcode'', CI32),
    (''wr_id'', CI32),
    (''lkey'', CU32),
    (''length'', CSizeT),
    (''remote_router_addr'', CPtr),
    (''rkey'', CU32)]"

definition IBV_POST_SEND_RSP_c :: cty where
  "IBV_POST_SEND_RSP_c = CStruct [
    (''wr_id'', CI32)]"

definition IBV_POST_RECV_REQ_c :: cty where
  "IBV_POST_RECV_REQ_c = CStruct [
    (''qp_handle'', CU32),
    (''client_addr'', CPtr),
    (''lkey'', CU32),
    (''wr_id'', CI32),
    (''length'', CSizeT)]"

definition IBV_POST_RECV_RSP_c :: cty where
  "IBV_POST_RECV_RSP_c = CStruct [
    (''wr_id'', CI32)]"

definition IBV_POLL_CQ_REQ_c :: cty where
  "IBV_POLL_CQ_REQ_c = CStruct [
    (''cq_handle'', CU32),
    (''qp_handle'', CU32),
    (''num_entries'', CI32)]"

definition IBV_POLL_CQ_RSP_c :: cty where
  "IBV_POLL_CQ_RSP_c = CStruct [
    (''count'', CI32),
    (''wr_id'', CU64),
    (''opcode'', CI32),
    (''status'', CI32),
    (''vendor_err'', CU32)]"

definition IBV_DESTROY_CQ_REQ_c :: cty where
  "IBV_DESTROY_CQ_REQ_c = CStruct [
    (''cq_handle'', CU32)]"

definition IBV_DESTROY_CQ_RSP_c :: cty where
  "IBV_DESTROY_CQ_RSP_c = CStruct [
    (''flags'', CU8)]"

definition IBV_DESTROY_QP_REQ_c :: cty where
  "IBV_DESTROY_QP_REQ_c = CStruct [
    (''qp_handle'', CU32),
    (''dst_v_qp_num'', CU32)]"

definition IBV_DESTROY_QP_RSP_c :: cty where
  "IBV_DESTROY_QP_RSP_c = CStruct [
    (''flags'', CU8)]"

definition IBV_DEREG_MR_REQ_c :: cty where
  "IBV_DEREG_MR_REQ_c = CStruct [
    (''shm_name'', CChars 100),
    (''lkey'', CU32),
    (''router_shm_fd'', CI32),
    (''length'', CSizeT),
    (''router_mr'', CPtr),
    (''router_addr'', CPtr)]"

definition IBV_DEREG_MR_RSP_c :: cty where
  "IBV_DEREG_MR_RSP_c = CStruct [
    (''flags'', CU8)]"

section \<open>The structs of \<open>scalerouter/common.h\<close>\<close>

text \<open>\<open>ibv_gid\<close> is a union of 16 raw bytes and two 64-bit halves.\<close>

definition gid_layout :: cty where
  "gid_layout = CArr CU64 2"

definition HostKey_r :: cty where
  "HostKey_r = CPacked [
    (''src_gid'', gid_layout),
    (''dst_gid'', gid_layout)]"

definition HostLid_r :: cty where
  "HostLid_r = CPacked [
    (''src_lid'', CU16),
    (''dst_lid'', CU16)]"

definition ConnKey_r :: cty where
  "ConnKey_r = CPacked [
    (''host_key'', HostKey_r),
    (''src_qpn'', CU32),
    (''dst_qpn'', CU32)]"

definition ConnId_r :: cty where
  "ConnId_r = CPacked [
    (''conn_key'', ConnKey_r),
    (''process_id'', CI32)]"

definition ConnInfo_r :: cty where
  "ConnInfo_r = CPacked [
    (''conn_id'', ConnId_r),
    (''host_lid'', HostLid_r)]"

definition LocalMem_r :: cty where
  "LocalMem_r = CPacked [
    (''conn_id'', CPtr),
    (''client_addr'', CPtr),
    (''length'', CSizeT),
    (''router_addr'', CPtr),
    (''shm_piece'', CPtr),
    (''shm_name'', CChars 100),
    (''shm_fd'', CI32),
    (''mr'', CPtr),
    (''lkey'', CU32),
    (''rkey'', CU32)]"

definition RemoteMem_r :: cty where
  "RemoteMem_r = CPacked [
    (''conn_id'', CPtr),
    (''router_addr'', CPtr),
    (''length'', CSizeT),
    (''rkey'', CU32)]"

definition ScaleReqHeader_r :: cty where
  "ScaleReqHeader_r = CStruct [
    (''process_id'', CI32),
    (''func'', CU32),
    (''body_size'', CU32)]"

definition ScaleRspHeader_r :: cty where
  "ScaleRspHeader_r = CStruct [
    (''body_size'', CU32)]"

definition INIT_RES_RSP_r :: cty where
  "INIT_RES_RSP_r = CStruct [
    (''conn_info'', ConnInfo_r)]"

definition CREATE_RES_REQ_r :: cty where
  "CREATE_RES_REQ_r = CStruct [
    (''host_key'', HostKey_r)]"

definition CREATE_RES_RSP_r :: cty where
  "CREATE_RES_RSP_r = CStruct [
    (''conn_id'', ConnId_r)]"

definition REG_MR_REQ_r :: cty where
  "REG_MR_REQ_r = CStruct [
    (''conn_id'', ConnId_r),
    (''local_mem'', LocalMem_r)]"

definition REG_MR_RSP_r :: cty where
  "REG_MR_RSP_r = CStruct [
    (''local_mem'', LocalMem_r)]"

definition SETUP_CONN_REQ_r :: cty where
  "SETUP_CONN_REQ_r = CStruct [
    (''conn_info'', ConnInfo_r)]"

definition SETUP_CONN_RSP_r :: cty where
  "SETUP_CONN_RSP_r = CStruct [
    (''process_id'', CI32),
    (''status'', CU8)]"

definition POST_SEND_REQ_r :: cty where
  "POST_SEND_REQ_r = CStruct [
    (''conn_id'', ConnId_r),
    (''wr_id'', CI32),
    (''local_addr'', CPtr),
    (''length'', CSizeT),
    (''lkey'', CU32),
    (''opcode'', CI32),
    (''remote_addr'', CPtr),
    (''rkey'', CU32)]"

definition POST_SEND_RSP_r :: cty where
  "POST_SEND_RSP_r = CStruct [
    (''wr_id'', CI32)]"

definition POST_RECV_REQ_r :: cty where
  "POST_RECV_REQ_r = CStruct [
    (''conn_id'', ConnId_r),
    (''wr_id'', CI32),
    (''local_addr'', CPtr),
    (''length'', CSizeT),
    (''lkey'', CU32)]"

definition POST_RECV_RSP_r :: cty where
  "POST_RECV_RSP_r = CStruct [
    (''wr_id'', CI32)]"

definition POLL_CQ_REQ_r :: cty where
  "POLL_CQ_REQ_r = CStruct [
    (''conn_id'', ConnId_r),
    (''wr_id'', CI32),
    (''count'', CI32)]"

definition POLL_CQ_RSP_r :: cty where
  "POLL_CQ_RSP_r = CStruct [
    (''wr_id'', CI32),
    (''count'', CI32)]"

definition DEREG_MR_REQ_r :: cty where
  "DEREG_MR_REQ_r = CStruct [
    (''conn_id'', ConnId_r),
    (''local_mem'', LocalMem_r)]"

definition DEREG_MR_RSP_r :: cty where
  "DEREG_MR_RSP_r = CStruct [
    (''local_mem'', LocalMem_r)]"

definition DESTROY_RES_REQ_r :: cty where
  "DESTROY_RES_REQ_r = CStruct [
    (''conn_id'', ConnId_r)]"

definition DESTROY_RES_RSP_r :: cty where
  "DESTROY_RES_RSP_r = CStruct [
    (''conn_id'', ConnId_r)]"

definition IBV_GET_DEVICE_LIST_RSP_r :: cty where
  "IBV_GET_DEVICE_LIST_RSP_r = CStruct [
    (''node_type'', CU32),
    (''transport_type'', CU32),
    (''name'', CChars 64),
    (''dev_name'', CChars 64),
    (''dev_path'', CChars 256),
    (''ibdev_path'', CChars 256)]"

definition IBV_ALLOC_PD_RSP_r :: cty where
  "IBV_ALLOC_PD_RSP_r = CStruct [
    (''handle'', CU32)]"

definition IBV_REG_MR_REQ_r :: cty where
  "IBV_REG_MR_REQ_r = CStruct [
    (''access_flag'', CU32),
    (''length'', CSizeT),
    (''client_addr'', CPtr)]"

definition IBV_REG_MR_RSP_r :: cty where
  "IBV_REG_MR_RSP_r = CStruct [
    (''handle'', CU32),
    (''lkey'', CU32),
    (''rkey'', CU32),
    (''shm_name'', CChars 100),
    (''router_mr'', CPtr),
    (''router_addr'', CPtr),
    (''router_shm_fd'', CI32)]"

definition IBV_QUERY_GID_RSP_r :: cty where
  "IBV_QUERY_GID_RSP_r = CStruct [
    (''gid'', CArr CU8 16)]"

definition IBV_QUERY_PORT_RSP_r :: cty where
  "IBV_QUERY_PORT_RSP_r = CStruct [
    (''state'', CU32),
    (''max_mtu'', CU32),
    (''active_mtu'', CU32),
    (''gid_tbl_len'', CI32),
    (''port_cap_flags'', CU32),
    (''max_msg_sz'', CU32),
    (''bad_pkey_cntr'', CU32),
    (''qkey_viol_cntr'', CU32),
    (''pkey_tbl_len'', CU16),
    (''lid'', CU16),
    (''sm_lid'', CU16),
    (''lmc'', CU8),
    (''max_vl_num'', CU8),
    (''sm_sl'', CU8),
    (''subnet_timeout'', CU8),
    (''init_type_reply'', CU8),
    (''active_width'', CU8),
    (''active_speed'', CU8),
    (''phys_state'', CU8),
    (''link_layer'', CU8)]"

definition IBV_CREATE_QP_REQ_r :: cty where
  "IBV_CREATE_QP_REQ_r = CStruct [
    (''send_cq_handle'', CU32),
    (''recv_cq_handle'', CU32),
    (''qp_handle'', CU32)]"

definition IBV_CREATE_QP_RSP_r :: cty where
  "IBV_CREATE_QP_RSP_r = CStruct [
    (''qp_num'', CU32)]"

definition IBV_MODIFY_QP_REQ_r :: cty where
  "IBV_MODIFY_QP_REQ_r = CStruct [
    (''dst_gid'', CArr CU8 16),
    (''dst_lid'', CU16),
    (''dst_v_qp_num'', CU32),
    (''src_v_qp_num'', CU32),
    (''src_v_qp_handle'', CU32),
    (''qp_state'', CU32)]"

definition IBV_MODIFY_QP_RSP_r :: cty where
  "IBV_MODIFY_QP_RSP_r = CStruct [
    (''flag'', CU8)]"

definition IBV_POST_SEND_REQ_r :: cty where
  "IBV_POST_SEND_REQ_r = CStruct [
    (''qp_handle'', CU32),
    (''client_addr'', CPtr),
    (''opcode'', CI32),
    (''wr_id'', CI32),
    (''lkey'', CU32),
    (''length'', CSizeT),
    (''remote_router_addr'', CPtr),
    (''rkey'', CU32)]"

definition IBV_POST_SEND_RSP_r :: cty where
  "IBV_POST_SEND_RSP_r = CStruct [
    (''wr_id'', CI32)]"

definition IBV_POST_RECV_REQ_r :: cty where
  "IBV_POST_RECV_REQ_r = CStruct [
    (''qp_handle'', CU32),
    (''client_addr'', CPtr),
    (''lkey'', CU32),
    (''wr_id'', CI32),
    (''length'', CSizeT)]"

definition IBV_POST_RECV_RSP_r :: cty where
  "IBV_POST_RECV_RSP_r = CStruct [
    (''wr_id'', CI32)]"

definition IBV_POLL_CQ_REQ_r :: cty where
  "IBV_POLL_CQ_REQ_r = CStruct [
    (''cq_handle'', CU32),
    (''qp_handle'', CU32),
    (''num_entries'', CI32)]"

definition IBV_POLL_CQ_RSP_r :: cty where
  "IBV_POLL_CQ_RSP_r = CStruct [
    (''count'', CI32),
    (''wr_id'', CU64),
    (''opcode'', CI32),
    (''status'', CI32),
    (''vendor_err'', CU32)]"

definition IBV_DESTROY_CQ_REQ_r :: cty where
  "IBV_DESTROY_CQ_REQ_r = CStruct [
    (''cq_handle'', CU32)]"

definition IBV_DESTROY_CQ_RSP_r :: cty where
  "IBV_DESTROY_CQ_RSP_r = CStruct [
    (''flags'', CU8)]"

definition IBV_DESTROY_QP_REQ_r :: cty where
  "IBV_DESTROY_QP_REQ_r = CStruct [
    (''qp_handle'', CU32),
    (''dst_v_qp_num'', CU32)]"

definition IBV_DESTROY_QP_RSP_r :: cty where
  "IBV_DESTROY_QP_RSP_r = CStruct [
    (''flags'', CU8)]"

definition IBV_DEREG_MR_REQ_r :: cty where
  "IBV_DEREG_MR_REQ_r = CStruct [
    (''shm_name'', CChars 100),
    (''lkey'', CU32),
    (''router_shm_fd'', CI32),
    (''length'', CSizeT),
    (''router_mr'', CPtr),
    (''router_addr'', CPtr)]"

definition IBV_DEREG_MR_RSP_r :: cty where
  "IBV_DEREG_MR_RSP_r = CStruct [
    (''flags'', CU8)]"


end
