(* ===== verification/Protocol.thy ===== *)
theory Protocol
  imports Wire_Structs
begin

text \<open>
  The protocol of one request: the sizes \<open>request_router\<close> of libscale sends and waits
  for, the sizes \<open>handle_process\<close> of scalerouter reads and answers with, and the buffers
  the router holds them in. The lemmas show that both sides agree on every call that
  libscale can make, and which messages the router's buffers can hold.
\<close>

section \<open>Sizes on the client's side\<close>

text \<open>
  The \<open>switch\<close> of \<open>request_router\<close>: response size and body size; \<open>None\<close> is the
  \<open>default\<close> label, \<open>rc = -1\<close>. The calls of the first interface are commented out there.
\<close>

definition request_sizes_c :: "SCALE_FUNCTION_CALL \<Rightarrow> (nat \<times> nat) option" where
  "request_sizes_c req = (case req of
      IBV_GET_DEVICE_LIST \<Rightarrow> Some (c_size IBV_GET_DEVICE_LIST_RSP_c, 0)
    | IBV_ALLOC_PD \<Rightarrow> Some (c_size IBV_ALLOC_PD_RSP_c, 0)
    | IBV_REG_MR \<Rightarrow> Some (c_size IBV_REG_MR_RSP_c, c_size IBV_REG_MR_REQ_c)
    | IBV_QUERY_GID \<Rightarrow> Some (c_size IBV_QUERY_GID_RSP_c, 0)
    | IBV_QUERY_PORT \<Rightarrow> Some (c_size IBV_QUERY_PORT_RSP_c, 0)
    | IBV_CREATE_QP \<Rightarrow> Some (c_size IBV_CREATE_QP_RSP_c, c_size IBV_CREATE_QP_REQ_c)
    | IBV_MODIFY_QP \<Rightarrow> Some (c_size IBV_MODIFY_QP_RSP_c, c_size IBV_MODIFY_QP_REQ_c)
    | IBV_POST_SEND \<Rightarrow> Some (c_size IBV_POST_SEND_RSP_c, c_size IBV_POST_SEND_REQ_c)
    | IBV_POST_RECV \<Rightarrow> Some (c_size IBV_POST_RECV_RSP_c, c_size IBV_POST_RECV_REQ_c)
    | IBV_POLL_CQ \<Rightarrow> Some (c_size IBV_POLL_CQ_RSP_c, c_size IBV_POLL_CQ_REQ_c)
    | IBV_DESTROY_CQ \<Rightarrow> Some (c_size IBV_DESTROY_CQ_RSP_c, c_size IBV_DESTROY_CQ_REQ_c)
    | IBV_DESTROY_QP \<Rightarrow> Some (c_size IBV_DESTROY_QP_RSP_c, c_size IBV_DESTROY_QP_REQ_c)
    | IBV_DEREG_MR \<Rightarrow> Some (c_size IBV_DEREG_MR_RSP_c, c_size IBV_DEREG_MR_REQ_c)
    | _ \<Rightarrow> None)"

section \<open>Sizes on the router's side\<close>

text \<open>
  What each \<open>case\<close> of \<open>handle_process\<close> reads after the header (\<open>0\<close> where it reads
  nothing) and the \<open>size\<close> it answers with. \<open>DEREG_MR\<close> answers with a \<open>REG_MR_RSP\<close>.
\<close>

definition router_body_size :: "SCALE_FUNCTION_CALL \<Rightarrow> nat" where
  "router_body_size f = (case f of
      INIT_RES \<Rightarrow> 0
    | CREATE_RES \<Rightarrow> c_size CREATE_RES_REQ_r
    | REG_MR \<Rightarrow> c_size REG_MR_REQ_r
    | SETUP_CONN \<Rightarrow> c_size SETUP_CONN_REQ_r
    | POST_SEND \<Rightarrow> c_size POST_SEND_REQ_r
    | POST_RECV \<Rightarrow> c_size POST_RECV_REQ_r
    | POLL_CQ \<Rightarrow> c_size POLL_CQ_REQ_r
    | DEREG_MR \<Rightarrow> c_size DEREG_MR_REQ_r
    | DESTROY_RES \<Rightarrow> c_size DESTROY_RES_REQ_r
    | IBV_GET_DEVICE_LIST \<Rightarrow> 0
    | IBV_ALLOC_PD \<Rightarrow> 0
    | IBV_REG_MR \<Rightarrow> c_size IBV_REG_MR_REQ_r
    | IBV_QUERY_GID \<Rightarrow> 0
    | IBV_QUERY_PORT \<Rightarrow> 0
    | IBV_CREATE_QP \<Rightarrow> c_size IBV_CREATE_QP_REQ_r
    | IBV_MODIFY_QP \<Rightarrow> c_size IBV_MODIFY_QP_REQ_r
    | IBV_POST_SEND \<Rightarrow> c_size IBV_POST_SEND_REQ_r
    | IBV_POST_RECV \<Rightarrow> c_size IBV_POST_RECV_REQ_r
    | IBV_POLL_CQ \<Rightarrow> c_size IBV_POLL_CQ_REQ_r
    | IBV_DESTROY_CQ \<Rightarrow> c_size IBV_DESTROY_CQ_REQ_r
    | IBV_DESTROY_QP \<Rightarrow> c_size IBV_DESTROY_QP_REQ_r
    | IBV_DEREG_MR \<Rightarrow> c_size IBV_DEREG_MR_REQ_r)"

definition router_rsp_size :: "SCALE_FUNCTION_CALL \<Rightarrow> nat" where
  "router_rsp_size f = (case f of
      INIT_RES \<Rightarrow> c_size INIT_RES_RSP_r
    | CREATE_RES \<Rightarrow> c_size CREATE_RES_RSP_r
    | REG_MR \<Rightarrow> c_size REG_MR_RSP_r
    | SETUP_CONN \<Rightarrow> c_size SETUP_CONN_RSP_r
    | POST_SEND \<Rightarrow> c_size POST_SEND_RSP_r
    | POST_RECV \<Rightarrow> c_size POST_RECV_RSP_r
    | POLL_CQ \<Rightarrow> c_size POLL_CQ_RSP_r
    | DEREG_MR \<Rightarrow> c_size REG_MR_RSP_r
    | DESTROY_RES \<Rightarrow> c_size DESTROY_RES_RSP_r
    | IBV_GET_DEVICE_LIST \<Rightarrow> c_size IBV_GET_DEVICE_LIST_RSP_r
    | IBV_ALLOC_PD \<Rightarrow> c_size IBV_ALLOC_PD_RSP_r
    | IBV_REG_MR \<Rightarrow> c_size IBV_REG_MR_RSP_r
    | IBV_QUERY_GID \<Rightarrow> c_size IBV_QUERY_GID_RSP_r
    | IBV_QUERY_PORT \<Rightarrow> c_size IBV_QUERY_PORT_RSP_r
    | IBV_CREATE_QP \<Rightarrow> c_size IBV_CREATE_QP_RSP_r
    | IBV_MODIFY_QP \<Rightarrow> c_size IBV_MODIFY_QP_RSP_r
    | IBV_POST_SEND \<Rightarrow> c_size IBV_POST_SEND_RSP_r
    | IBV_POST_RECV \<Rightarrow> c_size IBV_POST_RECV_RSP_r
    | IBV_POLL_CQ \<Rightarrow> c_size IBV_POLL_CQ_RSP_r
    | IBV_DESTROY_CQ \<Rightarrow> c_size IBV_DESTROY_CQ_RSP_r
    | IBV_DESTROY_QP \<Rightarrow> c_size IBV_DESTROY_QP_RSP_r
    | IBV_DEREG_MR \<Rightarrow> c_size IBV_DEREG_MR_RSP_r)"

text \<open>
  The two buffers of \<open>handle_process\<close>, \<open>req_body\<close> and \<open>rsp\<close>: their size depends on
  \<open>config.disable_rdma\<close>, which is 1 by default.
\<close>

definition buffer_size :: "bool \<Rightarrow> nat" where
  "buffer_size disable_rdma = (if disable_rdma then 0xff else 0xfffff)"

section \<open>The two sides agree\<close>

lemmas struct_defs_c =
  ScaleReqHeader_c_def IBV_GET_DEVICE_LIST_RSP_c_def IBV_ALLOC_PD_RSP_c_def IBV_REG_MR_REQ_c_def
  IBV_REG_MR_RSP_c_def IBV_QUERY_GID_RSP_c_def IBV_QUERY_PORT_RSP_c_def IBV_CREATE_QP_REQ_c_def
  IBV_CREATE_QP_RSP_c_def IBV_MODIFY_QP_REQ_c_def IBV_MODIFY_QP_RSP_c_def IBV_POST_SEND_REQ_c_def
  IBV_POST_SEND_RSP_c_def IBV_POST_RECV_REQ_c_def IBV_POST_RECV_RSP_c_def IBV_POLL_CQ_REQ_c_def
  IBV_POLL_CQ_RSP_c_def IBV_DESTROY_CQ_REQ_c_def IBV_DESTROY_CQ_RSP_c_def IBV_DESTROY_QP_REQ_c_def
  IBV_DESTROY_QP_RSP_c_def IBV_DEREG_MR_REQ_c_def IBV_DEREG_MR_RSP_c_def

lemmas struct_defs_r =
  ScaleReqHeader_r_def IBV_GET_DEVICE_LIST_RSP_r_def IBV_ALLOC_PD_RSP_r_def IBV_REG_MR_REQ_r_def
  IBV_REG_MR_RSP_r_def IBV_QUERY_GID_RSP_r_def IBV_QUERY_PORT_RSP_r_def IBV_CREATE_QP_REQ_r_def
  IBV_CREATE_QP_RSP_r_def IBV_MODIFY_QP_REQ_r_def IBV_MODIFY_QP_RSP_r_def IBV_POST_SEND_REQ_r_def
  IBV_POST_SEND_RSP_r_def IBV_POST_RECV_REQ_r_def IBV_POST_RECV_RSP_r_def IBV_POLL_CQ_REQ_r_def
  IBV_POLL_CQ_RSP_r_def IBV_DESTROY_CQ_REQ_r_def IBV_DESTROY_CQ_RSP_r_def IBV_DESTROY_QP_REQ_r_def
  IBV_DESTROY_QP_RSP_r_def IBV_DEREG_MR_REQ_r_def IBV_DEREG_MR_RSP_r_def

text \<open>The structs of the calls libscale makes, in pairs: its copy and the router's.\<close>

definition shared_structs :: "(cty \<times> cty) list" where
  "shared_structs =
    [(ScaleReqHeader_c, ScaleReqHeader_r), (IBV_GET_DEVICE_LIST_RSP_c, IBV_GET_DEVICE_LIST_RSP_r),
     (IBV_ALLOC_PD_RSP_c, IBV_ALLOC_PD_RSP_r), (IBV_REG_MR_REQ_c, IBV_REG_MR_REQ_r),
     (IBV_REG_MR_RSP_c, IBV_REG_MR_RSP_r), (IBV_QUERY_GID_RSP_c, IBV_QUERY_GID_RSP_r),
     (IBV_QUERY_PORT_RSP_c, IBV_QUERY_PORT_RSP_r), (IBV_CREATE_QP_REQ_c, IBV_CREATE_QP_REQ_r),
     (IBV_CREATE_QP_RSP_c, IBV_CREATE_QP_RSP_r), (IBV_MODIFY_QP_REQ_c, IBV_MODIFY_QP_REQ_r),
     (IBV_MODIFY_QP_RSP_c, IBV_MODIFY_QP_RSP_r), (IBV_POST_SEND_REQ_c, IBV_POST_SEND_REQ_r),
     (IBV_POST_SEND_RSP_c, IBV_POST_SEND_RSP_r), (IBV_POST_RECV_REQ_c, IBV_POST_RECV_REQ_r),
     (IBV_POST_RECV_RSP_c, IBV_POST_RECV_RSP_r), (IBV_POLL_CQ_REQ_c, IBV_POLL_CQ_REQ_r),
     (IBV_POLL_CQ_RSP_c, IBV_POLL_CQ_RSP_r), (IBV_DESTROY_CQ_REQ_c, IBV_DESTROY_CQ_REQ_r),
     (IBV_DESTROY_CQ_RSP_c, IBV_DESTROY_CQ_RSP_r), (IBV_DESTROY_QP_REQ_c, IBV_DESTROY_QP_REQ_r),
     (IBV_DESTROY_QP_RSP_c, IBV_DESTROY_QP_RSP_r), (IBV_DEREG_MR_REQ_c, IBV_DEREG_MR_REQ_r),
     (IBV_DEREG_MR_RSP_c, IBV_DEREG_MR_RSP_r)]"

lemma shared_structs_equal: "\<forall>(c, r) \<in> set shared_structs. c = r"
  by (simp add: shared_structs_def struct_defs_c struct_defs_r)

lemma shared_structs_layout: "\<forall>(c, r) \<in> set shared_structs. layout c = layout r \<and> c_size c = c_size r"
  using shared_structs_equal by fastforce

lemma call_code_roundtrip: "\<exists>n. call_code_c f = Some n \<and> call_of_code_r n = Some f"
  by (cases f) (simp_all add: call_code_c_def call_of_code_r_def call_enum_c_def call_enum_r_def)

lemma request_sizes_agree:
  assumes "request_sizes_c f = Some (rsp, body)"
  shows "router_rsp_size f = rsp" and "router_body_size f = body"
  using assms shared_structs_equal
  by (auto simp: request_sizes_c_def router_rsp_size_def router_body_size_def shared_structs_def
      split: SCALE_FUNCTION_CALL.splits)

section \<open>The router's buffers\<close>

lemma router_bodies_fit: "\<forall>f. router_body_size f \<le> 204"
  by code_simp

lemmas router_body_fits = router_bodies_fit [rule_format]

lemma router_rsps_fit: "\<forall>f. f = IBV_GET_DEVICE_LIST \<or> router_rsp_size f \<le> 160"
  by code_simp

lemmas router_rsp_fits_cases = router_rsps_fit [THEN spec]

lemma router_rsp_fits: "f \<noteq> IBV_GET_DEVICE_LIST \<Longrightarrow> router_rsp_size f \<le> 160"
  using router_rsp_fits_cases [of f] by simp

lemma device_list_rsp_size: "router_rsp_size IBV_GET_DEVICE_LIST = 648"
  by code_simp

lemma device_list_ibdev_path_offset:
  "(''ibdev_path'', 392, 256) \<in> set (layout IBV_GET_DEVICE_LIST_RSP_r)"
  by code_simp

end
