(* ===== verification/Client_Transport.thy ===== *)
theory Client_Transport
  imports Keys Protocol "HOL-Library.Monad_Syntax"
begin

text \<open>
  The client's side of one request: \<open>get_unix_sock\<close>, \<open>connect_router\<close> and
  \<open>request_router\<close> of \<open>libscale/scale.c\<close>. The loop that reads the response has no bound in
  the code, so it is a \<open>partial_function\<close>: \<open>None\<close> means that the call does not return.
\<close>

section \<open>System calls\<close>

text \<open>
  \<open>c_write\<close> gives the result of \<open>write\<close> as the code stores it, an \<open>int\<close>; \<open>c_read\<close> the bytes
  read, where the empty list is the end of the stream and \<open>None\<close> the result -1.
\<close>

record 'w cenv =
  c_socket :: "'w \<Rightarrow> int \<times> 'w"
  c_connect :: "int \<Rightarrow> 'w \<Rightarrow> int \<times> 'w"
  c_write :: "int \<Rightarrow> u8 list \<Rightarrow> 'w \<Rightarrow> s32 \<times> 'w"
  c_read :: "int \<Rightarrow> nat \<Rightarrow> 'w \<Rightarrow> u8 list option \<times> 'w"
  c_close :: "int \<Rightarrow> 'w \<Rightarrow> int \<times> 'w"
  c_getpid :: s32

section \<open>Connecting\<close>

text \<open>\<open>None\<close>: \<open>exit(1)\<close>. A failed \<open>connect\<close> overwrites the descriptor, which stays open.\<close>

definition connect_router :: "'w cenv \<Rightarrow> 'w \<Rightarrow> int option \<times> 'w" where
  "connect_router E w =
     (let (sock, w) = c_socket E w in
      if sock < 0 then (None, w)
      else
        (let (rc, w) = c_connect E sock w in
         if rc < 0 then (Some (-1), w) else (Some sock, w)))"

definition get_unix_sock :: "'w cenv \<Rightarrow> 'w \<Rightarrow> int option \<times> 'w" where
  "get_unix_sock E w = (let sock = -1 :: int in if sock < 0 then connect_router E w else (Some sock, w))"

section \<open>Reading the response\<close>

text \<open>\<open>while (bytes < *rsp_size)\<close>: the return code, the socket afterwards and what was read.\<close>

partial_function (option) read_loop ::
  "'w cenv \<Rightarrow> int \<Rightarrow> nat \<Rightarrow> u8 list \<Rightarrow> 'w \<Rightarrow> (int \<times> int \<times> u8 list \<times> 'w) option" where
  "read_loop E sock rsp_size rsp w =
     (if length rsp < rsp_size then
        (case c_read E sock (rsp_size - length rsp) w of
           (None, w) \<Rightarrow> Some (-1, -1, rsp, w)
         | (Some bs, w) \<Rightarrow> read_loop E sock rsp_size (rsp @ bs) w)
      else Some (0, sock, rsp, w))"

section \<open>One request\<close>

definition header_bytes :: "s32 \<Rightarrow> u32 \<Rightarrow> u32 \<Rightarrow> u8 list" where
  "header_bytes pid func body_size = le_bytes32 pid @ le_bytes32 func @ le_bytes32 body_size"

datatype rr = Exited | Returned int "u8 list"

text \<open>The label \<open>end\<close>.\<close>

definition rr_end :: "'w cenv \<Rightarrow> int \<Rightarrow> int \<Rightarrow> u8 list \<Rightarrow> 'w \<Rightarrow> (rr \<times> 'w) option" where
  "rr_end E rc sock rsp w = Some (Returned rc rsp, snd (c_close E sock w))"

text \<open>From the read loop on.\<close>

definition rr_receive :: "'w cenv \<Rightarrow> int \<Rightarrow> nat \<Rightarrow> 'w \<Rightarrow> (rr \<times> 'w) option" where
  "rr_receive E sock rsp_size w =
     do {
       (rc, sock, rsp, w) \<leftarrow> read_loop E sock rsp_size [] w;
       rr_end E rc sock rsp w
     }"

text \<open>From the body on: the \<open>int\<close> result of \<open>write\<close> is compared with a \<open>uint32_t\<close>.\<close>

definition rr_body :: "'w cenv \<Rightarrow> int \<Rightarrow> nat \<Rightarrow> nat \<Rightarrow> u8 list \<Rightarrow> 'w \<Rightarrow> (rr \<times> 'w) option" where
  "rr_body E sock rsp_size body_size req_body w =
     (if body_size > 0 then
        (let (n, w) = c_write E sock (take body_size req_body) w in
         if int_lt_u32 n (of_nat body_size)
         then rr_end E (-1) (if int_neg n then -1 else sock) [] w
         else rr_receive E sock rsp_size w)
      else rr_receive E sock rsp_size w)"

definition request_router ::
  "'w cenv \<Rightarrow> SCALE_FUNCTION_CALL \<Rightarrow> u8 list \<Rightarrow> 'w \<Rightarrow> (rr \<times> 'w) option" where
  "request_router E req req_body w =
     (case get_unix_sock E w of
        (None, w) \<Rightarrow> Some (Exited, w)
      | (Some sock, w) \<Rightarrow>
          if sock < 0 then Some (Returned (-1) [], w)
          else
            (case (request_sizes_c req, call_code_c req) of
               (Some (rsp_size, body_size), Some func) \<Rightarrow>
                 (let (n, w) = c_write E sock (header_bytes (c_getpid E) func (of_nat body_size)) w in
                  if int_lt_size n (of_nat (c_size ScaleReqHeader_c))
                  then rr_end E (-1) (if int_neg n then -1 else sock) [] w
                  else rr_body E sock rsp_size body_size req_body w)
             | _ \<Rightarrow> rr_end E (-1) sock [] w))"

section \<open>The loop ends when the bytes come\<close>

text \<open>
  \<open>delivers E sock n w cs w'\<close>: asked for \<open>n\<close> bytes in all, the socket hands out the pieces
  \<open>cs\<close>, each non-empty and no longer than what is still wanted.
\<close>

inductive delivers :: "'w cenv \<Rightarrow> int \<Rightarrow> nat \<Rightarrow> 'w \<Rightarrow> u8 list list \<Rightarrow> 'w \<Rightarrow> bool" for E sock where
  all_read: "delivers E sock 0 w [] w"
| piece: "\<lbrakk>0 < n; c_read E sock n w = (Some bs, w'); bs \<noteq> []; length bs \<le> n;
    delivers E sock (n - length bs) w' cs w''\<rbrakk> \<Longrightarrow> delivers E sock n w (bs # cs) w''"

lemma delivers_length: "delivers E sock n w cs w' \<Longrightarrow> length (concat cs) = n"
  by (induction rule: delivers.induct) auto

text \<open>However the response is cut into pieces, the loop puts it together.\<close>

lemma read_loop_delivers:
  "delivers E sock n w cs w' \<Longrightarrow> rsp_size = length rsp + n \<Longrightarrow>
     read_loop E sock rsp_size rsp w = Some (0, sock, rsp @ concat cs, w')"
proof (induction arbitrary: rsp rule: delivers.induct)
  case (all_read w)
  then show ?case by (subst read_loop.simps) simp
next
  case (piece n w bs w' cs w'')
  then have "read_loop E sock rsp_size (rsp @ bs) w' = Some (0, sock, (rsp @ bs) @ concat cs, w'')"
    using piece.IH [of "rsp @ bs"] piece.hyps piece.prems by simp
  then show ?case using piece by (subst read_loop.simps) simp
qed

text \<open>
  At the end of the stream the loop goes on for ever: a \<open>read\<close> that returns 0 adds nothing to
  \<open>bytes\<close>.
\<close>

definition at_eof :: "'w cenv \<Rightarrow> int \<Rightarrow> 'w \<Rightarrow> bool" where
  "at_eof E sock w \<longleftrightarrow> (\<forall>n. c_read E sock n w = (Some [], w))"

lemma read_loop_Some:
  assumes "read_loop E sock rsp_size rsp w = Some r"
  shows "at_eof E sock w \<longrightarrow> rsp_size \<le> length rsp"
proof (rule read_loop.raw_induct [rotated, OF assms], intro impI)
  fix loop E' sock' rsp_size' rsp' w' r'
  assume ih: "\<And>E sock rsp_size rsp w r. loop E sock rsp_size rsp w = Some r \<Longrightarrow>
      at_eof E sock w \<longrightarrow> rsp_size \<le> length rsp"
    and eq: "(if length rsp' < rsp_size' then
        (case c_read E' sock' (rsp_size' - length rsp') w' of
           (None, w) \<Rightarrow> Some (-1, -1, rsp', w)
         | (Some bs, w) \<Rightarrow> loop E' sock' rsp_size' (rsp' @ bs) w)
      else Some (0, sock', rsp', w')) = Some r'"
    and eof: "at_eof E' sock' (w' :: 'a)"
  have "c_read E' sock' (rsp_size' - length rsp') w' = (Some [], w')"
    using eof by (simp add: at_eof_def)
  then show "rsp_size' \<le> length rsp'"
    using eq ih [of E' sock' rsp_size' "rsp'" w' r'] eof by (simp split: if_splits)
qed

lemma read_loop_eof:
  assumes "at_eof E sock w" and "length rsp < rsp_size"
  shows "read_loop E sock rsp_size rsp w = None"
  using read_loop_Some [of E sock rsp_size rsp w] assms
  by (cases "read_loop E sock rsp_size rsp w") auto

section \<open>One request\<close>

lemma sizes_small:
  assumes "request_sizes_c f = Some (rsp, body)"
  shows "body < 2 ^ 31"
  using router_body_fits [of f] request_sizes_agree(2) [OF assms] by simp

lemma router_rsp_pos: "0 < router_rsp_size f"
  by (induct f) code_simp+

text \<open>
  A request whose writes are complete and whose response arrives returns 0 with the response.
\<close>

lemma request_router_ok:
  assumes sock: "c_socket E w0 = (sock, w1)" "0 \<le> sock" "c_connect E sock w1 = (0, w2)"
    and sizes: "request_sizes_c f = Some (rsp_size, body_size)" "call_code_c f = Some func"
    and hd: "c_write E sock (header_bytes (c_getpid E) func (of_nat body_size)) w2 = (12, w3)"
    and body: "if body_size = 0 then w4 = w3
       else c_write E sock (take body_size req_body) w3 = (of_nat body_size, w4)"
    and rsp: "delivers E sock rsp_size w4 cs w5"
  shows "request_router E f req_body w0 = Some (Returned 0 (concat cs), snd (c_close E sock w5))"
proof -
  have loop: "read_loop E sock rsp_size [] w4 = Some (0, sock, concat cs, w5)"
    using read_loop_delivers [OF rsp, of rsp_size "[]"] by simp
  have recv: "rr_receive E sock rsp_size w4 = Some (Returned 0 (concat cs), snd (c_close E sock w5))"
    by (simp add: rr_receive_def rr_end_def loop)
  have sz: "c_size ScaleReqHeader_c = 12" by code_simp
  have lt: "\<not> int_lt_size 12 12" "\<not> int_lt_u32 (of_nat body_size) (of_nat body_size)"
    by (simp_all add: int_lt_size_def int_lt_u32_def)
  have "rr_body E sock rsp_size body_size req_body w3 = rr_receive E sock rsp_size w4"
    using body lt by (simp add: rr_body_def split: if_splits)
  then show ?thesis
    using sock sizes hd lt recv
    by (simp add: request_router_def get_unix_sock_def connect_router_def sz)
qed

text \<open>
  When the router takes \<open>kill\<close>, the client sees the end of the stream instead of a response
  and never returns.
\<close>

lemma request_router_hangs:
  assumes sock: "c_socket E w0 = (sock, w1)" "0 \<le> sock" "c_connect E sock w1 = (0, w2)"
    and sizes: "request_sizes_c f = Some (rsp_size, body_size)" "call_code_c f = Some func"
    and hd: "c_write E sock (header_bytes (c_getpid E) func (of_nat body_size)) w2 = (12, w3)"
    and body: "if body_size = 0 then w4 = w3
       else c_write E sock (take body_size req_body) w3 = (of_nat body_size, w4)"
    and eof: "at_eof E sock w4"
  shows "request_router E f req_body w0 = None"
proof -
  have "0 < rsp_size" using router_rsp_pos [of f] request_sizes_agree(1) [OF sizes(1)] by simp
  then have recv: "rr_receive E sock rsp_size w4 = None"
    using read_loop_eof [OF eof, of "[]" rsp_size] by (simp add: rr_receive_def)
  have sz: "c_size ScaleReqHeader_c = 12" by code_simp
  have lt: "\<not> int_lt_size 12 12" "\<not> int_lt_u32 (of_nat body_size) (of_nat body_size)"
    by (simp_all add: int_lt_size_def int_lt_u32_def)
  have "rr_body E sock rsp_size body_size req_body w3 = rr_receive E sock rsp_size w4"
    using body lt by (simp add: rr_body_def split: if_splits)
  then show ?thesis
    using sock sizes hd lt recv
    by (simp add: request_router_def get_unix_sock_def connect_router_def sz)
qed

text \<open>
  A header write that fails with -1 is not noticed: the request goes on with its body.
\<close>

lemma request_router_write_error:
  assumes sock: "c_socket E w0 = (sock, w1)" "0 \<le> sock" "c_connect E sock w1 = (0, w2)"
    and sizes: "request_sizes_c f = Some (rsp_size, body_size)" "call_code_c f = Some func"
    and hd: "c_write E sock (header_bytes (c_getpid E) func (of_nat body_size)) w2 = (n, w3)" "sint n < 0"
  shows "request_router E f req_body w0 = rr_body E sock rsp_size body_size req_body w3"
proof -
  have sz: "c_size ScaleReqHeader_c = 12" by code_simp
  have "\<not> int_lt_size n 12" using hd(2) by (intro int_lt_size_neg) simp_all
  then show ?thesis
    using sock sizes hd by (simp add: request_router_def get_unix_sock_def connect_router_def sz)
qed

lemma rr_body_write_error:
  assumes "request_sizes_c f = Some (rsp_size, body_size)" and "0 < body_size"
    and "c_write E sock (take body_size req_body) w = (n, w')" "sint n < 0"
  shows "rr_body E sock rsp_size body_size req_body w = rr_receive E sock rsp_size w'"
proof -
  have "body_size < 2 ^ 31" using sizes_small [OF assms(1)] .
  then have "uint (of_nat body_size :: u32) < 2 ^ 31" by (simp add: unsigned_of_nat take_bit_nat_eq_self)
  then have "\<not> int_lt_u32 n (of_nat body_size)" using assms(4) by (intro int_lt_u32_neg)
  then show ?thesis using assms(2,3) by (simp add: rr_body_def)
qed

text \<open>The descriptor of a failed \<open>connect\<close> is never closed.\<close>

lemma connect_failure_leaks:
  assumes "c_socket E w0 = (sock, w1)" "0 \<le> sock" "c_connect E sock w1 = (rc, w2)" "rc < 0"
  shows "request_router E f req_body w0 = Some (Returned (-1) [], w2)"
  using assms by (simp add: request_router_def get_unix_sock_def connect_router_def)

end
