(* ===== verification/Router_State.thy ===== *)
theory Router_State
  imports Keys
begin

text \<open>
  The state of a scalerouter process (\<open>struct ScaleRouter\<close> with its maps and mutexes, the
  connection resources and shared memory pieces on its heap), the results a request handler
  can have, and the library calls it makes, which are not part of the repository and are
  passed as a record of functions over an unspecified world \<open>'w\<close>: the RDMA verbs of
  libibverbs, POSIX shared memory and TCP sockets.
\<close>

section \<open>Objects on the heap\<close>

record conn_resources =
  cr_cq :: ptr
  cr_qp :: ptr
  cr_ev_channel :: ptr
  cr_ref_cnt :: u32
  cr_status :: u8

text \<open>\<open>calloc(1, sizeof(struct conn_resources))\<close>\<close>

definition zero_conn :: conn_resources where
  "zero_conn = \<lparr>cr_cq = 0, cr_qp = 0, cr_ev_channel = 0, cr_ref_cnt = 0, cr_status = 0\<rparr>"

text \<open>
  An \<open>ibv_qp\<close> the library handed out: the number the router reads through the pointer, and
  whether the object is still allocated.
\<close>

record qp_obj =
  qp_num :: u32
  qp_live :: bool

record ShmPiece =
  sp_name :: string
  sp_size :: s32
  sp_shm_fd :: int
  sp_ptr :: u64

text \<open>\<open>MAP_FAILED\<close> is \<open>(void *) -1\<close>.\<close>

definition MAP_FAILED :: u64 where
  "MAP_FAILED = -1"

section \<open>Arguments of the verbs calls\<close>

datatype ibv_qp_state =
    IBV_QPS_RESET | IBV_QPS_INIT | IBV_QPS_RTR | IBV_QPS_RTS
  | IBV_QPS_SQD | IBV_QPS_SQE | IBV_QPS_ERR | IBV_QPS_UNKNOWN

text \<open>The members of \<open>ibv_qp_attr\<close> (with its \<open>ah_attr\<close> and \<open>grh\<close>) that the router sets.\<close>

record ibv_qp_attr =
  qa_qp_state :: ibv_qp_state
  qa_path_mtu :: u32
  qa_rq_psn :: u32
  qa_sq_psn :: u32
  qa_dest_qp_num :: u32
  qa_qp_access_flags :: u32
  qa_pkey_index :: u16
  qa_max_rd_atomic :: u8
  qa_max_dest_rd_atomic :: u8
  qa_min_rnr_timer :: u8
  qa_port_num :: u8
  qa_timeout :: u8
  qa_retry_cnt :: u8
  qa_rnr_retry :: u8
  ah_is_global :: u8
  ah_dlid :: u16
  ah_sl :: u8
  ah_src_path_bits :: u8
  ah_port_num :: u8
  grh_dgid :: gid
  grh_flow_label :: u32
  grh_sgid_index :: u8
  grh_hop_limit :: u8
  grh_traffic_class :: u8

definition zero_qp_attr :: ibv_qp_attr where
  "zero_qp_attr = \<lparr>qa_qp_state = IBV_QPS_RESET, qa_path_mtu = 0, qa_rq_psn = 0, qa_sq_psn = 0,
     qa_dest_qp_num = 0, qa_qp_access_flags = 0, qa_pkey_index = 0, qa_max_rd_atomic = 0,
     qa_max_dest_rd_atomic = 0, qa_min_rnr_timer = 0, qa_port_num = 0, qa_timeout = 0,
     qa_retry_cnt = 0, qa_rnr_retry = 0, ah_is_global = 0, ah_dlid = 0, ah_sl = 0,
     ah_src_path_bits = 0, ah_port_num = 0, grh_dgid = replicate 16 0, grh_flow_label = 0,
     grh_sgid_index = 0, grh_hop_limit = 0, grh_traffic_class = 0\<rparr>"

record ibv_qp_init_attr =
  qi_qp_type :: u32
  qi_sq_sig_all :: u32
  qi_send_cq :: ptr
  qi_recv_cq :: ptr
  qi_max_send_wr :: u32
  qi_max_recv_wr :: u32
  qi_max_send_sge :: u32
  qi_max_recv_sge :: u32

record ibv_sge =
  sge_addr :: u64
  sge_length :: u32
  sge_lkey :: u32

text \<open>A work request with its single scatter/gather entry; \<open>next\<close> is always \<open>NULL\<close>.\<close>

record ibv_send_wr =
  sr_wr_id :: u64
  sr_sge :: ibv_sge
  sr_num_sge :: s32
  sr_opcode :: u32
  sr_send_flags :: u32
  sr_remote_addr :: u64
  sr_rkey :: u32

record ibv_recv_wr =
  rr_wr_id :: u64
  rr_sge :: ibv_sge
  rr_num_sge :: s32

record ibv_wc =
  wc_wr_id :: u64
  wc_status :: u32
  wc_opcode :: u32
  wc_vendor_err :: u32

text \<open>An \<open>ibv_mr\<close> as \<open>ibv_reg_mr\<close> returns it.\<close>

record ibv_mr =
  mr_handle :: u32
  mr_lkey :: u32
  mr_rkey :: u32

text \<open>The members of \<open>ibv_device\<close> that cross the socket; strings without their zero byte.\<close>

record ibv_device =
  dv_node_type :: u32
  dv_transport_type :: u32
  dv_name :: "u8 list"
  dv_dev_name :: "u8 list"
  dv_dev_path :: "u8 list"
  dv_ibdev_path :: "u8 list"

record ibv_port_attr =
  pa_state :: u32
  pa_max_mtu :: u32
  pa_active_mtu :: u32
  pa_gid_tbl_len :: s32
  pa_port_cap_flags :: u32
  pa_max_msg_sz :: u32
  pa_bad_pkey_cntr :: u32
  pa_qkey_viol_cntr :: u32
  pa_pkey_tbl_len :: u16
  pa_lid :: u16
  pa_sm_lid :: u16
  pa_lmc :: u8
  pa_max_vl_num :: u8
  pa_sm_sl :: u8
  pa_subnet_timeout :: u8
  pa_init_type_reply :: u8
  pa_active_width :: u8
  pa_active_speed :: u8
  pa_phys_state :: u8
  pa_link_layer :: u8

datatype OPERATION = INSERT | DELETE

text \<open>The message one router sends another (\<open>struct info\<close>).\<close>

record info =
  info_op :: OPERATION
  info_gid :: gid
  info_qp_num :: u32

section \<open>The library calls\<close>

text \<open>
  Each function takes the world and returns its C result with the world after the call. The
  address of an object the library allocates (an \<open>ibv_cq\<close>, \<open>ibv_qp\<close> or \<open>ibv_mr\<close>) is
  chosen by the model's allocator and passed as the first argument; \<open>None\<close> and \<open>False\<close>
  stand for a \<open>NULL\<close> result. \<open>e_readable\<close> says whether a C string can be read at an
  address of the router without a segmentation fault.
\<close>

record 'w env =
  e_create_cq :: "ptr \<Rightarrow> nat \<Rightarrow> 'w \<Rightarrow> bool \<times> 'w"
  e_destroy_cq :: "ptr \<Rightarrow> 'w \<Rightarrow> int \<times> 'w"
  e_create_qp :: "ptr \<Rightarrow> ibv_qp_init_attr \<Rightarrow> 'w \<Rightarrow> u32 option \<times> 'w"
  e_destroy_qp :: "ptr \<Rightarrow> 'w \<Rightarrow> int \<times> 'w"
  e_destroy_comp_channel :: "ptr \<Rightarrow> 'w \<Rightarrow> int \<times> 'w"
  e_modify_qp :: "ptr \<Rightarrow> ibv_qp_attr \<Rightarrow> u32 \<Rightarrow> 'w \<Rightarrow> int \<times> 'w"
  e_post_send :: "ptr \<Rightarrow> ibv_send_wr \<Rightarrow> 'w \<Rightarrow> int \<times> 'w"
  e_post_recv :: "ptr \<Rightarrow> ibv_recv_wr \<Rightarrow> 'w \<Rightarrow> int \<times> 'w"
  e_poll_cq :: "ptr \<Rightarrow> s32 \<Rightarrow> 'w \<Rightarrow> (int \<times> ibv_wc list) \<times> 'w"
  e_reg_mr :: "ptr \<Rightarrow> u64 \<Rightarrow> s32 \<Rightarrow> u32 \<Rightarrow> 'w \<Rightarrow> ibv_mr option \<times> 'w"
  e_dereg_mr :: "ptr \<Rightarrow> 'w \<Rightarrow> int \<times> 'w"
  e_readable :: "u64 \<Rightarrow> 'w \<Rightarrow> bool"
  e_shm_open :: "string \<Rightarrow> 'w \<Rightarrow> int \<times> 'w"
  e_ftruncate :: "int \<Rightarrow> s32 \<Rightarrow> 'w \<Rightarrow> int \<times> 'w"
  e_mmap :: "s32 \<Rightarrow> int \<Rightarrow> 'w \<Rightarrow> u64 \<times> 'w"
  e_close :: "int \<Rightarrow> 'w \<Rightarrow> int \<times> 'w"
  e_munmap :: "u64 \<Rightarrow> u64 \<Rightarrow> 'w \<Rightarrow> int \<times> 'w"
  e_shm_unlink :: "string \<Rightarrow> 'w \<Rightarrow> int \<times> 'w"
  e_getaddrinfo :: "string \<Rightarrow> string \<Rightarrow> 'w \<Rightarrow> (int \<times> nat list) \<times> 'w"
  e_socket :: "nat \<Rightarrow> 'w \<Rightarrow> int \<times> 'w"
  e_connect :: "int \<Rightarrow> nat \<Rightarrow> 'w \<Rightarrow> int \<times> 'w"
  e_send :: "int \<Rightarrow> info \<Rightarrow> 'w \<Rightarrow> int \<times> 'w"
  e_iface_addr :: "string \<Rightarrow> 'w \<Rightarrow> u32 \<times> 'w"

section \<open>The router\<close>

text \<open>The mutexes: one per map, and one inside every \<open>conn_resources\<close>.\<close>

datatype lock =
    HostmapL | ShmmapL | ConnmapL | CqQpL | SrcQpL | DstQpL | LkeyOffsetL | ConnL ptr

record config_t =
  cf_ib_port :: s32
  cf_gid_idx :: s32
  cf_disable_rdma :: s32

text \<open>
  \<open>held\<close> is the set of locked mutexes. Values of \<open>host_map\<close> and \<open>conn_map\<close> are
  \<open>void *\<close>, so they may be \<open>NULL\<close> (\<open>0\<close>). \<open>conn_heap\<close> holds the allocated
  \<open>conn_resources\<close>; \<open>next_ptr\<close> is the allocator's next address and \<open>freed_reads\<close> a
  counter of the model, explained below.
\<close>

record 'w router =
  config :: config_t
  g_ib_dev :: ibv_device
  g_port_attr :: ibv_port_attr
  g_src_gid :: gid
  g_src_lid :: u16
  g_pd_handle :: u32
  host_map :: "HostKey \<rightharpoonup> ptr"
  conn_map :: "ConnId \<rightharpoonup> ptr"
  shm_map :: "s32 \<rightharpoonup> ptr list"
  cq_qp_map :: "u32 \<rightharpoonup> u32"
  src_qp_map :: "u32 \<rightharpoonup> HostKey"
  dst_qp_map :: "gid \<rightharpoonup> u32"
  lkey_offset_map :: "u32 \<rightharpoonup> u64"
  held :: "lock set"
  conn_heap :: "ptr \<rightharpoonup> conn_resources"
  qp_heap :: "ptr \<rightharpoonup> qp_obj"
  piece_heap :: "ptr \<rightharpoonup> ShmPiece"
  next_ptr :: ptr
  freed_reads :: nat
  world :: 'w

text \<open>The header of a request (\<open>struct ScaleReqHeader\<close>).\<close>

record ScaleReqHeader =
  rh_process_id :: s32
  rh_func :: u32
  rh_body_size :: u32

section \<open>Results\<close>

text \<open>
  A handler finishes its case and has a result, or takes the label \<open>kill\<close> (the socket is
  closed, nothing is answered), or waits forever for a mutex that its own thread holds or that
  a finished thread left locked, or goes through a null or freed pointer.
\<close>

datatype 'a outcome = Done 'a | Killed | Blocked lock | Fault

fun andthen :: "'a outcome \<times> 's \<Rightarrow> ('a \<Rightarrow> 's \<Rightarrow> 'b outcome \<times> 's) \<Rightarrow> 'b outcome \<times> 's" where
  "andthen (Done a, s) k = k a s"
| "andthen (Killed, s) k = (Killed, s)"
| "andthen (Blocked l, s) k = (Blocked l, s)"
| "andthen (Fault, s) k = (Fault, s)"

text \<open>\<open>pthread_mutex_lock\<close> and \<open>pthread_mutex_unlock\<close>.\<close>

definition acquire :: "lock \<Rightarrow> 'w router \<Rightarrow> unit outcome \<times> 'w router" where
  "acquire l s = (if l \<in> held s then (Blocked l, s) else (Done (), s\<lparr>held := insert l (held s)\<rparr>))"

definition release :: "lock \<Rightarrow> 'w router \<Rightarrow> 'w router" where
  "release l s = s\<lparr>held := held s - {l}\<rparr>"

text \<open>
  \<open>conn->qp->qp_num\<close>. A freed \<open>ibv_qp\<close> gives the number it had: in the one place where the
  code can do this the block is freed a few lines above by the same thread, and the model
  follows the execution in which it has not been reused. \<open>freed_reads\<close> counts such reads.
\<close>

definition read_qp_num :: "ptr \<Rightarrow> 'w router \<Rightarrow> u32 outcome \<times> 'w router" where
  "read_qp_num qp s =
     (case qp_heap s qp of
        None \<Rightarrow> (Fault, s)
      | Some q \<Rightarrow>
          (Done (qp_num q), if qp_live q then s else s\<lparr>freed_reads := Suc (freed_reads s)\<rparr>))"

definition read_conn :: "ptr \<Rightarrow> 'w router \<Rightarrow> conn_resources outcome \<times> 'w router" where
  "read_conn p s = (case conn_heap s p of None \<Rightarrow> (Fault, s) | Some c \<Rightarrow> (Done c, s))"

definition write_conn :: "ptr \<Rightarrow> conn_resources \<Rightarrow> 'w router \<Rightarrow> 'w router" where
  "write_conn p c s = s\<lparr>conn_heap := (conn_heap s)(p \<mapsto> c)\<rparr>"

section \<open>Rules for results\<close>

text \<open>
  \<open>post Q K F r\<close>: the result \<open>r\<close> does not wait for a mutex; it satisfies \<open>Q\<close> where the
  handler finishes, \<open>K\<close> where it is killed and \<open>F\<close> where it goes through a bad pointer.
\<close>

fun post :: "('a \<Rightarrow> 's \<Rightarrow> bool) \<Rightarrow> ('s \<Rightarrow> bool) \<Rightarrow> ('s \<Rightarrow> bool) \<Rightarrow> 'a outcome \<times> 's \<Rightarrow> bool" where
  "post Q K F (Done a, s) = Q a s"
| "post Q K F (Killed, s) = K s"
| "post Q K F (Blocked l, s) = False"
| "post Q K F (Fault, s) = F s"

lemma outcome_cases:
  obtains (Done) a s where "r = (Done a, s)"
  | (Killed) s where "r = (Killed, s)"
  | (Blocked) l s where "r = (Blocked l, s)"
  | (Fault) s where "r = (Fault, s)"
  by (cases r; cases "fst r") auto

lemma post_andthen [simp]:
  "post Q K F (andthen r k) \<longleftrightarrow> post (\<lambda>a s. post Q K F (k a s)) K F r"
  by (cases r rule: outcome_cases) auto

lemma andthen_assoc: "andthen (andthen r f) g = andthen r (\<lambda>a s. andthen (f a s) g)"
  by (cases r rule: outcome_cases) auto

lemma post_acquire [simp]:
  "post Q K F (acquire l s) \<longleftrightarrow> l \<notin> held s \<and> Q () (s\<lparr>held := insert l (held s)\<rparr>)"
  by (simp add: acquire_def)

lemma post_read_conn [simp]:
  "post Q K F (read_conn p s) \<longleftrightarrow> (case conn_heap s p of None \<Rightarrow> F s | Some c \<Rightarrow> Q c s)"
  by (simp add: read_conn_def split: option.split)

lemma post_read_qp_num [simp]:
  "post Q K F (read_qp_num p s) \<longleftrightarrow> (case qp_heap s p of
      None \<Rightarrow> F s
    | Some q \<Rightarrow> Q (qp_num q) (if qp_live q then s else s\<lparr>freed_reads := Suc (freed_reads s)\<rparr>))"
  by (simp add: read_qp_num_def split: option.split)

lemma post_mono:
  assumes "post Q K F r" and "\<And>a s. Q a s \<Longrightarrow> Q' a s" and "\<And>s. K s \<Longrightarrow> K' s" and "\<And>s. F s \<Longrightarrow> F' s"
  shows "post Q' K' F' r"
  using assms by (cases r rule: outcome_cases) auto

lemma post_conj:
  assumes "post Q K F r" and "post Q' K' F' r"
  shows "post (\<lambda>a s. Q a s \<and> Q' a s) (\<lambda>s. K s \<and> K' s) (\<lambda>s. F s \<and> F' s) r"
  using assms by (cases r rule: outcome_cases) auto

lemma post_DoneD: "post Q K F r \<Longrightarrow> r = (Done a, s) \<Longrightarrow> Q a s"
  by simp

lemma andthen_Done_iff:
  "andthen r k = (Done b, s') \<longleftrightarrow> (\<exists>a s. r = (Done a, s) \<and> k a s = (Done b, s'))"
  by (cases r rule: outcome_cases) auto

lemma acquire_free [lock_simps]: "l \<notin> held s \<Longrightarrow> acquire l s = (Done (), s\<lparr>held := insert l (held s)\<rparr>)"
  by (simp add: acquire_def)

lemma acquire_held [lock_simps]: "l \<in> held s \<Longrightarrow> acquire l s = (Blocked l, s)"
  by (simp add: acquire_def)

lemma release_held [simp]: "held (release l s) = held s - {l}"
  by (simp add: release_def)

lemma release_frame [simp]:
  "config (release l s) = config s" "g_src_gid (release l s) = g_src_gid s"
  "host_map (release l s) = host_map s" "conn_map (release l s) = conn_map s"
  "shm_map (release l s) = shm_map s" "cq_qp_map (release l s) = cq_qp_map s"
  "src_qp_map (release l s) = src_qp_map s" "dst_qp_map (release l s) = dst_qp_map s"
  "lkey_offset_map (release l s) = lkey_offset_map s" "conn_heap (release l s) = conn_heap s"
  "qp_heap (release l s) = qp_heap s" "piece_heap (release l s) = piece_heap s"
  "next_ptr (release l s) = next_ptr s" "freed_reads (release l s) = freed_reads s"
  "world (release l s) = world s"
  by (simp_all add: release_def)

end
