(* ===== verification/Shm.thy ===== *)
theory Shm
  imports Router_State
begin

text \<open>
  Shared memory pieces: \<open>class ShmPiece\<close> of \<open>shared_memory.cpp\<close> and the table of pieces per
  client process (\<open>addShmPiece\<close>, \<open>freeShmPiece\<close>) of \<open>scalerouter.cpp\<close>. The lemmas are
  about the names of the segments: every piece has its own, and it fits the response.
\<close>

section \<open>ShmPiece\<close>

definition new_ShmPiece :: "string \<Rightarrow> s32 \<Rightarrow> ShmPiece" where
  "new_ShmPiece name nbytes = \<lparr>sp_name = name, sp_size = nbytes, sp_shm_fd = -1, sp_ptr = 0\<rparr>"

text \<open>The results of \<open>shm_open\<close> and \<open>ftruncate\<close> are not checked, only that of \<open>mmap\<close>.\<close>

definition ShmPiece_open :: "'w env \<Rightarrow> ShmPiece \<Rightarrow> 'w \<Rightarrow> bool \<times> ShmPiece \<times> 'w" where
  "ShmPiece_open E this w =
     (let (fd, w) = e_shm_open E (sp_name this) w;
          this = this\<lparr>sp_shm_fd := fd\<rparr>;
          (_, w) = e_ftruncate E (sp_shm_fd this) (sp_size this) w;
          (p, w) = e_mmap E (sp_size this) (sp_shm_fd this) w;
          this = this\<lparr>sp_ptr := p\<rparr>
      in if sp_ptr this = MAP_FAILED then (False, this, w) else (True, this, w))"

text \<open>\<open>remove\<close>, which is also the destructor; the results of the calls are only logged.\<close>

definition ShmPiece_remove :: "'w env \<Rightarrow> ShmPiece \<Rightarrow> 'w \<Rightarrow> 'w" where
  "ShmPiece_remove E this w =
     (if sp_ptr this \<noteq> MAP_FAILED then
        (let w = snd (e_close E (sp_shm_fd this) w);
             w = snd (e_munmap E (sp_ptr this) (scast (sp_size this)) w)
         in snd (e_shm_unlink E (sp_name this) w))
      else w)"

section \<open>The table of pieces\<close>

text \<open>\<open>"client-" << process_id << "-memsize-" << mem_size << "-index-" << count\<close>\<close>

definition piece_name :: "s32 \<Rightarrow> s32 \<Rightarrow> s32 \<Rightarrow> string" where
  "piece_name pid mem_size count =
     ''client-'' @ show_int (sint pid) @ ''-memsize-'' @ show_int (sint mem_size)
       @ ''-index-'' @ show_int (sint count)"

text \<open>
  The piece stays in the vector when it could not be mapped. The result is the pointer to the
  piece, or \<open>0\<close>.
\<close>

definition addShmPiece ::
  "'w env \<Rightarrow> s32 \<Rightarrow> s32 \<Rightarrow> 'w router \<Rightarrow> ptr outcome \<times> 'w router" where
  "addShmPiece E pid mem_size s =
     andthen (acquire ShmmapL s) (\<lambda>_ s.
       let v = (case shm_map s pid of None \<Rightarrow> [] | Some v \<Rightarrow> v);
           count = word_of_nat (length v) :: s32;
           sp = next_ptr s;
           s = s\<lparr>next_ptr := Suc sp, shm_map := (shm_map s)(pid \<mapsto> v @ [sp])\<rparr>;
           (ok, piece, w) = ShmPiece_open E
             (new_ShmPiece (piece_name pid mem_size count) mem_size) (world s);
           s = s\<lparr>piece_heap := (piece_heap s)(sp \<mapsto> piece), world := w\<rparr>
       in (Done (if ok then sp else 0), release ShmmapL s))"

text \<open>The destructor of the router: one process after the other, one piece after the other.\<close>

fun delete_pieces :: "'w env \<Rightarrow> ptr list \<Rightarrow> 'w router \<Rightarrow> unit outcome \<times> 'w router" where
  "delete_pieces E [] s = (Done (), s)"
| "delete_pieces E (sp # v) s =
     (case piece_heap s sp of
        None \<Rightarrow> (Fault, s)
      | Some piece \<Rightarrow>
          delete_pieces E v (s\<lparr>world := ShmPiece_remove E piece (world s),
            piece_heap := (piece_heap s)(sp := None)\<rparr>))"

fun free_processes :: "'w env \<Rightarrow> int list \<Rightarrow> 'w router \<Rightarrow> unit outcome \<times> 'w router" where
  "free_processes E [] s = (Done (), s)"
| "free_processes E (pid # pids) s =
     andthen (delete_pieces E (case shm_map s (word_of_int pid) of None \<Rightarrow> [] | Some v \<Rightarrow> v) s)
       (\<lambda>_ s. free_processes E pids s)"

definition freeShmPiece :: "'w env \<Rightarrow> 'w router \<Rightarrow> unit outcome \<times> 'w router" where
  "freeShmPiece E s = free_processes E (sorted_list_of_set (sint ` dom (shm_map s))) s"

section \<open>Names\<close>

text \<open>The letters \<open>m\<close> and \<open>i\<close> end the two numbers before them.\<close>

lemma letter_not_printed:
  "CHR ''m'' \<notin> set (show_int n @ ''-'')" "CHR ''i'' \<notin> set (show_int n @ ''-'')"
  using set_show_int [of n]
  by (auto simp: digit_chars_def digit_def dest!: subsetD arg_cong [where f = "of_char :: char \<Rightarrow> nat"])

text \<open>A name determines the process, the size and the index it was made from.\<close>

lemma piece_name_split:
  "piece_name p m c = ''client-'' @ (show_int (sint p) @ ''-'') @ CHR ''m'' # ''emsize-''
      @ (show_int (sint m) @ ''-'') @ CHR ''i'' # ''ndex-'' @ show_int (sint c)"
  by (simp add: piece_name_def)

lemma piece_name_inject:
  "piece_name p m c = piece_name p' m' c' \<longleftrightarrow> p = p' \<and> m = m' \<and> c = c'"
proof
  let ?n = "\<lambda>x :: s32. show_int (sint x) @ ''-''"
  let ?i = "\<lambda>m c :: s32. ?n m @ CHR ''i'' # ''ndex-'' @ show_int (sint c)"
  assume "piece_name p m c = piece_name p' m' c'"
  then have e: "?n p @ CHR ''m'' # (''emsize-'' @ ?i m c) = ?n p' @ CHR ''m'' # (''emsize-'' @ ?i m' c')"
    unfolding piece_name_split same_append_eq .
  have 1: "?n p = ?n p' \<and> ''emsize-'' @ ?i m c = ''emsize-'' @ ?i m' c'"
    by (rule iffD1 [OF sep_inject e]; rule letter_not_printed)
  have 2: "?n m = ?n m' \<and> ''ndex-'' @ show_int (sint c) = ''ndex-'' @ show_int (sint c')"
    by (rule iffD1 [OF sep_inject iffD1 [OF same_append_eq conjunct2 [OF 1]]]; rule letter_not_printed)
  show "p = p' \<and> m = m' \<and> c = c'"
    using 1 2 by (auto intro: signed_word_eqI)
qed simp

text \<open>With its terminating zero it fits \<open>char shm_name[100]\<close> of the response.\<close>

lemma length_piece_name: "length (piece_name p m c) \<le> 56"
proof -
  have "length (show_int (sint (x :: s32))) \<le> 11" for x
    using length_show_int [of "sint x" 10] sint_ge_32 [of x] sint_lt_32 [of x] by simp
  then have "length (show_int (sint p)) \<le> 11" "length (show_int (sint m)) \<le> 11" "length (show_int (sint c)) \<le> 11"
    by blast+
  then show ?thesis by (simp add: piece_name_def)
qed

section \<open>The table\<close>

text \<open>
  Slot \<open>i\<close> of process \<open>pid\<close> holds an allocated piece whose name was made from \<open>pid\<close> and
  \<open>i\<close>; no piece is in two slots.
\<close>

definition shm_slot :: "'w router \<Rightarrow> s32 \<Rightarrow> nat \<Rightarrow> ptr option" where
  "shm_slot s pid i = (case shm_map s pid of None \<Rightarrow> None | Some v \<Rightarrow> if i < length v then Some (v ! i) else None)"

definition slot_ok :: "'w router \<Rightarrow> s32 \<Rightarrow> nat \<Rightarrow> ptr \<Rightarrow> bool" where
  "slot_ok s pid i p \<longleftrightarrow> 0 < p \<and> p < next_ptr s \<and> i < 2 ^ 32
     \<and> (\<exists>pc m. piece_heap s p = Some pc \<and> sp_name pc = piece_name pid m (word_of_nat i))"

definition shm_inv :: "'w router \<Rightarrow> bool" where
  "shm_inv s \<longleftrightarrow> 0 < next_ptr s \<and> (\<forall>pid i p. shm_slot s pid i = Some p \<longrightarrow> slot_ok s pid i p)
     \<and> (\<forall>pid i pid' i' p. shm_slot s pid i = Some p \<longrightarrow> shm_slot s pid' i' = Some p \<longrightarrow> pid = pid' \<and> i = i')"

lemma shm_slot_add:
  assumes "v = (case shm_map s pid of None \<Rightarrow> [] | Some v \<Rightarrow> v)" and "shm_map s' = (shm_map s)(pid \<mapsto> v @ [sp])"
  shows "shm_slot s' pid' i = (if pid' = pid \<and> i = length v then Some sp else shm_slot s pid' i)"
  using assms by (auto simp: shm_slot_def nth_append split: option.splits)

text \<open>The name an open changes is none: it fills in the descriptor and the address.\<close>

lemma ShmPiece_open_name: "sp_name (fst (snd (ShmPiece_open E this w))) = sp_name this"
  by (simp add: ShmPiece_open_def Let_def split: prod.split)

text \<open>
  Adding a piece: it takes the next slot of its process whether it could be mapped or not; the
  pointer is returned only when it could.
\<close>

lemma addShmPiece_eq:
  assumes free: "ShmmapL \<notin> held s"
    and v: "v = (case shm_map s pid of None \<Rightarrow> [] | Some v \<Rightarrow> v)"
  obtains ok and piece :: ShmPiece and w where
    "addShmPiece E pid mem_size s =
      (Done (if ok then next_ptr s else 0),
       s\<lparr>next_ptr := Suc (next_ptr s), shm_map := (shm_map s)(pid \<mapsto> v @ [next_ptr s]),
         piece_heap := (piece_heap s)(next_ptr s \<mapsto> piece), world := w\<rparr>)"
    and "sp_name piece = piece_name pid mem_size (word_of_nat (length v))"
    and "sp_size piece = mem_size"
    and "ok \<longleftrightarrow> sp_ptr piece \<noteq> MAP_FAILED"
proof -
  let ?new = "new_ShmPiece (piece_name pid mem_size (word_of_nat (length v))) mem_size"
  obtain ok piece w where o: "ShmPiece_open E ?new (world s) = (ok, piece, w)" by (metis prod_cases3)
  have name: "sp_name piece = sp_name ?new" using ShmPiece_open_name [of E ?new "world s"] o by simp
  have rest: "sp_size piece = sp_size ?new" "ok \<longleftrightarrow> sp_ptr piece \<noteq> MAP_FAILED"
    using o by (auto simp: ShmPiece_open_def Let_def split: prod.splits if_splits)
  show ?thesis
    by (rule that [where ok = ok and piece = piece and w = w])
      (use free o name rest v in \<open>simp_all add: addShmPiece_def acquire_def release_def new_ShmPiece_def Let_def\<close>)
qed

lemma addShmPiece_inv:
  assumes inv: "shm_inv s" and free: "ShmmapL \<notin> held s"
    and room: "\<And>v. shm_map s pid = Some v \<Longrightarrow> length v < 2 ^ 32"
  shows "post (\<lambda>p s'. shm_inv s' \<and> held s' = held s \<and> (p = 0 \<or> p = next_ptr s \<and> slot_ok s' pid
       (case shm_map s pid of None \<Rightarrow> 0 | Some v \<Rightarrow> length v) p)) (\<lambda>_. False) (\<lambda>_. False)
     (addShmPiece E pid mem_size s)"
proof -
  let ?v = "case shm_map s pid of None \<Rightarrow> [] | Some v \<Rightarrow> v"
  have len: "length ?v < 2 ^ 32" using room by (simp split: option.split)
  show ?thesis
  proof (rule addShmPiece_eq [OF free refl, where E = E and pid = pid and mem_size = mem_size], goal_cases)
    case (1 ok piece w)
    let ?s = "s\<lparr>next_ptr := Suc (next_ptr s), shm_map := (shm_map s)(pid \<mapsto> ?v @ [next_ptr s]),
         piece_heap := (piece_heap s)(next_ptr s \<mapsto> piece), world := w\<rparr>"
    have slot: "shm_slot ?s pid' i = (if pid' = pid \<and> i = length ?v then Some (next_ptr s) else shm_slot s pid' i)" for pid' i
      by (rule shm_slot_add [OF refl]) simp
    have new: "slot_ok ?s pid (length ?v) (next_ptr s)"
      using inv len 1(2) by (auto simp: slot_ok_def shm_inv_def)
    have old: "slot_ok ?s pid' i p \<and> p \<noteq> next_ptr s" if "shm_slot s pid' i = Some p" for pid' i p
    proof -
      have "slot_ok s pid' i p" using inv that by (simp add: shm_inv_def)
      then show ?thesis by (auto simp: slot_ok_def)
    qed
    have "shm_inv ?s"
      unfolding shm_inv_def slot
      using new old inv by (auto simp: shm_inv_def split: if_splits)
    moreover have "(case shm_map s pid of None \<Rightarrow> 0 | Some v \<Rightarrow> length v) = length ?v" by (simp split: option.split)
    ultimately show ?case using 1(1) new by simp
  qed
qed

text \<open>So no two slots share a segment.\<close>

lemma shm_names_distinct:
  assumes inv: "shm_inv s" and slots: "shm_slot s pid i = Some p" "shm_slot s pid' i' = Some p'"
    and pcs: "piece_heap s p = Some pc" "piece_heap s p' = Some pc'" and same: "sp_name pc = sp_name pc'"
  shows "pid = pid' \<and> i = i' \<and> p = p'"
proof -
  have ok: "slot_ok s pid i p" "slot_ok s pid' i' p'" using inv slots by (auto simp: shm_inv_def)
  then obtain m m' where "sp_name pc = piece_name pid m (word_of_nat i)" "sp_name pc' = piece_name pid' m' (word_of_nat i')"
    using pcs by (auto simp: slot_ok_def)
  then have "pid = pid'" "(word_of_nat i :: s32) = word_of_nat i'" using same by (simp_all add: piece_name_inject)
  moreover have "i < 2 ^ 32" "i' < 2 ^ 32" using ok by (simp_all add: slot_ok_def)
  ultimately have "i = i'" "pid = pid'"
    by (simp_all add: word_of_nat_eq_iff take_bit_nat_eq_self)
  then show ?thesis using slots by simp
qed

section \<open>The destructor\<close>

text \<open>
  No piece is in two slots, so each is deleted once: the destructor meets no freed piece, and
  leaves none of the table.
\<close>

definition pieces_of :: "'w router \<Rightarrow> int \<Rightarrow> ptr list" where
  "pieces_of s pid = (case shm_map s (word_of_int pid) of None \<Rightarrow> [] | Some v \<Rightarrow> v)"

lemma delete_pieces_done:
  "distinct v \<Longrightarrow> set v \<subseteq> dom (piece_heap s) \<Longrightarrow>
     \<exists>w. delete_pieces E v s = (Done (), s\<lparr>world := w, piece_heap := heap_minus (piece_heap s) (set v)\<rparr>)"
proof (induction v arbitrary: s)
  case Nil
  then show ?case by (intro exI [of _ "world s"]) simp
next
  case (Cons sp v)
  obtain piece where p: "piece_heap s sp = Some piece" using Cons.prems by auto
  let ?s = "s\<lparr>world := ShmPiece_remove E piece (world s), piece_heap := (piece_heap s)(sp := None)\<rparr>"
  have "set v \<subseteq> dom (piece_heap ?s)" using Cons.prems by auto
  then obtain w where "delete_pieces E v ?s =
      (Done (), ?s\<lparr>world := w, piece_heap := heap_minus (piece_heap ?s) (set v)\<rparr>)"
    using Cons.IH [OF _ \<open>set v \<subseteq> dom (piece_heap ?s)\<close>] Cons.prems(1) by (auto simp del: fun_upd_apply)
  moreover have "heap_minus (piece_heap ?s) (set v) = heap_minus (piece_heap s) (set (sp # v))"
    by (simp add: heap_minus_def fun_eq_iff)
  ultimately have "delete_pieces E (sp # v) s =
      (Done (), s\<lparr>world := w, piece_heap := heap_minus (piece_heap s) (set (sp # v))\<rparr>)"
    using p by simp
  then show ?case by blast
qed

lemma free_processes_done:
  "distinct (concat (map (pieces_of s) pids)) \<Longrightarrow> set (concat (map (pieces_of s) pids)) \<subseteq> dom (piece_heap s) \<Longrightarrow>
     \<exists>w. free_processes E pids s =
       (Done (), s\<lparr>world := w, piece_heap := heap_minus (piece_heap s) (set (concat (map (pieces_of s) pids)))\<rparr>)"
proof (induction pids arbitrary: s)
  case Nil
  then show ?case by (intro exI [of _ "world s"]) simp
next
  case (Cons pid pids)
  obtain w where w: "delete_pieces E (pieces_of s pid) s =
      (Done (), s\<lparr>world := w, piece_heap := heap_minus (piece_heap s) (set (pieces_of s pid))\<rparr>)"
    using delete_pieces_done [of "pieces_of s pid" s E] Cons.prems by auto
  let ?s = "s\<lparr>world := w, piece_heap := heap_minus (piece_heap s) (set (pieces_of s pid))\<rparr>"
  have same: "pieces_of ?s = pieces_of s" by (simp add: fun_eq_iff pieces_of_def)
  have "distinct (concat (map (pieces_of ?s) pids))" "set (concat (map (pieces_of ?s) pids)) \<subseteq> dom (piece_heap ?s)"
    using Cons.prems unfolding same by auto
  from Cons.IH [OF this] show ?case
    using w unfolding same by (simp add: pieces_of_def)
qed

lemma freeShmPiece_done:
  assumes inv: "shm_inv s"
  shows "\<exists>w. freeShmPiece E s =
    (Done (), s\<lparr>world := w, piece_heap := heap_minus (piece_heap s) {p. \<exists>pid i. shm_slot s pid i = Some p}\<rparr>)"
proof -
  let ?pids = "sorted_list_of_set (sint ` dom (shm_map s))"
  have fin: "finite (sint ` dom (shm_map s))" by (rule finite_imageI) (rule finite)
  have slot: "p \<in> set (pieces_of s (sint pid)) \<longleftrightarrow> (\<exists>i. shm_slot s pid i = Some p)" for pid :: s32 and p
    by (cases "shm_map s pid") (auto simp: pieces_of_def shm_slot_def in_set_conv_nth)
  have pids: "pid \<in> set ?pids \<Longrightarrow> \<exists>w :: s32. pid = sint w" for pid using fin by auto
  have d: "distinct (pieces_of s (sint pid))" for pid :: s32
  proof (cases "shm_map s pid")
    case (Some v)
    have "i = j" if "i < length v" "j < length v" "v ! i = v ! j" for i j
    proof -
      have "shm_slot s pid i = Some (v ! i)" "shm_slot s pid j = Some (v ! i)"
        using Some that by (simp_all add: shm_slot_def)
      then show ?thesis using inv unfolding shm_inv_def by blast
    qed
    then show ?thesis using Some by (auto simp: pieces_of_def distinct_conv_nth)
  qed (simp add: pieces_of_def)
  have disj: "pid = pid'" if "p \<in> set (pieces_of s (sint pid))" "p \<in> set (pieces_of s (sint pid'))"
    for pid pid' :: s32 and p
    using that inv unfolding slot by (auto simp: shm_inv_def)
  have "set (concat (map (pieces_of s) ?pids)) = (\<Union>pid \<in> dom (shm_map s). set (pieces_of s (sint pid)))"
    using fin by auto
  also have "\<dots> = {p. \<exists>pid i. shm_slot s pid i = Some p}"
    unfolding set_eq_iff UN_iff slot by (auto simp: shm_slot_def split: option.splits)
  finally have slots: "set (concat (map (pieces_of s) ?pids)) = {p. \<exists>pid i. shm_slot s pid i = Some p}" .
  have "distinct (concat (map (pieces_of s) ?pids))"
    by (rule distinct_concat_map) (use d disj pids in fastforce)+
  moreover have "set (concat (map (pieces_of s) ?pids)) \<subseteq> dom (piece_heap s)"
    unfolding slots using inv unfolding shm_inv_def slot_ok_def by blast
  ultimately show ?thesis
    using free_processes_done [of s ?pids E] unfolding slots freeShmPiece_def by blast
qed

end
