(* ===== verification/Mr_Handlers.thy ===== *)
theory Mr_Handlers
  imports Shm
begin

text \<open>
  Memory regions: the cases \<open>IBV_REG_MR\<close> and \<open>IBV_DEREG_MR\<close> of \<open>handle_process\<close> and the
  table \<open>lkey_offset_map\<close>, by which the data path turns an address of the client into an
  address of the router. The table's contract is the locale \<open>offset_table\<close>; it is
  interpreted on the router's map.
\<close>

section \<open>The table of offsets\<close>

text \<open>The three uses of \<open>lkey_offset_map\<close>, with its mutex held. A key that is there is not replaced.\<close>

definition lkey_find :: "'w router \<Rightarrow> u32 \<Rightarrow> u64 option" where
  "lkey_find s lkey = lkey_offset_map s lkey"

definition lkey_insert :: "u32 \<Rightarrow> u64 \<Rightarrow> 'w router \<Rightarrow> 'w router" where
  "lkey_insert lkey offset s =
     (case lkey_find s lkey of
        None \<Rightarrow> s\<lparr>lkey_offset_map := (lkey_offset_map s)(lkey \<mapsto> offset)\<rparr>
      | Some _ \<Rightarrow> s)"

definition lkey_erase :: "u32 \<Rightarrow> 'w router \<Rightarrow> 'w router" where
  "lkey_erase lkey s = s\<lparr>lkey_offset_map := (lkey_offset_map s)(lkey := None)\<rparr>"

text \<open>\<open>sge.addr = (uintptr_t)req->client_addr + lkey_iter->second\<close>\<close>

definition translated :: "u64 option \<Rightarrow> u64 \<Rightarrow> u64 option" where
  "translated offset client_addr = map_option (\<lambda>d. client_addr + d) offset"

datatype table_op = Insert u32 u64 | Erase u32

primrec apply_op :: "(u32 \<Rightarrow> u64 \<Rightarrow> 's \<Rightarrow> 's) \<Rightarrow> (u32 \<Rightarrow> 's \<Rightarrow> 's) \<Rightarrow> table_op \<Rightarrow> 's \<Rightarrow> 's" where
  "apply_op ins era (Insert k v) s = ins k v s"
| "apply_op ins era (Erase k) s = era k s"

locale offset_table =
  fixes find :: "'s \<Rightarrow> u32 \<Rightarrow> u64 option"
    and ins :: "u32 \<Rightarrow> u64 \<Rightarrow> 's \<Rightarrow> 's"
    and era :: "u32 \<Rightarrow> 's \<Rightarrow> 's"
  assumes find_ins: "find (ins k v s) k' = (if k' = k \<and> find s k = None then Some v else find s k')"
    and find_era: "find (era k s) k' = (if k' = k then None else find s k')"
begin

text \<open>A fresh key translates every address of its region, wrap-around included.\<close>

lemma translate_registered:
  assumes "find s k = None"
  shows "translated (find (ins k (router - client) s) k) (client + d) = Some (router + d)"
  using assms by (simp add: translated_def find_ins)

text \<open>The first registration of a key wins; its translation lasts until the key is erased.\<close>

lemma find_stable:
  assumes "find s k = Some v" and "Erase k \<notin> set ops"
  shows "find (fold (apply_op ins era) ops s) k = Some v"
  using assms
proof (induction ops arbitrary: s)
  case (Cons a ops)
  have "find (apply_op ins era a s) k = Some v"
    using Cons.prems by (cases a) (auto simp: find_ins find_era)
  then show ?case using Cons by simp
qed simp

text \<open>After an erase the key is unknown until it is registered again.\<close>

lemma find_gone:
  assumes "\<And>v. Insert k v \<notin> set ops"
  shows "find (fold (apply_op ins era) ops (era k s)) k = None"
proof -
  have "find (fold (apply_op ins era) ops t) k = None" if "find t k = None" for t
    using assms that
  proof (induction ops arbitrary: t)
    case (Cons a ops)
    have "find (apply_op ins era a t) k = None"
      using Cons.prems by (cases a) (auto simp: find_ins find_era)
    then show ?case using Cons by simp
  qed simp
  then show ?thesis by (simp add: find_era)
qed

end

interpretation lkeys: offset_table lkey_find lkey_insert lkey_erase
  by unfold_locales (auto simp: lkey_find_def lkey_insert_def lkey_erase_def split: option.splits)

lemma lkey_ops_frame [simp]:
  "lkey_find (s\<lparr>held := h\<rparr>) k = lkey_find s k" "lkey_find (s\<lparr>world := w\<rparr>) k = lkey_find s k"
  "held (lkey_insert k v s) = held s" "held (lkey_erase k s) = held s"
  "world (lkey_insert k v s) = world s" "world (lkey_erase k s) = world s"
  by (auto simp: lkey_insert_def lkey_erase_def lkey_find_def split: option.split)

section \<open>IBV_REG_MR\<close>

record reg_mr_req =
  rm_access_flag :: u32
  rm_length :: u64
  rm_client_addr :: u64

record reg_mr_rsp =
  rs_handle :: u32
  rs_lkey :: u32
  rs_rkey :: u32
  rs_shm_name :: string
  rs_router_mr :: ptr
  rs_router_addr :: u64
  rs_router_shm_fd :: int

text \<open>
  The length, a \<open>size_t\<close>, is passed to \<open>addShmPiece\<close> as an \<open>int\<close>. A failure after the piece
  was added leaves it in the table.
\<close>

definition ibv_reg_mr_h ::
  "'w env \<Rightarrow> ScaleReqHeader \<Rightarrow> reg_mr_req \<Rightarrow> 'w router \<Rightarrow> reg_mr_rsp outcome \<times> 'w router" where
  "ibv_reg_mr_h E header req s =
     andthen (addShmPiece E (rh_process_id header) (ucast (rm_length req)) s) (\<lambda>sp s.
       if sp = 0 then (Killed, s)
       else (case piece_heap s sp of
         None \<Rightarrow> (Fault, s)
       | Some piece \<Rightarrow>
           (let mr = next_ptr s;
                (m, w) = e_reg_mr E mr (sp_ptr piece) (sp_size piece) (rm_access_flag req) (world s);
                s = s\<lparr>world := w\<rparr> in
            case m of
              None \<Rightarrow> (Killed, s)
            | Some m \<Rightarrow>
                (let s = s\<lparr>next_ptr := Suc mr\<rparr>;
                     rsp = \<lparr>rs_handle = mr_handle m, rs_lkey = mr_lkey m, rs_rkey = mr_rkey m,
                       rs_shm_name = sp_name piece, rs_router_mr = mr,
                       rs_router_addr = sp_ptr piece, rs_router_shm_fd = sp_shm_fd piece\<rparr> in
                 andthen (acquire LkeyOffsetL s) (\<lambda>_ s.
                   (Done rsp, release LkeyOffsetL
                     (lkey_insert (mr_lkey m) (sp_ptr piece - rm_client_addr req) s)))))))"

section \<open>IBV_DEREG_MR\<close>

record dereg_mr_req =
  dm_shm_name :: string
  dm_lkey :: u32
  dm_router_shm_fd :: int
  dm_length :: u64
  dm_router_mr :: ptr
  dm_router_addr :: u64

text \<open>Pointer, descriptor, address and name come from the request, not from the router's tables.\<close>

definition ibv_dereg_mr_h :: "'w env \<Rightarrow> dereg_mr_req \<Rightarrow> 'w router \<Rightarrow> u8 outcome \<times> 'w router" where
  "ibv_dereg_mr_h E req s =
     andthen (acquire LkeyOffsetL s) (\<lambda>_ s.
       let (flags, s) =
             (case lkey_find s (dm_lkey req) of
                Some _ \<Rightarrow> (1, lkey_erase (dm_lkey req) s)
              | None \<Rightarrow> (0, s));
           s = release LkeyOffsetL s in
       if flags \<noteq> 0 then
         (let (rc, w) = e_dereg_mr E (dm_router_mr req) (world s) in
          if rc \<noteq> 0 then (Killed, s\<lparr>world := w\<rparr>)
          else
            (let (rc, w) = e_close E (dm_router_shm_fd req) w;
                 flags = (if rc \<noteq> 0 then 0 else flags);
                 (rc, w) = e_munmap E (dm_router_addr req) (dm_length req) w;
                 flags = (if rc \<noteq> 0 then 0 else flags);
                 (rc, w) = e_shm_unlink E (dm_shm_name req) w;
                 flags = (if rc = -1 then 0 else flags)
             in (Done flags, s\<lparr>world := w\<rparr>)))
       else (Done flags, s))"

section \<open>What they do\<close>

text \<open>\<open>IBV_REG_MR\<close>, given what \<open>addShmPiece\<close> and \<open>ibv_reg_mr\<close> return.\<close>

lemma ibv_reg_mr_eq:
  assumes add: "addShmPiece E (rh_process_id header) (ucast (rm_length req)) s = (Done sp, s1)"
    and piece: "piece_heap s1 sp = Some piece"
    and reg: "e_reg_mr E (next_ptr s1) (sp_ptr piece) (sp_size piece) (rm_access_flag req) (world s1) = (m, w)"
    and free: "LkeyOffsetL \<notin> held s1"
  shows "ibv_reg_mr_h E header req s =
    (if sp = 0 then (Killed, s1)
     else case m of
       None \<Rightarrow> (Killed, s1\<lparr>world := w\<rparr>)
     | Some m \<Rightarrow>
         (Done \<lparr>rs_handle = mr_handle m, rs_lkey = mr_lkey m, rs_rkey = mr_rkey m,
            rs_shm_name = sp_name piece, rs_router_mr = next_ptr s1,
            rs_router_addr = sp_ptr piece, rs_router_shm_fd = sp_shm_fd piece\<rparr>,
          s1\<lparr>world := w, next_ptr := Suc (next_ptr s1),
            lkey_offset_map := lkey_offset_map (lkey_insert (mr_lkey m) (sp_ptr piece - rm_client_addr req) s1)\<rparr>))"
  using assms
  by (simp add: ibv_reg_mr_h_def acquire_def release_def Let_def lkey_insert_def lkey_find_def split: option.split)

lemma shm_inv_frame:
  assumes "shm_inv s" and "shm_map s' = shm_map s" "piece_heap s' = piece_heap s" "next_ptr s \<le> next_ptr s'"
  shows "shm_inv s'"
proof -
  have slot: "shm_slot s' = shm_slot s" using assms(2) by (simp add: shm_slot_def fun_eq_iff)
  have "slot_ok s' pid i p" if "slot_ok s pid i p" for pid i p
    using that assms(3,4) by (auto simp: slot_ok_def)
  then show ?thesis using assms(1,4) by (simp add: shm_inv_def slot)
qed

text \<open>
  A registration answers with its own segment and enters its translation when the key is
  fresh: an address of the client's region becomes the address at the same offset of the
  router's mapping. No mutex stays locked, also on failure.
\<close>

lemma ibv_reg_mr_registers:
  assumes inv: "shm_inv s" and free: "held s = {}"
    and room: "\<And>v. shm_map s (rh_process_id header) = Some v \<Longrightarrow> length v < 2 ^ 32"
  shows "post
    (\<lambda>rsp s'. shm_inv s' \<and> held s' = {} \<and> length (rs_shm_name rsp) < 100
       \<and> (lkey_find s (rs_lkey rsp) = None \<longrightarrow>
            (\<forall>d. translated (lkey_find s' (rs_lkey rsp)) (rm_client_addr req + d) = Some (rs_router_addr rsp + d)))
       \<and> (\<forall>k. k \<noteq> rs_lkey rsp \<or> lkey_find s k \<noteq> None \<longrightarrow> lkey_find s' k = lkey_find s k))
    (\<lambda>s'. shm_inv s' \<and> held s' = {} \<and> lkey_offset_map s' = lkey_offset_map s)
    (\<lambda>_. False)
    (ibv_reg_mr_h E header req s)"
proof -
  let ?v = "case shm_map s (rh_process_id header) of None \<Rightarrow> [] | Some v \<Rightarrow> v"
  have L: "ShmmapL \<notin> held s" using free by simp
  note add = addShmPiece_inv [OF inv L room, where E = E and pid = "rh_process_id header" and mem_size = "ucast (rm_length req)"]
  obtain ok piece w where eq: "addShmPiece E (rh_process_id header) (ucast (rm_length req)) s =
      (Done (if ok then next_ptr s else 0),
       s\<lparr>next_ptr := Suc (next_ptr s), shm_map := (shm_map s)(rh_process_id header \<mapsto> ?v @ [next_ptr s]),
         piece_heap := (piece_heap s)(next_ptr s \<mapsto> piece), world := w\<rparr>)"
    and name: "sp_name piece = piece_name (rh_process_id header) (ucast (rm_length req)) (word_of_nat (length ?v))"
    by (rule addShmPiece_eq [OF L refl, where E = E and pid = "rh_process_id header"
        and mem_size = "ucast (rm_length req)"])
  let ?s1 = "s\<lparr>next_ptr := Suc (next_ptr s), shm_map := (shm_map s)(rh_process_id header \<mapsto> ?v @ [next_ptr s]),
         piece_heap := (piece_heap s)(next_ptr s \<mapsto> piece), world := w\<rparr>"
  have i1: "shm_inv ?s1" using add eq by simp
  have p0: "0 < next_ptr s" using inv by (simp add: shm_inv_def)
  have len: "length (sp_name piece) < 100"
    unfolding name by (rule le_less_trans [OF length_piece_name]) simp
  show ?thesis
  proof (cases ok)
    case False
    then show ?thesis using eq i1 free by (simp add: ibv_reg_mr_h_def)
  next
    case True
    obtain m w' where reg: "e_reg_mr E (next_ptr ?s1) (sp_ptr piece) (sp_size piece) (rm_access_flag req) (world ?s1) = (m, w')"
      by fastforce
    have e: "addShmPiece E (rh_process_id header) (ucast (rm_length req)) s = (Done (next_ptr s), ?s1)"
      "piece_heap ?s1 (next_ptr s) = Some piece" "LkeyOffsetL \<notin> held ?s1"
      using eq True free by simp_all
    note r = ibv_reg_mr_eq [OF e(1,2) reg e(3)]
    have i2: "shm_inv (?s1\<lparr>world := w', next_ptr := n, lkey_offset_map := lo\<rparr>)" if "Suc (next_ptr s) \<le> n" for n lo
      by (rule shm_inv_frame [OF i1]) (use that in simp_all)
    have i3: "shm_inv (?s1\<lparr>world := w'\<rparr>)"
      by (rule shm_inv_frame [OF i1]) simp_all
    show ?thesis
    proof (cases m)
      case None
      then show ?thesis using r p0 i3 free by simp
    next
      case (Some x)
      then show ?thesis using r p0 i2 free len
        by (simp add: lkey_find_def lkey_insert_def translated_def split: option.split)
    qed
  qed
qed

text \<open>A key that is not in the table: the answer is 0 and no library call is made.\<close>

lemma ibv_dereg_mr_unknown:
  assumes "LkeyOffsetL \<notin> held s" and "lkey_find s (dm_lkey req) = None"
  shows "ibv_dereg_mr_h E req s = (Done 0, s)"
  using assms by (simp add: ibv_dereg_mr_h_def acquire_def release_def)

text \<open>A known key is forgotten, whatever the calls return; the other keys stay.\<close>

lemma ibv_dereg_mr_eq:
  assumes free: "LkeyOffsetL \<notin> held s" and k: "lkey_find s (dm_lkey req) = Some v"
    and calls: "e_dereg_mr E (dm_router_mr req) (world s) = (rc, w1)"
      "e_close E (dm_router_shm_fd req) w1 = (c, w2)"
      "e_munmap E (dm_router_addr req) (dm_length req) w2 = (m, w3)"
      "e_shm_unlink E (dm_shm_name req) w3 = (u, w4)"
  shows "ibv_dereg_mr_h E req s =
    (if rc \<noteq> 0 then (Killed, (lkey_erase (dm_lkey req) s)\<lparr>world := w1\<rparr>)
     else (Done (if c = 0 \<and> m = 0 \<and> u \<noteq> -1 then 1 else 0), (lkey_erase (dm_lkey req) s)\<lparr>world := w4\<rparr>))"
  using free k calls
  by (simp add: ibv_dereg_mr_h_def acquire_def release_def Let_def lkey_erase_def)

end
