(* ===== verification/Conn_Res.thy ===== *)
theory Conn_Res
  imports Router_State
begin

text \<open>
  Physical connections: \<open>resources_create\<close>, \<open>resources_destroy\<close> and the three steps that
  take a queue pair from RESET to RTS (\<open>modify_qp_to_init\<close>, \<open>modify_qp_to_rtr\<close>,
  \<open>modify_qp_to_rts\<close>, \<open>modify_qp_to_ready\<close>) of \<open>scalerouter.cpp\<close>.
  A \<open>conn_resources\<close> is passed and returned by value; the handlers store it.
\<close>

unbundle bit_operations_syntax

section \<open>Constants of \<open>types.h\<close> and of the verbs interface\<close>

definition MAX_CQ_SIZE :: nat where "MAX_CQ_SIZE = 1024"
definition MAX_SEND_WR :: u32 where "MAX_SEND_WR = 1024"
definition MAX_RECV_WR :: u32 where "MAX_RECV_WR = 1024"
definition MAX_SEND_SGE :: u32 where "MAX_SEND_SGE = 5"
definition MAX_RECV_SGE :: u32 where "MAX_RECV_SGE = 5"

definition IBV_QPT_RC :: u32 where "IBV_QPT_RC = 2"
definition IBV_MTU_256 :: u32 where "IBV_MTU_256 = 1"

definition IBV_ACCESS_LOCAL_WRITE :: u32 where "IBV_ACCESS_LOCAL_WRITE = 1"
definition IBV_ACCESS_REMOTE_WRITE :: u32 where "IBV_ACCESS_REMOTE_WRITE = 2"
definition IBV_ACCESS_REMOTE_READ :: u32 where "IBV_ACCESS_REMOTE_READ = 4"

text \<open>\<open>enum ibv_qp_attr_mask\<close>\<close>

definition IBV_QP_STATE :: u32 where "IBV_QP_STATE = push_bit 0 1"
definition IBV_QP_ACCESS_FLAGS :: u32 where "IBV_QP_ACCESS_FLAGS = push_bit 3 1"
definition IBV_QP_PKEY_INDEX :: u32 where "IBV_QP_PKEY_INDEX = push_bit 4 1"
definition IBV_QP_PORT :: u32 where "IBV_QP_PORT = push_bit 5 1"
definition IBV_QP_AV :: u32 where "IBV_QP_AV = push_bit 7 1"
definition IBV_QP_PATH_MTU :: u32 where "IBV_QP_PATH_MTU = push_bit 8 1"
definition IBV_QP_TIMEOUT :: u32 where "IBV_QP_TIMEOUT = push_bit 9 1"
definition IBV_QP_RETRY_CNT :: u32 where "IBV_QP_RETRY_CNT = push_bit 10 1"
definition IBV_QP_RNR_RETRY :: u32 where "IBV_QP_RNR_RETRY = push_bit 11 1"
definition IBV_QP_RQ_PSN :: u32 where "IBV_QP_RQ_PSN = push_bit 12 1"
definition IBV_QP_MAX_QP_RD_ATOMIC :: u32 where "IBV_QP_MAX_QP_RD_ATOMIC = push_bit 13 1"
definition IBV_QP_MIN_RNR_TIMER :: u32 where "IBV_QP_MIN_RNR_TIMER = push_bit 15 1"
definition IBV_QP_SQ_PSN :: u32 where "IBV_QP_SQ_PSN = push_bit 16 1"
definition IBV_QP_MAX_DEST_RD_ATOMIC :: u32 where "IBV_QP_MAX_DEST_RD_ATOMIC = push_bit 17 1"
definition IBV_QP_DEST_QPN :: u32 where "IBV_QP_DEST_QPN = push_bit 20 1"

section \<open>Creating and destroying the completion queue and the queue pair\<close>

text \<open>The QP object is freed when \<open>ibv_destroy_qp\<close> succeeds.\<close>

definition destroy_qp_step ::
  "'w env \<Rightarrow> conn_resources \<Rightarrow> 'w router \<Rightarrow> int \<times> 'w router" where
  "destroy_qp_step E res s =
     (if cr_qp res \<noteq> 0 then
        (let (r, w) = e_destroy_qp E (cr_qp res) (world s); s = s\<lparr>world := w\<rparr> in
         if r \<noteq> 0 then (1, s)
         else (0, s\<lparr>qp_heap := (qp_heap s)(cr_qp res := map_option (qp_live_update (\<lambda>_. False)) (qp_heap s (cr_qp res)))\<rparr>))
      else (0, s))"

definition resources_destroy ::
  "'w env \<Rightarrow> conn_resources \<Rightarrow> 'w router \<Rightarrow> int \<times> conn_resources \<times> 'w router" where
  "resources_destroy E res s =
     (let (rc, s) = destroy_qp_step E res s;
          (rc, s) =
            (if cr_cq res \<noteq> 0 then
               (let (r, w) = e_destroy_cq E (cr_cq res) (world s) in
                (if r \<noteq> 0 then 1 else rc, s\<lparr>world := w\<rparr>))
             else (rc, s));
          (res, s) =
            (if cr_ev_channel res \<noteq> 0 then
               (let (r, w) = e_destroy_comp_channel E (cr_ev_channel res) (world s) in
                (if r \<noteq> 0 then res else res\<lparr>cr_ev_channel := 0\<rparr>, s\<lparr>world := w\<rparr>))
             else (res, s))
      in (rc, res, s))"

definition qp_init_attr_of :: "ptr \<Rightarrow> ibv_qp_init_attr" where
  "qp_init_attr_of cq = \<lparr>qi_qp_type = IBV_QPT_RC, qi_sq_sig_all = 1, qi_send_cq = cq,
     qi_recv_cq = cq, qi_max_send_wr = MAX_SEND_WR, qi_max_recv_wr = MAX_RECV_WR,
     qi_max_send_sge = MAX_SEND_SGE, qi_max_recv_sge = MAX_RECV_SGE\<rparr>"

definition resources_create ::
  "'w env \<Rightarrow> conn_resources \<Rightarrow> 'w router \<Rightarrow> int \<times> conn_resources \<times> 'w router" where
  "resources_create E res s =
     (let cq = next_ptr s;
          (cq_ok, w) = e_create_cq E cq MAX_CQ_SIZE (world s);
          s = s\<lparr>world := w\<rparr> in
      if \<not> cq_ok then
        (let (_, res, s) = resources_destroy E (res\<lparr>cr_cq := 0\<rparr>) s in (1, res, s))
      else
        (let res = res\<lparr>cr_cq := cq\<rparr>;
             s = s\<lparr>next_ptr := Suc cq\<rparr>;
             qp = next_ptr s;
             (qpn, w) = e_create_qp E qp (qp_init_attr_of (cr_cq res)) (world s);
             s = s\<lparr>world := w\<rparr> in
         case qpn of
           None \<Rightarrow>
             (let (_, res, s) = resources_destroy E (res\<lparr>cr_qp := 0\<rparr>) s in (1, res, s))
         | Some n \<Rightarrow>
             (0, res\<lparr>cr_qp := qp\<rparr>,
              s\<lparr>next_ptr := Suc qp, qp_heap := (qp_heap s)(qp \<mapsto> \<lparr>qp_num = n, qp_live = True\<rparr>)\<rparr>)))"

section \<open>From RESET to RTS\<close>

definition modify_qp_to_init :: "'w env \<Rightarrow> config_t \<Rightarrow> ptr \<Rightarrow> 'w \<Rightarrow> int \<times> 'w" where
  "modify_qp_to_init E cf qp w =
     (let attr = zero_qp_attr\<lparr>
            qa_qp_state := IBV_QPS_INIT,
            qa_port_num := ucast (cf_ib_port cf),
            qa_pkey_index := 0,
            qa_qp_access_flags := IBV_ACCESS_LOCAL_WRITE OR IBV_ACCESS_REMOTE_READ OR IBV_ACCESS_REMOTE_WRITE\<rparr>;
          flags = IBV_QP_STATE OR IBV_QP_PKEY_INDEX OR IBV_QP_PORT OR IBV_QP_ACCESS_FLAGS
      in e_modify_qp E qp attr flags w)"

definition rtr_attr :: "config_t \<Rightarrow> u32 \<Rightarrow> u16 \<Rightarrow> gid \<Rightarrow> ibv_qp_attr" where
  "rtr_attr cf remote_qpn dlid dgid =
     (let attr = zero_qp_attr\<lparr>
            qa_qp_state := IBV_QPS_RTR,
            qa_path_mtu := IBV_MTU_256,
            qa_dest_qp_num := remote_qpn,
            qa_rq_psn := 0,
            qa_max_dest_rd_atomic := 16,
            qa_min_rnr_timer := 0x12,
            ah_is_global := 0,
            ah_dlid := dlid,
            ah_sl := 0,
            ah_src_path_bits := 0,
            ah_port_num := ucast (cf_ib_port cf)\<rparr>
      in if 0 \<le> sint (cf_gid_idx cf) then
           attr\<lparr>ah_is_global := 1, ah_port_num := 1, grh_dgid := take 16 dgid,
             grh_flow_label := 0, grh_hop_limit := 0xff,
             grh_sgid_index := ucast (cf_gid_idx cf), grh_traffic_class := 0\<rparr>
         else attr)"

definition modify_qp_to_rtr ::
  "'w env \<Rightarrow> config_t \<Rightarrow> ptr \<Rightarrow> u32 \<Rightarrow> u16 \<Rightarrow> gid \<Rightarrow> 'w \<Rightarrow> int \<times> 'w" where
  "modify_qp_to_rtr E cf qp remote_qpn dlid dgid w =
     (let flags = IBV_QP_STATE OR IBV_QP_AV OR IBV_QP_PATH_MTU OR IBV_QP_DEST_QPN OR
            IBV_QP_RQ_PSN OR IBV_QP_MAX_DEST_RD_ATOMIC OR IBV_QP_MIN_RNR_TIMER
      in e_modify_qp E qp (rtr_attr cf remote_qpn dlid dgid) flags w)"

definition modify_qp_to_rts :: "'w env \<Rightarrow> ptr \<Rightarrow> 'w \<Rightarrow> int \<times> 'w" where
  "modify_qp_to_rts E qp w =
     (let attr = zero_qp_attr\<lparr>
            qa_qp_state := IBV_QPS_RTS,
            qa_timeout := 0x12,
            qa_retry_cnt := 6,
            qa_rnr_retry := 0,
            qa_sq_psn := 0,
            qa_max_rd_atomic := 16\<rparr>;
          flags = IBV_QP_STATE OR IBV_QP_TIMEOUT OR IBV_QP_RETRY_CNT OR
            IBV_QP_RNR_RETRY OR IBV_QP_SQ_PSN OR IBV_QP_MAX_QP_RD_ATOMIC
      in e_modify_qp E qp attr flags w)"

record HostLid =
  src_lid :: u16
  dst_lid :: u16

record ConnInfo =
  conn_id :: ConnId
  host_lid :: HostLid

definition modify_qp_to_ready ::
  "'w env \<Rightarrow> config_t \<Rightarrow> ConnInfo \<Rightarrow> conn_resources \<Rightarrow> 'w \<Rightarrow> int \<times> 'w" where
  "modify_qp_to_ready E cf conn_info res w =
     (let (rc, w) = modify_qp_to_init E cf (cr_qp res) w in
      if rc \<noteq> 0 then (rc, w)
      else
        (let (rc, w) = modify_qp_to_rtr E cf (cr_qp res)
               (dst_qpn (conn_key (conn_id conn_info))) (dst_lid (host_lid conn_info))
               (dst_gid (host_key (conn_key (conn_id conn_info)))) w in
         if rc \<noteq> 0 then (rc, w)
         else modify_qp_to_rts E (cr_qp res) w))"

section \<open>What the operations change\<close>

text \<open>On a \<open>conn_resources\<close> that is still zero, destroying does nothing.\<close>

lemma resources_destroy_zero:
  assumes "cr_qp res = 0" and "cr_cq res = 0" and "cr_ev_channel res = 0"
  shows "resources_destroy E res s = (0, res, s)"
  using assms by (simp add: resources_destroy_def destroy_qp_step_def)

text \<open>
  On a zero \<open>conn_resources\<close> creation either succeeds, with two new objects, or leaves the
  queue pair \<open>NULL\<close>.
\<close>

lemma resources_create_cases:
  assumes "cr_qp res = 0" and "cr_cq res = 0" and "cr_ev_channel res = 0"
  obtains (created) n w where
      "resources_create E res s =
        (0, res\<lparr>cr_cq := next_ptr s, cr_qp := Suc (next_ptr s)\<rparr>,
         s\<lparr>next_ptr := Suc (Suc (next_ptr s)),
           qp_heap := (qp_heap s)(Suc (next_ptr s) \<mapsto> \<lparr>qp_num = n, qp_live = True\<rparr>), world := w\<rparr>)"
  | (failed) cq np w where
      "resources_create E res s = (1, res\<lparr>cr_cq := cq\<rparr>, s\<lparr>next_ptr := np, world := w\<rparr>)"
      "next_ptr s \<le> np"
proof -
  obtain ok w1 where c: "e_create_cq E (next_ptr s) MAX_CQ_SIZE (world s) = (ok, w1)" by fastforce
  obtain qn w2 where q: "e_create_qp E (Suc (next_ptr s)) (qp_init_attr_of (next_ptr s)) w1 = (qn, w2)"
    by fastforce
  obtain d w3 where d: "e_destroy_cq E (next_ptr s) w2 = (d, w3)" by fastforce
  consider "\<not> ok" | "ok" "qn = None" | n where "ok" "qn = Some n" by (cases qn) auto
  then show ?thesis
  proof cases
    case 1
    then show ?thesis using c assms
      by (intro failed [where cq = 0 and np = "next_ptr s" and w = w1])
        (simp_all add: resources_create_def resources_destroy_zero)
  next
    case 2
    have "resources_create E res s = (1, res\<lparr>cr_cq := next_ptr s\<rparr>, 
        s\<lparr>next_ptr := Suc (next_ptr s), world := if next_ptr s = 0 then w2 else w3\<rparr>)"
      using 2 c q d assms
      by (simp add: resources_create_def resources_destroy_def destroy_qp_step_def Let_def)
    then show ?thesis by (rule failed) simp
  next
    case 3
    have "resources_create E res s =
        (0, res\<lparr>cr_cq := next_ptr s, cr_qp := Suc (next_ptr s)\<rparr>,
         s\<lparr>next_ptr := Suc (Suc (next_ptr s)),
           qp_heap := (qp_heap s)(Suc (next_ptr s) \<mapsto> \<lparr>qp_num = n, qp_live = True\<rparr>), world := w2\<rparr>)"
     using 3 c q assms
      by (simp add: resources_create_def Let_def)
    then show ?thesis by (rule created)
  qed
qed

text \<open>Destroying changes the liveness of this queue pair and the world, nothing else.\<close>

lemma resources_destroy_frame:
  assumes "resources_destroy E res s = (rc, res', s')"
  shows "\<exists>w q. s' = s\<lparr>qp_heap := q, world := w\<rparr>
      \<and> (\<forall>p. p \<noteq> cr_qp res \<longrightarrow> q p = qp_heap s p)
      \<and> map_option qp_num (q (cr_qp res)) = map_option qp_num (qp_heap s (cr_qp res))
      \<and> cr_qp res' = cr_qp res \<and> cr_ref_cnt res' = cr_ref_cnt res"
    (is "\<exists>w q. ?P w q")
proof -
  obtain r1 w1 where "e_destroy_qp E (cr_qp res) (world s) = (r1, w1)" by fastforce
  then have "?P (world s') (qp_heap s')"
    using assms
    by (cases s) (auto simp: resources_destroy_def destroy_qp_step_def Let_def option.map_comp
        comp_def split: prod.splits if_splits)
  then show ?thesis by blast
qed

text \<open>A result of 0 means that the queue pair object is gone.\<close>

lemma resources_destroy_ok:
  assumes "resources_destroy E res s = (0, res', s')" and "cr_qp res \<noteq> 0" and "qp_heap s (cr_qp res) = Some q"
  shows "qp_heap s' (cr_qp res) = Some (q\<lparr>qp_live := False\<rparr>)"
  using assms
  by (auto simp: resources_destroy_def destroy_qp_step_def Let_def split: prod.splits if_splits)

section \<open>The sequence of state changes\<close>

text \<open>
  Success means three successful calls, INIT, RTR, RTS, in this order and on the world each
  leaves for the next; a failure means that the calls stopped at the first one that failed.
\<close>

lemma modify_qp_to_ready_0:
  assumes "modify_qp_to_ready E cf ci res w = (0, w')"
  obtains w1 w2 where "modify_qp_to_init E cf (cr_qp res) w = (0, w1)"
    and "modify_qp_to_rtr E cf (cr_qp res) (dst_qpn (conn_key (conn_id ci))) (dst_lid (host_lid ci))
           (dst_gid (host_key (conn_key (conn_id ci)))) w1 = (0, w2)"
    and "modify_qp_to_rts E (cr_qp res) w2 = (0, w')"
  using assms by (auto simp: modify_qp_to_ready_def Let_def split: prod.splits if_splits)

end
