(* ===== verification/Remote.thy ===== *)
theory Remote
  imports Router_State
begin

text \<open>
  The exchange of physical queue pair numbers between routers: the sender
  (\<open>update_dst_router\<close>) and the receiver (\<open>handle_remote_router\<close>) of \<open>scalerouter.cpp\<close>.
  A virtual queue pair number is the IPv4 address of its router, so the number itself tells
  the sender where to connect.
\<close>

section \<open>Receiving\<close>

text \<open>
  One connection from another router: \<open>n\<close> is the result of \<open>recv\<close>, \<open>buf\<close> the struct it
  filled and \<open>fd\<close> the socket, which the label \<open>exit\<close> closes.
\<close>

definition handle_remote_router ::
  "'w env \<Rightarrow> int \<Rightarrow> int \<Rightarrow> info \<Rightarrow> 'w router \<Rightarrow> unit outcome \<times> 'w router" where
  "handle_remote_router E fd n buf s =
     andthen
       (if n = -1 then (Done (), s)
        else andthen (acquire DstQpL s) (\<lambda>_ s.
          (case info_op buf of
             INSERT \<Rightarrow>
               (Done (), release DstQpL (s\<lparr>dst_qp_map := (dst_qp_map s)(info_gid buf \<mapsto> info_qp_num buf)\<rparr>))
           | DELETE \<Rightarrow>
               (case dst_qp_map s (info_gid buf) of
                  Some _ \<Rightarrow> (Done (), release DstQpL (s\<lparr>dst_qp_map := (dst_qp_map s)(info_gid buf := None)\<rparr>))
                | None \<Rightarrow> (Done (), release DstQpL s)))))
       (\<lambda>_ s. (Done (), s\<lparr>world := snd (e_close E fd (world s))\<rparr>))"

section \<open>Sending\<close>

text \<open>\<open>inet_ntop\<close> for IPv4: the four bytes in memory order (the host is little-endian).\<close>

definition inet_ntop :: "u32 \<Rightarrow> string" where
  "inet_ntop a = (case map (\<lambda>b. show_nat (unat b)) (le_bytes32 a) of
      [b0, b1, b2, b3] \<Rightarrow> b0 @ CHR ''.'' # b1 @ CHR ''.'' # b2 @ CHR ''.'' # b3
    | _ \<Rightarrow> [])"

text \<open>The loop over the results of \<open>getaddrinfo\<close>; \<open>None\<close> is \<open>tmp == NULL\<close> at its end.\<close>

fun connect_first :: "'w env \<Rightarrow> nat list \<Rightarrow> 'w \<Rightarrow> int option \<times> 'w" where
  "connect_first E [] w = (None, w)"
| "connect_first E (a # as) w =
     (let (sockfd, w) = e_socket E a w in
      if sockfd = -1 then connect_first E as w
      else (let (r, w) = e_connect E sockfd a w in
        if r = -1 then connect_first E as w else (Some sockfd, w)))"

definition update_dst_router ::
  "'w env \<Rightarrow> OPERATION \<Rightarrow> gid \<Rightarrow> u32 \<Rightarrow> u32 \<Rightarrow> 'w \<Rightarrow> int \<times> 'w" where
  "update_dst_router E op local_gid dst_v_qp_num phy_qp_num w =
     (let dst_router_addr = inet_ntop dst_v_qp_num;
          ((status, res), w) = e_getaddrinfo E dst_router_addr ''18516'' w in
      if status \<noteq> 0 then (-1, w)
      else
        (let (sock, w) = connect_first E res w in
         case sock of
           None \<Rightarrow> (-1, w)
         | Some sockfd \<Rightarrow>
             (let (r, w) = e_send E sockfd
                    \<lparr>info_op = op, info_gid = take 16 local_gid, info_qp_num = phy_qp_num\<rparr> w in
              if r = -1 then (-1, w)
              else (0, snd (e_close E sockfd w)))))"

section \<open>Lemmas\<close>

text \<open>A message is one update of the map; the mutex is free again afterwards.\<close>

definition apply_info :: "info \<Rightarrow> (gid \<rightharpoonup> u32) \<Rightarrow> (gid \<rightharpoonup> u32)" where
  "apply_info m f = (case info_op m of
      INSERT \<Rightarrow> f(info_gid m \<mapsto> info_qp_num m) | DELETE \<Rightarrow> f(info_gid m := None))"

lemma handle_remote_router_step:
  assumes "DstQpL \<notin> held s" and "n \<noteq> -1"
  shows "handle_remote_router E fd n buf s =
    (Done (), s\<lparr>dst_qp_map := apply_info buf (dst_qp_map s), world := snd (e_close E fd (world s))\<rparr>)"
  using assms
  by (auto simp: handle_remote_router_def acquire_def release_def apply_info_def fun_upd_idem
      split: OPERATION.splits option.splits)

lemma handle_remote_router_blocked:
  assumes "DstQpL \<in> held s" and "n \<noteq> -1"
  shows "handle_remote_router E fd n buf s = (Blocked DstQpL, s)"
  using assms by (simp add: handle_remote_router_def acquire_def)

lemma dot_not_digit: "CHR ''.'' \<notin> set (show_nat n)"
  using set_show_nat [of n]
  by (auto simp: digit_chars_def digit_def dest!: subsetD arg_cong [where f = "of_char :: char \<Rightarrow> nat"])

lemma byte_eq_bit:
  assumes "(ucast (drop_bit k a) :: u8) = ucast (drop_bit k (b :: u32))" and "k \<le> n" and "n < k + 8"
  shows "bit a n = bit b n"
proof -
  have "bit (ucast (drop_bit k a) :: u8) (n - k) = bit (ucast (drop_bit k b) :: u8) (n - k)"
    using assms(1) by simp
  moreover have "n - k < 8" using assms(2,3) by linarith
  ultimately show ?thesis using assms(2) by (simp add: bit_simps)
qed

lemma le_bytes32_inject: "le_bytes32 a = le_bytes32 b \<Longrightarrow> a = b"
proof (rule bit_word_eqI)
  fix n assume eq: "le_bytes32 a = le_bytes32 b" and "n < LENGTH(32)"
  then consider "n < 8" | "8 \<le> n" "n < 16" | "16 \<le> n" "n < 24" | "24 \<le> n" "n < 32"
    by fastforce
  then show "bit a n = bit b n"
    using eq byte_eq_bit [of 0 a b n] byte_eq_bit [of 8 a b n] byte_eq_bit [of 16 a b n]
      byte_eq_bit [of 24 a b n]
    by cases (auto simp: le_bytes32_def)
qed

text \<open>Distinct virtual queue pair numbers name distinct routers.\<close>

lemma inet_ntop_inject: "inet_ntop a = inet_ntop b \<longleftrightarrow> a = b"
proof
  assume "inet_ntop a = inet_ntop b"
  then have "le_bytes32 a = le_bytes32 b"
    by (simp add: inet_ntop_def le_bytes32_def sep_inject dot_not_digit word_unat_eq_iff)
  then show "a = b" by (rule le_bytes32_inject)
qed simp

text \<open>The result fits the buffer \<open>char dst_router_addr[INET_ADDRSTRLEN]\<close> of 16 bytes.\<close>

lemma length_inet_ntop: "length (inet_ntop a) < 16"
proof -
  have "length (show_nat (unat (b :: u8))) \<le> 3" for b
    using length_show_nat [of "unat b" 3] unsigned_less [of b, where ?'a = nat] by simp
  then have "length (show_nat (unat (ucast (a :: u32) :: u8))) \<le> 3"
    "length (show_nat (unat (ucast (drop_bit 8 a) :: u8))) \<le> 3"
    "length (show_nat (unat (ucast (drop_bit 16 a) :: u8))) \<le> 3"
    "length (show_nat (unat (ucast (drop_bit 24 a) :: u8))) \<le> 3"
    by blast+
  then show ?thesis by (simp add: inet_ntop_def le_bytes32_def del: unsigned_ucast_eq)
qed

end
