(* ===== verification/Qp_Handlers.thy ===== *)
theory Qp_Handlers
  imports Conn_Res Remote
begin

text \<open>
  The cases of \<open>handle_process\<close> that manage queue pairs: \<open>IBV_CREATE_QP\<close>,
  \<open>IBV_MODIFY_QP\<close>, \<open>IBV_DESTROY_QP\<close> and \<open>IBV_DESTROY_CQ\<close>. Virtual queue pairs with the
  same pair of hosts share one physical connection, whose \<open>ref_cnt\<close> counts them.
  \<open>IBV_MODIFY_QP\<close> is written as the sequence of its critical sections, so that other threads
  can be placed between them.
\<close>

section \<open>Requests\<close>

record create_qp_req =
  cq_send_cq_handle :: u32
  cq_recv_cq_handle :: u32
  cq_qp_handle :: u32

record modify_qp_req =
  mq_dst_gid :: gid
  mq_dst_lid :: u16
  mq_dst_v_qp_num :: u32
  mq_src_v_qp_num :: u32
  mq_src_v_qp_handle :: u32
  mq_qp_state :: u32

record destroy_qp_req =
  dq_qp_handle :: u32
  dq_dst_v_qp_num :: u32

section \<open>IBV_CREATE_QP\<close>

text \<open>The virtual queue pair number is the IPv4 address of \<open>eth0\<close>.\<close>

definition ibv_create_qp_h ::
  "'w env \<Rightarrow> create_qp_req \<Rightarrow> 'w router \<Rightarrow> u32 outcome \<times> 'w router" where
  "ibv_create_qp_h E req s =
     andthen (acquire CqQpL s) (\<lambda>_ s.
       (case cq_qp_map s (cq_send_cq_handle req) of
          Some _ \<Rightarrow> (Killed, release CqQpL s)
        | None \<Rightarrow>
            (let s = s\<lparr>cq_qp_map := (cq_qp_map s)(cq_send_cq_handle req \<mapsto> cq_qp_handle req)\<rparr>;
                 s = release CqQpL s;
                 (addr, w) = e_iface_addr E ''eth0'' (world s)
             in (Done addr, s\<lparr>world := w\<rparr>))))"

section \<open>IBV_DESTROY_CQ\<close>

definition ibv_destroy_cq_h :: "u32 \<Rightarrow> 'w router \<Rightarrow> u8 outcome \<times> 'w router" where
  "ibv_destroy_cq_h cq_handle s =
     andthen (acquire CqQpL s) (\<lambda>_ s.
       (case cq_qp_map s cq_handle of
          Some _ \<Rightarrow> (Done 1, release CqQpL (s\<lparr>cq_qp_map := (cq_qp_map s)(cq_handle := None)\<rparr>))
        | None \<Rightarrow> (Done 0, release CqQpL s)))"

section \<open>Attaching to a physical connection\<close>

text \<open>
  The first critical section of \<open>IBV_MODIFY_QP\<close> and of \<open>CREATE_RES\<close>: a connection is
  allocated in advance with its mutex locked, and \<open>host_map\<close> decides whether it or the one
  already there is used. The result is the flag \<open>create_flag\<close> with the two pointers.
\<close>

definition host_attach ::
  "HostKey \<Rightarrow> 'w router \<Rightarrow> (bool \<times> ptr \<times> ptr) outcome \<times> 'w router" where
  "host_attach hostkey s =
     (let new_conn = next_ptr s;
          s = s\<lparr>next_ptr := Suc new_conn, conn_heap := (conn_heap s)(new_conn \<mapsto> zero_conn)\<rparr> in
      andthen (acquire (ConnL new_conn) s) (\<lambda>_ s.
        let s = write_conn new_conn (zero_conn\<lparr>cr_ref_cnt := 1\<rparr>) s in
        andthen (acquire HostmapL s) (\<lambda>_ s.
          (case host_map s hostkey of
             Some p \<Rightarrow>
               if p \<noteq> 0 then
                 andthen (read_conn p s) (\<lambda>c s.
                   let s = write_conn p (c\<lparr>cr_ref_cnt := cr_ref_cnt c + 1\<rparr>) s in
                   (Done (False, new_conn, p), release HostmapL s))
               else
                 (Done (True, new_conn, 0),
                  release HostmapL (s\<lparr>host_map := (host_map s)(hostkey \<mapsto> new_conn)\<rparr>))
           | None \<Rightarrow>
               (Done (True, new_conn, 0),
                release HostmapL (s\<lparr>host_map := (host_map s)(hostkey \<mapsto> new_conn)\<rparr>))))))"

text \<open>
  The second: the new connection gets its queue pair, or is given back; the result is the
  number of the physical queue pair. A failure of \<open>resources_create\<close> is only logged.
\<close>

definition host_materialise ::
  "'w env \<Rightarrow> bool \<times> ptr \<times> ptr \<Rightarrow> 'w router \<Rightarrow> u32 outcome \<times> 'w router" where
  "host_materialise E a s =
     (let (create_flag, new_conn, old_conn) = a in
      andthen (read_conn new_conn s) (\<lambda>res s.
        if create_flag then
          (let (rc, res, s) = resources_create E res s;
               s = write_conn new_conn res s in
           andthen (read_qp_num (cr_qp res) s) (\<lambda>n s.
             (Done n, release (ConnL new_conn) s)))
        else
          (let (rc, res, s) = resources_destroy E res s;
               s = release (ConnL new_conn) s;
               s = s\<lparr>conn_heap := (conn_heap s)(new_conn := None)\<rparr> in
           andthen (read_conn old_conn s) (\<lambda>old s. read_qp_num (cr_qp old) s))))"

section \<open>IBV_MODIFY_QP\<close>

text \<open>
  Remember which host pair the virtual queue pair belongs to, and tell the other router the
  number of our physical queue pair.
\<close>

definition modify_qp_announce ::
  "'w env \<Rightarrow> modify_qp_req \<Rightarrow> HostKey \<Rightarrow> u32 \<Rightarrow> 'w router \<Rightarrow> (HostKey \<times> u32) outcome \<times> 'w router" where
  "modify_qp_announce E req hostkey phy_qp_num s =
     andthen (acquire SrcQpL s) (\<lambda>_ s.
       let s = s\<lparr>src_qp_map := (src_qp_map s)(mq_src_v_qp_handle req \<mapsto> hostkey)\<rparr>;
           s = release SrcQpL s;
           (rc, w) = update_dst_router E INSERT (g_src_gid s) (mq_dst_v_qp_num req) phy_qp_num (world s);
           s = s\<lparr>world := w\<rparr> in
       if rc = -1 then (Killed, s) else (Done (hostkey, phy_qp_num), s))"

text \<open>All that comes before the loop that waits for the other router.\<close>

definition modify_qp_begin ::
  "'w env \<Rightarrow> modify_qp_req \<Rightarrow> 'w router \<Rightarrow> (HostKey \<times> u32) outcome \<times> 'w router" where
  "modify_qp_begin E req s =
     (let hostkey = \<lparr>src_gid = g_src_gid s, dst_gid = take 16 (mq_dst_gid req)\<rparr> in
      andthen (host_attach hostkey s) (\<lambda>a s.
      andthen (host_materialise E a s) (\<lambda>phy_qp_num s.
        modify_qp_announce E req hostkey phy_qp_num s)))"

text \<open>One turn of \<open>while (true)\<close>: \<open>None\<close> goes round again.\<close>

definition dst_lookup :: "gid \<Rightarrow> 'w router \<Rightarrow> u32 option outcome \<times> 'w router" where
  "dst_lookup gid s =
     andthen (acquire DstQpL s) (\<lambda>_ s. (Done (dst_qp_map s (take 16 gid)), release DstQpL s))"

text \<open>
  The loop, with the messages of other routers that arrive meanwhile: \<open>arrivals\<close> gives the
  socket and the message (24 bytes) handled before each further turn. \<open>None\<close>: still in the loop after the last one.
\<close>

fun dst_wait ::
  "'w env \<Rightarrow> gid \<Rightarrow> (int \<times> info) list \<Rightarrow> 'w router \<Rightarrow> u32 option outcome \<times> 'w router" where
  "dst_wait E gid [] s = dst_lookup gid s"
| "dst_wait E gid ((fd, m) # arrivals) s =
     andthen (dst_lookup gid s) (\<lambda>r s.
       (case r of
          Some n \<Rightarrow> (Done (Some n), s)
        | None \<Rightarrow> andthen (handle_remote_router E fd 24 m s) (\<lambda>_ s. dst_wait E gid arrivals s)))"

text \<open>
  The rest: the physical queue pair is taken to RTS unless it is there already. The result is
  the \<open>flag\<close> of the response. The two \<open>goto kill\<close> leave \<open>hostmap_lock\<close> locked.
\<close>

definition modify_qp_finish ::
  "'w env \<Rightarrow> ScaleReqHeader \<Rightarrow> modify_qp_req \<Rightarrow> HostKey \<Rightarrow> u32 \<Rightarrow> u32 \<Rightarrow> 'w router
     \<Rightarrow> u8 outcome \<times> 'w router" where
  "modify_qp_finish E header req hostkey phy_qp_num dst_phy_qp_num s =
     (let conninfo = \<lparr>conn_id = \<lparr>conn_key =
              \<lparr>host_key = \<lparr>src_gid = g_src_gid s, dst_gid = take 16 (mq_dst_gid req)\<rparr>,
               src_qpn = phy_qp_num, dst_qpn = dst_phy_qp_num\<rparr>, process_id = rh_process_id header\<rparr>,
            host_lid = \<lparr>src_lid = 0, dst_lid = mq_dst_lid req\<rparr>\<rparr> in
      andthen (acquire HostmapL s) (\<lambda>_ s.
        (case host_map s hostkey of
           None \<Rightarrow> (Killed, s)
         | Some conn \<Rightarrow>
             if conn = 0 then (Killed, s)
             else
               andthen (acquire (ConnL conn) (release HostmapL s)) (\<lambda>_ s.
               andthen (read_conn conn s) (\<lambda>res s.
                 let (res, s) =
                       (if cr_status res = 0 then
                          (let (rc, w) = modify_qp_to_ready E (config s) conninfo res (world s);
                               s = s\<lparr>world := w\<rparr> in
                           if rc \<noteq> 0 then (res, s)
                           else (res\<lparr>cr_status := 4\<rparr>, write_conn conn (res\<lparr>cr_status := 4\<rparr>) s))
                        else (res, s));
                     ready_flag = cr_status res = 4;
                     s = release (ConnL conn) s
                 in (Done (if ready_flag then 1 else 0), s))))))"

text \<open>The whole case; \<open>Done None\<close>: it is still in the loop when the arrivals are used up.\<close>

definition ibv_modify_qp_h ::
  "'w env \<Rightarrow> ScaleReqHeader \<Rightarrow> modify_qp_req \<Rightarrow> (int \<times> info) list \<Rightarrow> 'w router
     \<Rightarrow> u8 option outcome \<times> 'w router" where
  "ibv_modify_qp_h E header req arrivals s =
     andthen (modify_qp_begin E req s) (\<lambda>(hostkey, phy_qp_num) s.
     andthen (dst_wait E (mq_dst_gid req) arrivals s) (\<lambda>r s.
       (case r of
          None \<Rightarrow> (Done None, s)
        | Some dst_phy_qp_num \<Rightarrow>
            andthen (modify_qp_finish E header req hostkey phy_qp_num dst_phy_qp_num s) (\<lambda>flag s.
              (Done (Some flag), s)))))"

section \<open>IBV_DESTROY_QP\<close>

text \<open>
  Releasing the physical connection after its last reference: its mutex is taken, the queue
  pair destroyed, the other router told to forget us, and the memory given back.
\<close>

definition release_conn ::
  "'w env \<Rightarrow> ptr \<Rightarrow> u32 \<Rightarrow> 'w router \<Rightarrow> u8 outcome \<times> 'w router" where
  "release_conn E conn dst_v_qp_num s =
     andthen (acquire (ConnL conn) s) (\<lambda>_ s.
     andthen (read_conn conn s) (\<lambda>res s.
       let (rc, res, s) = resources_destroy E res s;
           s = write_conn conn res s;
           flags = (if rc \<noteq> 0 then 0 else 1) in
       andthen (read_qp_num (cr_qp res) s) (\<lambda>n s.
         let (rc, w) = update_dst_router E DELETE (g_src_gid s) dst_v_qp_num n (world s);
             s = release (ConnL conn) (s\<lparr>world := w\<rparr>);
             s = s\<lparr>conn_heap := (conn_heap s)(conn := None)\<rparr>
         in (Done flags, s))))"

definition ibv_destroy_qp_h ::
  "'w env \<Rightarrow> destroy_qp_req \<Rightarrow> 'w router \<Rightarrow> u8 outcome \<times> 'w router" where
  "ibv_destroy_qp_h E req s =
     andthen (acquire SrcQpL s) (\<lambda>_ s.
       (case src_qp_map s (dq_qp_handle req) of
          None \<Rightarrow> (Done 0, release SrcQpL s)
        | Some hostkey \<Rightarrow>
            (let s = release SrcQpL (s\<lparr>src_qp_map := (src_qp_map s)(dq_qp_handle req := None)\<rparr>) in
             andthen (acquire HostmapL s) (\<lambda>_ s.
               (case host_map s hostkey of
                  None \<Rightarrow> (Done 0, release HostmapL s)
                | Some conn \<Rightarrow>
                    if conn = 0 then (Killed, release HostmapL s)
                    else
                      andthen (read_conn conn s) (\<lambda>c s.
                        let c = c\<lparr>cr_ref_cnt := cr_ref_cnt c - 1\<rparr>;
                            s = write_conn conn c s in
                        if cr_ref_cnt c \<le> 0 then
                          release_conn E conn (dq_dst_v_qp_num req)
                            (release HostmapL (s\<lparr>host_map := (host_map s)(hostkey := None)\<rparr>))
                        else (Done 1, release HostmapL s)))))))"

end
