(* ===== verification/Qp_Pool.thy ===== *)
theory Qp_Pool
  imports Qp_Handlers
begin

text \<open>
  The pool of physical connections as the queue pair handlers keep it: what \<open>host_map\<close>, the
  connections, their queue pairs and \<open>src_qp_map\<close> owe each other, and that every handler
  keeps it. The reference count of a connection is the number of virtual queue pairs
  attached to its host pair.
\<close>

section \<open>The invariant\<close>

definition attached :: "'w router \<Rightarrow> HostKey \<Rightarrow> u32 set" where
  "attached s k = {h. src_qp_map s h = Some k}"

text \<open>A connection in use: allocated, with a live queue pair, counted by its virtual ones.\<close>

definition conn_ok :: "'w router \<Rightarrow> HostKey \<Rightarrow> ptr \<Rightarrow> bool" where
  "conn_ok s k p \<longleftrightarrow>
     (\<exists>c q. conn_heap s p = Some c \<and> qp_heap s (cr_qp c) = Some q \<and> qp_live q
       \<and> unat (cr_ref_cnt c) = card (attached s k) \<and> attached s k \<noteq> {})"

text \<open>Addresses come from the allocator, and none is \<open>NULL\<close>.\<close>

definition heap_ok :: "'w router \<Rightarrow> bool" where
  "heap_ok s \<longleftrightarrow> 0 < next_ptr s
     \<and> (\<forall>p c. conn_heap s p = Some c \<longrightarrow> 0 < p \<and> p < next_ptr s)
     \<and> (\<forall>p q. qp_heap s p = Some q \<longrightarrow> 0 < p \<and> p < next_ptr s)"

text \<open>Different host pairs have different connections and different queue pairs.\<close>

definition no_sharing :: "'w router \<Rightarrow> bool" where
  "no_sharing s \<longleftrightarrow>
     (\<forall>k k' p p' c c'. host_map s k = Some p \<longrightarrow> host_map s k' = Some p' \<longrightarrow>
        conn_heap s p = Some c \<longrightarrow> conn_heap s p' = Some c' \<longrightarrow>
        p = p' \<or> cr_qp c = cr_qp c' \<longrightarrow> k = k')"

definition pool_inv :: "'w router \<Rightarrow> bool" where
  "pool_inv s \<longleftrightarrow> heap_ok s \<and> no_sharing s
     \<and> (\<forall>k p. host_map s k = Some p \<longrightarrow> conn_ok s k p)
     \<and> (\<forall>h k. src_qp_map s h = Some k \<longrightarrow> host_map s k \<noteq> None)"

lemmas pool_defs = pool_inv_def heap_ok_def no_sharing_def conn_ok_def attached_def

lemma finite_attached [simp]: "finite (attached s k)"
  by (rule finite_subset [of _ UNIV]) auto

text \<open>The invariant does not look at the mutexes, the other maps or the world.\<close>

lemma pool_inv_frame [simp]:
  "pool_inv (s\<lparr>held := x\<rparr>) = pool_inv s" "pool_inv (s\<lparr>world := w\<rparr>) = pool_inv s"
  "pool_inv (s\<lparr>dst_qp_map := d\<rparr>) = pool_inv s" "pool_inv (s\<lparr>cq_qp_map := cq\<rparr>) = pool_inv s"
  "pool_inv (s\<lparr>lkey_offset_map := lo\<rparr>) = pool_inv s" "pool_inv (s\<lparr>freed_reads := fr\<rparr>) = pool_inv s"
  "pool_inv (release l s) = pool_inv s"
  by (simp_all add: pool_defs release_def)

text \<open>The start: no virtual queue pair, no connection.\<close>

lemma pool_inv_empty:
  assumes "0 < next_ptr s" and "host_map s = Map.empty" and "src_qp_map s = Map.empty"
    and "conn_heap s = Map.empty" and "qp_heap s = Map.empty"
  shows "pool_inv s"
  using assms by (simp add: pool_defs)

lemma pool_connD:
  assumes "pool_inv s" and "host_map s k = Some p"
  obtains c q where "conn_heap s p = Some c" "qp_heap s (cr_qp c) = Some q" "qp_live q"
    "unat (cr_ref_cnt c) = card (attached s k)" "attached s k \<noteq> {}"
    "0 < p" "p < next_ptr s" "0 < cr_qp c" "cr_qp c < next_ptr s"
  using assms unfolding pool_inv_def conn_ok_def heap_ok_def by metis

lemma pool_next_ptr:
  assumes "pool_inv s"
  shows "0 < next_ptr s" "conn_heap s (next_ptr s) = None" "qp_heap s (next_ptr s) = None"
    "qp_heap s (Suc (next_ptr s)) = None" "conn_heap s 0 = None" "qp_heap s 0 = None"
proof -
  have "conn_heap s p = None" "qp_heap s p = None" if "p = 0 \<or> next_ptr s \<le> p" for p
    using assms that unfolding pool_inv_def heap_ok_def by (metis not_None_eq not_le less_nat_zero_code)+
  then show "conn_heap s (next_ptr s) = None" "qp_heap s (next_ptr s) = None"
    "qp_heap s (Suc (next_ptr s)) = None" "conn_heap s 0 = None" "qp_heap s 0 = None"
    by simp_all
  show "0 < next_ptr s" using assms by (simp add: pool_inv_def heap_ok_def)
qed

section \<open>Attaching\<close>

text \<open>To a connection that is there: its count goes up, the connection made in advance is freed.\<close>

lemma attach_existing:
  assumes inv: "pool_inv s" and k: "host_map s k = Some p"
    and free: "HostmapL \<notin> held s" "ConnL (next_ptr s) \<notin> held s"
    and c: "conn_heap s p = Some c" "qp_heap s (cr_qp c) = Some q"
  shows "andthen (host_attach k s) (host_materialise E) =
    (Done (qp_num q), s\<lparr>next_ptr := Suc (next_ptr s),
       conn_heap := (conn_heap s)(p \<mapsto> c\<lparr>cr_ref_cnt := cr_ref_cnt c + 1\<rparr>)\<rparr>)"
proof -
  obtain c' q' where c': "conn_heap s p = Some c'" "qp_heap s (cr_qp c') = Some q'" "qp_live q'"
    "0 < p" "p < next_ptr s"
    using inv k by (rule pool_connD) blast
  with c have live: "qp_live q" by simp
  have upd: "(conn_heap s)(next_ptr s := None) = conn_heap s"
    using pool_next_ptr(2) [OF inv] by (simp add: fun_upd_idem)
  show ?thesis
    using k free c c' live upd
    by (simp add: host_attach_def host_materialise_def acquire_def read_conn_def write_conn_def
        read_qp_num_def release_def Let_def resources_destroy_zero zero_conn_def fun_upd_twist)
qed

text \<open>
  To a host pair without a connection: the new one gets a queue pair and enters \<open>host_map\<close>,
  or, when its resources cannot be created, the handler reads through a null pointer.
\<close>

lemma attach_new:
  assumes inv: "pool_inv s" and k: "host_map s k = None"
    and free: "HostmapL \<notin> held s" "ConnL (next_ptr s) \<notin> held s"
  obtains (created) n w where
      "andthen (host_attach k s) (host_materialise E) =
        (Done n, s\<lparr>next_ptr := next_ptr s + 3,
           host_map := (host_map s)(k \<mapsto> next_ptr s),
           conn_heap := (conn_heap s)(next_ptr s \<mapsto>
             zero_conn\<lparr>cr_ref_cnt := 1, cr_cq := next_ptr s + 1, cr_qp := next_ptr s + 2\<rparr>),
           qp_heap := (qp_heap s)(next_ptr s + 2 \<mapsto> \<lparr>qp_num = n, qp_live = True\<rparr>), world := w\<rparr>)"
  | (failed) s' where "andthen (host_attach k s) (host_materialise E) = (Fault, s')"
proof -
  let ?new = "next_ptr s"
  let ?c = "zero_conn\<lparr>cr_ref_cnt := 1\<rparr>"
  let ?s1 = "s\<lparr>next_ptr := Suc ?new, host_map := (host_map s)(k \<mapsto> ?new),
     conn_heap := (conn_heap s)(?new \<mapsto> ?c), held := insert (ConnL ?new) (held s)\<rparr>"
  have att: "host_attach k s = (Done (True, ?new, 0), ?s1)"
    using k free by (simp add: host_attach_def acquire_def write_conn_def release_def Let_def insert_Diff_if)
  have zero: "cr_qp ?c = 0" "cr_cq ?c = 0" "cr_ev_channel ?c = 0" by (simp_all add: zero_conn_def)
  have heap0: "qp_heap s 0 = None" using inv by (rule pool_next_ptr)
  show ?thesis
  proof (rule resources_create_cases [OF zero, of E ?s1], goal_cases)
    case (1 n w)
    then show ?thesis using free att
      by (intro that(1) [where n = n and w = w]) (simp add: eval_nat_numeral host_materialise_def read_conn_def write_conn_def read_qp_num_def release_def)
  next
    case (2 cq np w)
    have "\<exists>s'. andthen (host_attach k s) (host_materialise E) = (Fault, s')"
      using 2(1) att heap0 zero(1)
      by (simp add: host_materialise_def read_conn_def write_conn_def read_qp_num_def Let_def)
    then show ?thesis using that(2) by blast
  qed
qed

text \<open>Both ways keep the invariant once the new virtual queue pair is recorded.\<close>

lemma attached_insert:
  assumes "src_qp_map s h = None"
  shows "{h'. ((src_qp_map s)(h \<mapsto> k)) h' = Some k'} = (if k' = k then insert h (attached s k) else attached s k')"
  using assms by (auto simp: attached_def)

lemma attach_existing_inv:
  assumes inv: "pool_inv s" and k: "host_map s k = Some p" and c: "conn_heap s p = Some c"
    and h: "src_qp_map s h = None" and room: "card (dom (src_qp_map s)) < 2 ^ 32 - 1"
  shows "pool_inv (s\<lparr>next_ptr := Suc (next_ptr s),
     conn_heap := (conn_heap s)(p \<mapsto> c\<lparr>cr_ref_cnt := cr_ref_cnt c + 1\<rparr>),
     src_qp_map := (src_qp_map s)(h \<mapsto> k)\<rparr>)" (is "pool_inv ?s")
proof -
  have "attached s k \<subseteq> dom (src_qp_map s)" by (auto simp: attached_def)
  then have "card (attached s k) \<le> card (dom (src_qp_map s))"
    by (intro card_mono) (auto intro: finite_subset [of _ UNIV])
  with room have "card (attached s k) + 1 < 2 ^ 32" by simp
  moreover have cnt: "unat (cr_ref_cnt c) = card (attached s k)"
    using inv k c unfolding pool_inv_def conn_ok_def by fastforce
  ultimately have ref: "unat (cr_ref_cnt c + 1) = Suc (card (attached s k))"
    by (simp add: unat_word_ariths)
  have hn: "h \<notin> attached s k" using h by (simp add: attached_def)
  have att: "attached ?s k' = (if k' = k then insert h (attached s k) else attached s k')" for k'
    using attached_insert [OF h] by (simp add: attached_def)
  have ok: "conn_ok ?s k' p'" if "host_map s k' = Some p'" for k' p'
  proof (cases "p' = p")
    case True
    have "k' = k" using inv k c that True unfolding pool_inv_def no_sharing_def by blast
    then show ?thesis using inv k c True hn ref
      unfolding pool_inv_def conn_ok_def by (fastforce simp: att)
  next
    case False
    then have "k' \<noteq> k" using k that by auto
    moreover have "conn_ok s k' p'" using inv that by (simp add: pool_inv_def)
    ultimately show ?thesis using False by (simp add: conn_ok_def att)
  qed
  have sh: "no_sharing ?s"
    using inv c unfolding pool_inv_def no_sharing_def by (auto split: if_splits)
  have "heap_ok ?s"
    using inv c unfolding pool_inv_def heap_ok_def by (auto intro: less_SucI)
  then show ?thesis using ok sh inv k by (auto simp: pool_inv_def)
qed

lemma no_sharing_insert:
  assumes "no_sharing s" and "host_map s' = (host_map s)(k \<mapsto> p)" "conn_heap s' = (conn_heap s)(p \<mapsto> c)"
    and new: "\<And>k' p' c'. host_map s k' = Some p' \<Longrightarrow> conn_heap s p' = Some c' \<Longrightarrow> p' \<noteq> p \<and> cr_qp c' \<noteq> cr_qp c"
    and alloc: "\<And>k' p'. host_map s k' = Some p' \<Longrightarrow> conn_heap s p' \<noteq> None"
  shows "no_sharing s'"
  unfolding no_sharing_def
proof (intro allI impI)
  fix k1 k2 p1 p2 c1 c2
  assume h: "host_map s' k1 = Some p1" "host_map s' k2 = Some p2"
    "conn_heap s' p1 = Some c1" "conn_heap s' p2 = Some c2" "p1 = p2 \<or> cr_qp c1 = cr_qp c2"
  have old: "host_map s k' = Some p' \<and> conn_heap s p' = Some c' \<and> p' \<noteq> p \<and> cr_qp c' \<noteq> cr_qp c"
    if "host_map s' k' = Some p'" "conn_heap s' p' = Some c'" "k' \<noteq> k" for k' p' c'
  proof -
    have hm: "host_map s k' = Some p'" using that assms(2) by simp
    then obtain c0 where "conn_heap s p' = Some c0" using alloc by blast
    then have "p' \<noteq> p" using new [OF hm] by blast
    then have "conn_heap s p' = Some c'" using that(2) assms(3) by simp
    then show ?thesis using hm new [OF hm] by blast
  qed
  have mine: "p' = p \<and> c' = c" if "host_map s' k = Some p'" "conn_heap s' p' = Some c'" for p' c'
    using that assms(2,3) by auto
  show "k1 = k2"
  proof (cases "k1 = k \<or> k2 = k")
    case True
    then show ?thesis using h old mine by metis
  next
    case False
    then show ?thesis using h old [of k1] old [of k2] assms(1) unfolding no_sharing_def by blast
  qed
qed

lemma attach_new_inv:
  assumes inv: "pool_inv s" and k: "host_map s k = None" and h: "src_qp_map s h = None"
  shows "pool_inv (s\<lparr>next_ptr := next_ptr s + 3,
           host_map := (host_map s)(k \<mapsto> next_ptr s),
           conn_heap := (conn_heap s)(next_ptr s \<mapsto>
             zero_conn\<lparr>cr_ref_cnt := 1, cr_cq := next_ptr s + 1, cr_qp := next_ptr s + 2\<rparr>),
           qp_heap := (qp_heap s)(next_ptr s + 2 \<mapsto> \<lparr>qp_num = n, qp_live = True\<rparr>),
           src_qp_map := (src_qp_map s)(h \<mapsto> k)\<rparr>)" (is "pool_inv ?s")
proof -
  have none: "attached s k = {}" using inv k by (force simp: pool_inv_def attached_def)
  have att: "attached ?s k' = (if k' = k then insert h (attached s k) else attached s k')" for k'
    using attached_insert [OF h] by (simp add: attached_def)
  have below: "p < next_ptr s \<and> cr_qp c < next_ptr s"
    if "host_map s k' = Some p" "conn_heap s p = Some c" for k' p c
    using that by (auto intro: pool_connD [OF inv that(1)])
  have ok: "conn_ok ?s k' p'" if "host_map ?s k' = Some p'" for k' p'
  proof (cases "k' = k")
    case True
    then have "p' = next_ptr s" using that by simp
    then show ?thesis using True none unfolding conn_ok_def att by simp
  next
    case False
    then have hm: "host_map s k' = Some p'" using that by simp
    obtain c q where "conn_heap s p' = Some c" "qp_heap s (cr_qp c) = Some q" "qp_live q"
      "unat (cr_ref_cnt c) = card (attached s k')" "attached s k' \<noteq> {}"
      "p' < next_ptr s" "cr_qp c < next_ptr s"
      using pool_connD [OF inv hm] by blast
    then show ?thesis using False unfolding conn_ok_def att by simp
  qed
  have sh: "no_sharing ?s"
  proof (rule no_sharing_insert)
    show "no_sharing s" using inv by (simp add: pool_inv_def)
  qed (use below inv in \<open>force simp: pool_inv_def conn_ok_def\<close>)+
  have "heap_ok ?s"
    using inv unfolding pool_inv_def heap_ok_def by (auto intro: less_SucI trans_less_add1)
  then show ?thesis using ok sh inv by (auto simp: pool_inv_def)
qed

end
