(* ===== verification/Data_Path.thy ===== *)
theory Data_Path
  imports Mr_Handlers Qp_Pool
begin

text \<open>
  The data path: \<open>IBV_POST_SEND\<close>, \<open>IBV_POST_RECV\<close> and \<open>IBV_POLL_CQ\<close> of
  \<open>handle_process\<close>. A request names a virtual queue pair; the router finds the physical
  connection through \<open>src_qp_map\<close> and \<open>host_map\<close>, translates the client's address and
  passes the work request on.
\<close>

section \<open>Finding things\<close>

text \<open>The translation, common to both post requests.\<close>

definition translate_addr :: "u32 \<Rightarrow> u64 \<Rightarrow> 'w router \<Rightarrow> u64 outcome \<times> 'w router" where
  "translate_addr lkey client_addr s =
     andthen (acquire LkeyOffsetL s) (\<lambda>_ s.
       (case translated (lkey_find s lkey) client_addr of
          Some addr \<Rightarrow> (Done addr, release LkeyOffsetL s)
        | None \<Rightarrow> (Killed, release LkeyOffsetL s)))"

text \<open>From the handle of a virtual queue pair to its connection, common to all three requests.\<close>

definition find_conn :: "u32 \<Rightarrow> 'w router \<Rightarrow> ptr outcome \<times> 'w router" where
  "find_conn qp_handle s =
     andthen (acquire SrcQpL s) (\<lambda>_ s.
       (case src_qp_map s qp_handle of
          None \<Rightarrow> (Killed, release SrcQpL s)
        | Some hostkey \<Rightarrow>
            andthen (acquire HostmapL (release SrcQpL s)) (\<lambda>_ s.
              (case host_map s hostkey of
                 Some conn \<Rightarrow>
                   if conn \<noteq> 0 then (Done conn, release HostmapL s)
                   else (Killed, release HostmapL s)
               | None \<Rightarrow> (Killed, release HostmapL s)))))"

section \<open>IBV_POST_SEND\<close>

definition IBV_SEND_SIGNALED :: u32 where "IBV_SEND_SIGNALED = 2"
definition IBV_WR_RDMA_WRITE :: u32 where "IBV_WR_RDMA_WRITE = 0"
definition IBV_WR_SEND :: u32 where "IBV_WR_SEND = 2"
definition IBV_WR_RDMA_READ :: u32 where "IBV_WR_RDMA_READ = 4"

record post_send_req =
  ps_qp_handle :: u32
  ps_client_addr :: u64
  ps_opcode :: s32
  ps_wr_id :: s32
  ps_lkey :: u32
  ps_length :: u64
  ps_remote_router_addr :: u64
  ps_rkey :: u32

text \<open>
  The work request: \<open>sge.length\<close> keeps the low 32 bits of the length, \<open>wr_id\<close> is an \<open>int\<close>
  extended to 64 bits.
\<close>

definition send_wr_of :: "u64 \<Rightarrow> post_send_req \<Rightarrow> ibv_send_wr" where
  "send_wr_of addr req =
     \<lparr>sr_wr_id = scast (ps_wr_id req),
      sr_sge = \<lparr>sge_addr = addr, sge_length = ucast (ps_length req), sge_lkey = ps_lkey req\<rparr>,
      sr_num_sge = 1,
      sr_opcode = ps_opcode req,
      sr_send_flags = IBV_SEND_SIGNALED,
      sr_remote_addr = (if ps_opcode req \<noteq> IBV_WR_SEND then ps_remote_router_addr req else 0),
      sr_rkey = (if ps_opcode req \<noteq> IBV_WR_SEND then ps_rkey req else 0)\<rparr>"

text \<open>
  The translated address is printed as a C string while the mutex is held, so the handler
  faults when nothing can be read there. The result is the \<open>wr_id\<close> of the response.
\<close>

definition ibv_post_send_h ::
  "'w env \<Rightarrow> ScaleReqHeader \<Rightarrow> post_send_req \<Rightarrow> 'w router \<Rightarrow> s32 outcome \<times> 'w router" where
  "ibv_post_send_h E header req s =
     andthen (translate_addr (ps_lkey req) (ps_client_addr req) s) (\<lambda>addr s.
       if \<not> e_readable E addr (world s) then (Fault, s)
       else
         andthen (find_conn (ps_qp_handle req) s) (\<lambda>conn s.
         andthen (acquire (ConnL conn) s) (\<lambda>_ s.
         andthen (read_conn conn s) (\<lambda>c s.
           let (rc, w) = e_post_send E (cr_qp c) (send_wr_of addr req) (world s);
               s = release (ConnL conn) (s\<lparr>world := w\<rparr>)
           in if rc \<noteq> 0 then (Killed, s) else (Done (rh_process_id header), s)))))"

section \<open>IBV_POST_RECV\<close>

record post_recv_req =
  pr_qp_handle :: u32
  pr_client_addr :: u64
  pr_lkey :: u32
  pr_wr_id :: s32
  pr_length :: u64

definition recv_wr_of :: "u64 \<Rightarrow> post_recv_req \<Rightarrow> ibv_recv_wr" where
  "recv_wr_of addr req =
     \<lparr>rr_wr_id = scast (pr_wr_id req),
      rr_sge = \<lparr>sge_addr = addr, sge_length = ucast (pr_length req), sge_lkey = pr_lkey req\<rparr>,
      rr_num_sge = 1\<rparr>"

definition ibv_post_recv_h ::
  "'w env \<Rightarrow> ScaleReqHeader \<Rightarrow> post_recv_req \<Rightarrow> 'w router \<Rightarrow> s32 outcome \<times> 'w router" where
  "ibv_post_recv_h E header req s =
     andthen (translate_addr (pr_lkey req) (pr_client_addr req) s) (\<lambda>addr s.
       if rr_wr_id (recv_wr_of addr req) \<noteq> scast (rh_process_id header) then (Killed, s)
       else
         andthen (find_conn (pr_qp_handle req) s) (\<lambda>conn s.
         andthen (acquire (ConnL conn) s) (\<lambda>_ s.
         andthen (read_conn conn s) (\<lambda>c s.
           let (rc, w) = e_post_recv E (cr_qp c) (recv_wr_of addr req) (world s);
               s = release (ConnL conn) (s\<lparr>world := w\<rparr>)
           in if rc \<noteq> 0 then (Killed, s) else (Done (rh_process_id header), s)))))"

section \<open>IBV_POLL_CQ\<close>

definition IBV_WC_SUCCESS :: u32 where "IBV_WC_SUCCESS = 0"

definition zero_wc :: ibv_wc where
  "zero_wc = \<lparr>wc_wr_id = 0, wc_status = 0, wc_opcode = 0, wc_vendor_err = 0\<rparr>"

record poll_cq_req =
  pc_cq_handle :: u32
  pc_qp_handle :: u32
  pc_num_entries :: s32

record poll_cq_rsp =
  pp_count :: s32
  pp_wr_id :: u64
  pp_opcode :: u32
  pp_status :: u32
  pp_vendor_err :: u32

text \<open>\<open>calloc\<close>'s array with the completions \<open>ibv_poll_cq\<close> wrote to its front.\<close>

definition wc_array :: "s32 \<Rightarrow> ibv_wc list \<Rightarrow> ibv_wc list" where
  "wc_array exp_cnt wcs = take (nat (sint exp_cnt)) (wcs @ replicate (nat (sint exp_cnt)) zero_wc)"

text \<open>
  The loop over the first \<open>poll_result\<close> elements: a bad status or a \<open>wr_id\<close> that is not the
  process id of the header leads to \<open>kill\<close>; reading past the array is a fault.
\<close>

fun check_wcs :: "s32 \<Rightarrow> nat \<Rightarrow> ibv_wc list \<Rightarrow> unit outcome" where
  "check_wcs pid 0 wc = Done ()"
| "check_wcs pid (Suc n) [] = Fault"
| "check_wcs pid (Suc n) (e # wc) =
     (if wc_status e \<noteq> IBV_WC_SUCCESS then Killed
      else if wc_wr_id e \<noteq> scast pid then Killed
      else check_wcs pid n wc)"

text \<open>
  The response describes the first element of the array, which does not exist when the
  client asked for no entries.
\<close>

definition ibv_poll_cq_h ::
  "'w env \<Rightarrow> ScaleReqHeader \<Rightarrow> poll_cq_req \<Rightarrow> 'w router \<Rightarrow> poll_cq_rsp outcome \<times> 'w router" where
  "ibv_poll_cq_h E header req s =
     andthen (find_conn (pc_qp_handle req) s) (\<lambda>conn s.
     andthen (acquire (ConnL conn) s) (\<lambda>_ s.
     andthen (read_conn conn s) (\<lambda>c s.
       let exp_cnt = pc_num_entries req;
           ((poll_result, wcs), w) = e_poll_cq E (cr_cq c) exp_cnt (world s);
           s = release (ConnL conn) (s\<lparr>world := w\<rparr>);
           wc = wc_array exp_cnt wcs in
       andthen (check_wcs (rh_process_id header) (nat poll_result) wc, s) (\<lambda>_ s.
         (case wc of
            [] \<Rightarrow> (Fault, s)
          | e # _ \<Rightarrow>
              (Done \<lparr>pp_count = word_of_int poll_result, pp_wr_id = wc_wr_id e, pp_opcode = wc_opcode e,
                 pp_status = wc_status e, pp_vendor_err = wc_vendor_err e\<rparr>, s))))))"

section \<open>What they do\<close>

lemma translate_addr_eq:
  assumes "LkeyOffsetL \<notin> held s"
  shows "translate_addr lkey addr s =
    (case lkey_find s lkey of None \<Rightarrow> (Killed, s) | Some off \<Rightarrow> (Done (addr + off), s))"
  using assms by (simp add: translate_addr_def acquire_def release_def translated_def split: option.split)

lemma find_conn_eq:
  assumes "SrcQpL \<notin> held s" "HostmapL \<notin> held s"
  shows "find_conn h s =
    (case src_qp_map s h of
       None \<Rightarrow> (Killed, s)
     | Some k \<Rightarrow> (case host_map s k of None \<Rightarrow> (Killed, s) | Some p \<Rightarrow> (if p \<noteq> 0 then Done p else Killed, s)))"
  using assms by (simp add: find_conn_def acquire_def release_def split: option.split)

text \<open>In a pool with its invariant every attached handle has a connection with a live queue pair.\<close>

lemma find_conn_attached:
  assumes inv: "pool_inv s" and free: "held s = {}" and h: "src_qp_map s h = Some k"
  obtains p c q where "find_conn h s = (Done p, s)" "host_map s k = Some p" "conn_heap s p = Some c"
    "qp_heap s (cr_qp c) = Some q" "qp_live q"
proof -
  obtain p where p: "host_map s k = Some p" using inv h unfolding pool_inv_def by blast
  obtain c q where "conn_heap s p = Some c" "qp_heap s (cr_qp c) = Some q" "qp_live q" "0 < p"
    using pool_connD [OF inv p] by blast
  then show ?thesis using free h p by (intro that) (auto simp: find_conn_eq)
qed

text \<open>
  A send on an attached queue pair goes to the queue pair of its host pair, with the address
  translated; the answer says whether \<open>ibv_post_send\<close> took it.
\<close>

lemma ibv_post_send_eq:
  assumes inv: "pool_inv s" and free: "held s = {}" and h: "src_qp_map s (ps_qp_handle req) = Some k"
    and p: "host_map s k = Some p" "conn_heap s p = Some c"
    and off: "lkey_find s (ps_lkey req) = Some off"
    and readable: "e_readable E (ps_client_addr req + off) (world s)"
    and call: "e_post_send E (cr_qp c) (send_wr_of (ps_client_addr req + off) req) (world s) = (rc, w)"
  shows "ibv_post_send_h E header req s =
    (if rc = 0 then Done (rh_process_id header) else Killed, s\<lparr>world := w\<rparr>)"
proof -
  have "p \<noteq> 0" using pool_connD [OF inv p(1)] by blast
  then have f: "find_conn (ps_qp_handle req) s = (Done p, s)" using free h p by (simp add: find_conn_eq)
  show ?thesis
    using free off readable f p call
    by (simp add: ibv_post_send_h_def translate_addr_eq acquire_def read_conn_def release_def)
qed

lemma ibv_post_recv_eq:
  assumes inv: "pool_inv s" and free: "held s = {}" and h: "src_qp_map s (pr_qp_handle req) = Some k"
    and p: "host_map s k = Some p" "conn_heap s p = Some c"
    and off: "lkey_find s (pr_lkey req) = Some off"
    and id: "pr_wr_id req = rh_process_id header"
    and call: "e_post_recv E (cr_qp c) (recv_wr_of (pr_client_addr req + off) req) (world s) = (rc, w)"
  shows "ibv_post_recv_h E header req s =
    (if rc = 0 then Done (rh_process_id header) else Killed, s\<lparr>world := w\<rparr>)"
proof -
  have "p \<noteq> 0" using pool_connD [OF inv p(1)] by blast
  then have f: "find_conn (pr_qp_handle req) s = (Done p, s)" using free h p by (simp add: find_conn_eq)
  show ?thesis
    using free off id f p call
    by (simp add: ibv_post_recv_h_def translate_addr_eq acquire_def read_conn_def release_def recv_wr_of_def)
qed

text \<open>The checks of the loop, for a library that returns no more than was asked for.\<close>

lemma check_wcs_iff:
  assumes "n \<le> length wc"
  shows "check_wcs pid n wc =
    (if \<forall>e \<in> set (take n wc). wc_status e = IBV_WC_SUCCESS \<and> wc_wr_id e = scast pid then Done () else Killed)"
  using assms by (induction pid n wc rule: check_wcs.induct) auto

lemma length_wc_array [simp]: "length (wc_array n wcs) = nat (sint n)"
  by (simp add: wc_array_def)

lemma take_wc_array: "length wcs \<le> nat (sint n) \<Longrightarrow> take (length wcs) (wc_array n wcs) = wcs"
  by (simp add: wc_array_def min_def)

text \<open>
  Polling with the library's contract (the result is the number of completions written, at
  most the number asked for): an answer only when all of them succeeded and carry the id of
  the calling process; otherwise the request is killed, and the completions, which the library
  has handed out, are lost.
\<close>

lemma ibv_poll_cq_eq:
  assumes inv: "pool_inv s" and free: "held s = {}" and h: "src_qp_map s (pc_qp_handle req) = Some k"
    and p: "host_map s k = Some p" "conn_heap s p = Some c"
    and call: "e_poll_cq E (cr_cq c) (pc_num_entries req) (world s) = ((int (length wcs), wcs), w)"
    and n: "0 < sint (pc_num_entries req)" "int (length wcs) \<le> sint (pc_num_entries req)"
  shows "ibv_poll_cq_h E header req s =
    (if \<forall>e \<in> set wcs. wc_status e = IBV_WC_SUCCESS \<and> wc_wr_id e = scast (rh_process_id header)
     then (let e = (case wcs of [] \<Rightarrow> zero_wc | e # _ \<Rightarrow> e) in
       Done \<lparr>pp_count = word_of_nat (length wcs), pp_wr_id = wc_wr_id e, pp_opcode = wc_opcode e,
         pp_status = wc_status e, pp_vendor_err = wc_vendor_err e\<rparr>)
     else Killed, s\<lparr>world := w\<rparr>)"
proof -
  have "p \<noteq> 0" using pool_connD [OF inv p(1)] by blast
  then have f: "find_conn (pc_qp_handle req) s = (Done p, s)" using free h p by (simp add: find_conn_eq)
  have le: "length wcs \<le> nat (sint (pc_num_entries req))" using n by linarith
  let ?arr = "wc_array (pc_num_entries req) wcs"
  define ok where "ok \<longleftrightarrow> (\<forall>e \<in> set wcs. wc_status e = IBV_WC_SUCCESS \<and> wc_wr_id e = scast (rh_process_id header))"
  have chk: "check_wcs (rh_process_id header) (length wcs) ?arr = (if ok then Done () else Killed)"
    using le by (simp add: check_wcs_iff take_wc_array ok_def)
  obtain j where j: "nat (sint (pc_num_entries req)) = Suc j" using n(1) by (metis gr0_implies_Suc zero_less_nat_eq)
  obtain rest where arr: "?arr = (case wcs of [] \<Rightarrow> zero_wc | e # _ \<Rightarrow> e) # rest"
    using j by (cases wcs) (simp_all add: wc_array_def)
  have st: "s\<lparr>world := w, held := {}\<rparr> = s\<lparr>world := w\<rparr>" using free by (cases s) simp
  show ?thesis
    unfolding ok_def [symmetric]
    using free f p call chk arr st
    by (cases ok) (simp_all add: ibv_poll_cq_h_def acquire_def read_conn_def release_def Let_def)
qed

text \<open>A request for no completion, or a negative number of them, reads outside the array.\<close>

lemma ibv_poll_cq_none_faults:
  assumes inv: "pool_inv s" and free: "held s = {}" and h: "src_qp_map s (pc_qp_handle req) = Some k"
    and n: "sint (pc_num_entries req) \<le> 0"
  shows "fst (ibv_poll_cq_h E header req s) = Fault"
proof -
  obtain p c q where f: "find_conn (pc_qp_handle req) s = (Done p, s)" "conn_heap s p = Some c"
    using find_conn_attached [OF inv free h] by metis
  have arr: "wc_array (pc_num_entries req) wcs = []" for wcs using n by (simp add: wc_array_def)
  have chk: "check_wcs pid m [] = (if m = 0 then Done () else Fault)" for pid m by (cases m) simp_all
  show ?thesis
    using free f
    by (simp add: ibv_poll_cq_h_def acquire_def read_conn_def release_def arr chk Let_def split: prod.split)
qed

section \<open>What the three share\<close>

text \<open>They change the world and nothing else, and leave no mutex locked.\<close>

definition only_world :: "'w router \<Rightarrow> 'w router \<Rightarrow> bool" where
  "only_world s s' \<longleftrightarrow> s\<lparr>world := world s'\<rparr> = s'"

lemma only_world_simps [simp]:
  "only_world s s" "only_world s (s\<lparr>world := w\<rparr>)"
  "held s = {} \<Longrightarrow> only_world s (s\<lparr>world := w, held := {}\<rparr>)"
  "held s = {} \<Longrightarrow> only_world s (s\<lparr>held := {}\<rparr>)"
  by (cases s; simp add: only_world_def)+

lemma only_worldD:
  assumes "only_world s s'"
  shows "pool_inv s' = pool_inv s" "held s' = held s" "lkey_offset_map s' = lkey_offset_map s"
    "src_qp_map s' = src_qp_map s" "host_map s' = host_map s" "shm_map s' = shm_map s"
    "piece_heap s' = piece_heap s" "next_ptr s' = next_ptr s"
proof -
  obtain w where "s' = s\<lparr>world := w\<rparr>" using assms unfolding only_world_def by metis
  then show "pool_inv s' = pool_inv s" "held s' = held s" "lkey_offset_map s' = lkey_offset_map s"
    "src_qp_map s' = src_qp_map s" "host_map s' = host_map s" "shm_map s' = shm_map s"
    "piece_heap s' = piece_heap s" "next_ptr s' = next_ptr s" by simp_all
qed

lemma find_conn_outcome:
  assumes inv: "pool_inv s" and free: "held s = {}"
  shows "find_conn h s = (Killed, s) \<or> (\<exists>p c. find_conn h s = (Done p, s) \<and> conn_heap s p = Some c)"
proof (cases "src_qp_map s h")
  case None
  then show ?thesis using free by (simp add: find_conn_eq)
next
  case (Some k)
  show ?thesis by (rule find_conn_attached [OF inv free Some]) blast
qed

lemma ibv_post_send_frame:
  assumes inv: "pool_inv s" and free: "held s = {}"
  shows "post (\<lambda>_. only_world s) (only_world s) (only_world s) (ibv_post_send_h E header req s)"
  using free find_conn_outcome [OF inv free, of "ps_qp_handle req"]
  by (auto simp: ibv_post_send_h_def translate_addr_eq acquire_def read_conn_def release_def Let_def
      split: option.split prod.split)

lemma ibv_post_recv_frame:
  assumes inv: "pool_inv s" and free: "held s = {}"
  shows "post (\<lambda>_. only_world s) (only_world s) (\<lambda>_. False) (ibv_post_recv_h E header req s)"
  using free find_conn_outcome [OF inv free, of "pr_qp_handle req"]
  by (auto simp: ibv_post_recv_h_def translate_addr_eq acquire_def read_conn_def release_def Let_def
      split: option.split prod.split)

lemma post_check_wcs: "post (\<lambda>_. Q) Q Q (check_wcs pid n wc, t) \<longleftrightarrow> Q t"
  by (induction pid n wc rule: check_wcs.induct) auto

lemma ibv_poll_cq_frame:
  assumes inv: "pool_inv s" and free: "held s = {}"
  shows "post (\<lambda>_. only_world s) (only_world s) (only_world s) (ibv_poll_cq_h E header req s)"
proof -
  have answer: "post (\<lambda>_. only_world s) (only_world s) (only_world s)
      (andthen (check_wcs pid n wc, t) (\<lambda>_ s'. (case wc of [] \<Rightarrow> (Fault, s') | e # _ \<Rightarrow> (Done (f e), s'))))"
    if "only_world s t" for pid n wc t and f :: "ibv_wc \<Rightarrow> poll_cq_rsp"
    unfolding post_andthen
    by (rule post_mono [OF iffD2 [OF post_check_wcs [where Q = "only_world s"] that]])
      (auto split: list.split)
  show ?thesis
    using free find_conn_outcome [OF inv free, of "pc_qp_handle req"]
    by (auto simp: ibv_poll_cq_h_def acquire_def read_conn_def release_def Let_def
        simp del: post_andthen intro!: answer split: prod.split)
qed

end
