(* ===== verification/Legacy.thy ===== *)
theory Legacy
  imports Data_Path
begin

text \<open>
  The first interface of the router, which libscale no longer calls but \<open>handle_process\<close>
  still serves: \<open>INIT_RES\<close>, \<open>CREATE_RES\<close>, \<open>REG_MR\<close>, \<open>SETUP_CONN\<close>, \<open>POST_SEND\<close>,
  \<open>POST_RECV\<close>, \<open>POLL_CQ\<close>, \<open>DEREG_MR\<close> and \<open>DESTROY_RES\<close>. Virtual connections are named
  by a \<open>ConnId\<close> and kept in \<open>conn_map\<close>. Several error paths take \<open>goto kill\<close> with a mutex
  locked; the model keeps it in \<open>held\<close>.
\<close>

section \<open>INIT_RES and CREATE_RES\<close>

definition init_res_h :: "'w router \<Rightarrow> (gid \<times> u16) outcome \<times> 'w router" where
  "init_res_h s = (Done (g_src_gid s, g_src_lid s), s)"

text \<open>The answer is the number of the physical queue pair.\<close>

definition create_res_h :: "'w env \<Rightarrow> HostKey \<Rightarrow> 'w router \<Rightarrow> u32 outcome \<times> 'w router" where
  "create_res_h E hostkey s = andthen (host_attach hostkey s) (\<lambda>a s. host_materialise E a s)"

section \<open>REG_MR and DEREG_MR\<close>

record LocalMem =
  lm_conn_id :: u64
  lm_client_addr :: u64
  lm_length :: u64
  lm_router_addr :: u64
  lm_shm_piece :: ptr
  lm_shm_name :: string
  lm_shm_fd :: s32
  lm_mr :: ptr
  lm_lkey :: u32
  lm_rkey :: u32

text \<open>A request that names a segment gets none, and is killed.\<close>

definition reg_mr_h ::
  "'w env \<Rightarrow> ScaleReqHeader \<Rightarrow> LocalMem \<Rightarrow> 'w router \<Rightarrow> LocalMem outcome \<times> 'w router" where
  "reg_mr_h E header local_mem s =
     (let mr_flags = IBV_ACCESS_LOCAL_WRITE OR IBV_ACCESS_REMOTE_READ OR IBV_ACCESS_REMOTE_WRITE in
      andthen
        (if lm_shm_name local_mem = []
         then addShmPiece E (rh_process_id header) (ucast (lm_length local_mem)) s
         else (Done 0, s))
        (\<lambda>sp s.
          if sp = 0 then (Killed, s)
          else (case piece_heap s sp of
            None \<Rightarrow> (Fault, s)
          | Some piece \<Rightarrow>
              (let mr = next_ptr s;
                   (m, w) = e_reg_mr E mr (sp_ptr piece) (sp_size piece) mr_flags (world s);
                   s = s\<lparr>world := w\<rparr> in
               case m of
                 None \<Rightarrow> (Killed, s)
               | Some m \<Rightarrow>
                   (Done (local_mem\<lparr>lm_router_addr := sp_ptr piece, lm_shm_piece := sp,
                      lm_shm_name := sp_name piece, lm_mr := mr, lm_lkey := mr_lkey m,
                      lm_rkey := mr_rkey m\<rparr>), s\<lparr>next_ptr := Suc mr\<rparr>)))))"

text \<open>The piece is taken from a pointer in the request; its name is removed, its memory is not.\<close>

definition dereg_mr_h :: "'w env \<Rightarrow> LocalMem \<Rightarrow> 'w router \<Rightarrow> LocalMem outcome \<times> 'w router" where
  "dereg_mr_h E local_mem s =
     (let (rc, w) = e_dereg_mr E (lm_mr local_mem) (world s); s = s\<lparr>world := w\<rparr> in
      if rc \<noteq> 0 then (Killed, s)
      else (case piece_heap s (lm_shm_piece local_mem) of
        None \<Rightarrow> (Fault, s)
      | Some piece \<Rightarrow>
          (Done \<lparr>lm_conn_id = 0, lm_client_addr = 0, lm_length = 0, lm_router_addr = 0,
             lm_shm_piece = 0, lm_shm_name = [], lm_shm_fd = 0, lm_mr = 0, lm_lkey = 0, lm_rkey = 0\<rparr>,
           s\<lparr>world := ShmPiece_remove E piece (world s)\<rparr>)))"

section \<open>SETUP_CONN\<close>

text \<open>
  The answer: the process id, and the status 4 when the queue pair is in RTS; otherwise
  (\<open>None\<close>) the byte of the response buffer is left as it is.
\<close>

definition setup_conn_h ::
  "'w env \<Rightarrow> ScaleReqHeader \<Rightarrow> ConnInfo \<Rightarrow> 'w router \<Rightarrow> (s32 \<times> u8 option) outcome \<times> 'w router" where
  "setup_conn_h E header conn_info s =
     andthen (acquire HostmapL s) (\<lambda>_ s.
       (case host_map s (host_key (conn_key (conn_id conn_info))) of
          None \<Rightarrow> (Killed, s)
        | Some conn \<Rightarrow>
            if conn = 0 then (Killed, s)
            else
              andthen (acquire (ConnL conn) (release HostmapL s)) (\<lambda>_ s.
              andthen (read_conn conn s) (\<lambda>res s.
                let (res, s) =
                      (if cr_status res = 0 then
                         (let (rc, w) = modify_qp_to_ready E (config s) conn_info res (world s);
                              s = s\<lparr>world := w\<rparr> in
                          if rc \<noteq> 0 then (res, s)
                          else (res\<lparr>cr_status := 4\<rparr>, write_conn conn (res\<lparr>cr_status := 4\<rparr>) s))
                       else (res, s));
                    ready_flag = cr_status res = 4;
                    s = release (ConnL conn) s;
                    cid = (conn_id conn_info)\<lparr>process_id := rh_process_id header\<rparr> in
                andthen (acquire ConnmapL s) (\<lambda>_ s.
                  (case conn_map s cid of
                     Some _ \<Rightarrow> (Killed, s)
                   | None \<Rightarrow>
                       (Done (rh_process_id header, if ready_flag then Some 4 else None),
                        release ConnmapL (s\<lparr>conn_map := (conn_map s)(cid \<mapsto> conn)\<rparr>))))))))"

section \<open>POST_SEND, POST_RECV and POLL_CQ\<close>

definition find_conn_by_id :: "ConnId \<Rightarrow> 'w router \<Rightarrow> ptr outcome \<times> 'w router" where
  "find_conn_by_id cid s =
     andthen (acquire ConnmapL s) (\<lambda>_ s.
       (case conn_map s cid of
          Some conn \<Rightarrow> if conn \<noteq> 0 then (Done conn, release ConnmapL s) else (Killed, s)
        | None \<Rightarrow> (Killed, s)))"

record POST_REQ =
  lp_conn_id :: ConnId
  lp_wr_id :: s32
  lp_local_addr :: u64
  lp_length :: u64
  lp_lkey :: u32
  lp_opcode :: s32
  lp_remote_addr :: u64
  lp_rkey :: u32

definition legacy_send_wr :: "POST_REQ \<Rightarrow> ibv_send_wr" where
  "legacy_send_wr req =
     \<lparr>sr_wr_id = scast (lp_wr_id req),
      sr_sge = \<lparr>sge_addr = lp_local_addr req, sge_length = ucast (lp_length req), sge_lkey = lp_lkey req\<rparr>,
      sr_num_sge = 1,
      sr_opcode = lp_opcode req,
      sr_send_flags = IBV_SEND_SIGNALED,
      sr_remote_addr = (if lp_opcode req \<noteq> IBV_WR_SEND then lp_remote_addr req else 0),
      sr_rkey = (if lp_opcode req \<noteq> IBV_WR_SEND then lp_rkey req else 0)\<rparr>"

definition post_send_h ::
  "'w env \<Rightarrow> ScaleReqHeader \<Rightarrow> POST_REQ \<Rightarrow> 'w router \<Rightarrow> s32 outcome \<times> 'w router" where
  "post_send_h E header req s =
     (if sr_wr_id (legacy_send_wr req) \<noteq> scast (rh_process_id header) then (Killed, s)
      else
        andthen (find_conn_by_id (lp_conn_id req) s) (\<lambda>conn s.
        andthen (acquire (ConnL conn) s) (\<lambda>_ s.
        andthen (read_conn conn s) (\<lambda>c s.
          let (rc, w) = e_post_send E (cr_qp c) (legacy_send_wr req) (world s); s = s\<lparr>world := w\<rparr> in
          if rc \<noteq> 0 then (Killed, s)
          else (Done (rh_process_id header), release (ConnL conn) s)))))"

text \<open>A receive request has no opcode and no remote side.\<close>

definition legacy_recv_wr :: "POST_REQ \<Rightarrow> ibv_recv_wr" where
  "legacy_recv_wr req =
     \<lparr>rr_wr_id = scast (lp_wr_id req),
      rr_sge = \<lparr>sge_addr = lp_local_addr req, sge_length = ucast (lp_length req), sge_lkey = lp_lkey req\<rparr>,
      rr_num_sge = 1\<rparr>"

definition post_recv_h ::
  "'w env \<Rightarrow> ScaleReqHeader \<Rightarrow> POST_REQ \<Rightarrow> 'w router \<Rightarrow> s32 outcome \<times> 'w router" where
  "post_recv_h E header req s =
     (if rr_wr_id (legacy_recv_wr req) \<noteq> scast (rh_process_id header) then (Killed, s)
      else
        andthen (find_conn_by_id (lp_conn_id req) s) (\<lambda>conn s.
        andthen (acquire (ConnL conn) s) (\<lambda>_ s.
        andthen (read_conn conn s) (\<lambda>c s.
          let (rc, w) = e_post_recv E (cr_qp c) (legacy_recv_wr req) (world s); s = s\<lparr>world := w\<rparr> in
          if rc \<noteq> 0 then (Killed, s)
          else (Done (rh_process_id header), release (ConnL conn) s)))))"

definition poll_cq_h ::
  "'w env \<Rightarrow> ScaleReqHeader \<Rightarrow> ConnId \<Rightarrow> s32 \<Rightarrow> 'w router \<Rightarrow> (s32 \<times> s32) outcome \<times> 'w router" where
  "poll_cq_h E header cid exp_cnt s =
     andthen (find_conn_by_id cid s) (\<lambda>conn s.
     andthen (acquire (ConnL conn) s) (\<lambda>_ s.
     andthen (read_conn conn s) (\<lambda>c s.
       let ((poll_result, wcs), w) = e_poll_cq E (cr_cq c) exp_cnt (world s);
           s = release (ConnL conn) (s\<lparr>world := w\<rparr>) in
       andthen (check_wcs (rh_process_id header) (nat poll_result) (wc_array exp_cnt wcs), s) (\<lambda>_ s.
         (Done (rh_process_id header, word_of_int poll_result), s)))))"

section \<open>DESTROY_RES\<close>

text \<open>
  The reference to the host pair is dropped whether or not the \<open>ConnId\<close> was in \<open>conn_map\<close>.
\<close>

definition destroy_res_h :: "'w env \<Rightarrow> ConnId \<Rightarrow> 'w router \<Rightarrow> ConnId outcome \<times> 'w router" where
  "destroy_res_h E cid s =
     andthen (acquire ConnmapL s) (\<lambda>_ s.
       let s = release ConnmapL (s\<lparr>conn_map := (conn_map s)(cid := None)\<rparr>);
           rsp = cid\<lparr>conn_key := (conn_key cid)\<lparr>src_qpn := 0, dst_qpn := 0\<rparr>\<rparr> in
       andthen (acquire HostmapL s) (\<lambda>_ s.
         (case host_map s (host_key (conn_key cid)) of
            None \<Rightarrow> (Done rsp, release HostmapL s)
          | Some conn \<Rightarrow>
              if conn = 0 then (Killed, s)
              else
                andthen (read_conn conn s) (\<lambda>c s.
                  let c = c\<lparr>cr_ref_cnt := cr_ref_cnt c - 1\<rparr>;
                      s = write_conn conn c s in
                  if cr_ref_cnt c \<le> 0 then
                    andthen (acquire (ConnL conn) (release HostmapL
                        (s\<lparr>host_map := (host_map s)(host_key (conn_key cid) := None)\<rparr>))) (\<lambda>_ s.
                      let (_, c, s) = resources_destroy E c s;
                          s = release (ConnL conn) (write_conn conn c s)
                      in (Done rsp, s\<lparr>conn_heap := (conn_heap s)(conn := None)\<rparr>))
                  else (Done rsp, release HostmapL s)))))"

section \<open>Mutexes that stay locked\<close>

text \<open>A setup for an unknown host pair leaves \<open>hostmap_lock\<close> locked.\<close>

lemma setup_conn_unknown_host:
  assumes "HostmapL \<notin> held s" and "host_map s (host_key (conn_key (conn_id ci))) = None"
  shows "setup_conn_h E header ci s = (Killed, s\<lparr>held := insert HostmapL (held s)\<rparr>)"
  using assms by (simp add: setup_conn_h_def acquire_def)

text \<open>From then on nobody attaches, destroys or uses a queue pair.\<close>

lemma hostmap_locked_blocks:
  assumes "HostmapL \<in> held s" and "ConnL (next_ptr s) \<notin> held s"
  shows "fst (create_res_h E hk s) = Blocked HostmapL"
    and "fst (setup_conn_h E header ci s) = Blocked HostmapL"
    and "fst (ibv_modify_qp_h E header mreq arrivals s) = Blocked HostmapL"
    and "SrcQpL \<notin> held s \<Longrightarrow> src_qp_map s h = Some k \<Longrightarrow> fst (find_conn h s) = Blocked HostmapL"
  using assms
  by (simp_all add: create_res_h_def setup_conn_h_def ibv_modify_qp_h_def modify_qp_begin_def
      host_attach_def find_conn_def acquire_def release_def write_conn_def Let_def)

text \<open>A post for an unknown \<open>ConnId\<close> leaves \<open>connmap_lock\<close> locked, so every later one waits.\<close>

lemma post_send_unknown_conn:
  assumes "ConnmapL \<notin> held s" and "conn_map s (lp_conn_id req) = None"
    and "lp_wr_id req = rh_process_id header"
  shows "post_send_h E header req s = (Killed, s\<lparr>held := insert ConnmapL (held s)\<rparr>)"
  using assms by (simp add: post_send_h_def find_conn_by_id_def acquire_def legacy_send_wr_def)

lemma connmap_locked_blocks:
  assumes "ConnmapL \<in> held s"
  shows "fst (find_conn_by_id cid s) = Blocked ConnmapL"
    and "fst (poll_cq_h E header cid n s) = Blocked ConnmapL"
    and "fst (destroy_res_h E cid s) = Blocked ConnmapL"
  using assms by (simp_all add: find_conn_by_id_def poll_cq_h_def destroy_res_h_def acquire_def)

text \<open>A work request the library refuses leaves the connection's own mutex locked.\<close>

lemma post_send_refused:
  assumes free: "held s = {}" and p: "conn_map s (lp_conn_id req) = Some p" "p \<noteq> 0" "conn_heap s p = Some c"
    and wid: "lp_wr_id req = rh_process_id header"
    and call: "e_post_send E (cr_qp c) (legacy_send_wr req) (world s) = (rc, w)" "rc \<noteq> 0"
  shows "post_send_h E header req s = (Killed, s\<lparr>held := {ConnL p}, world := w\<rparr>)"
  using assms
  by (simp add: post_send_h_def find_conn_by_id_def acquire_def release_def read_conn_def legacy_send_wr_def)

section \<open>Creating and destroying\<close>

text \<open>Dropping the last reference frees the connection and forgets the host pair.\<close>

lemma destroy_res_last:
  assumes free: "held s = {}" and p: "host_map s (host_key (conn_key cid)) = Some p" "p \<noteq> 0" "conn_heap s p = Some c"
    and one: "cr_ref_cnt c = 1"
  shows "\<exists>rsp q w. destroy_res_h E cid s = (Done rsp,
     s\<lparr>conn_map := (conn_map s)(cid := None), host_map := (host_map s)(host_key (conn_key cid) := None),
       conn_heap := (conn_heap s)(p := None), qp_heap := q, world := w\<rparr>)"
proof -
  let ?c = "c\<lparr>cr_ref_cnt := 0\<rparr>"
  let ?t = "s\<lparr>conn_map := (conn_map s)(cid := None), conn_heap := (conn_heap s)(p \<mapsto> ?c),
      host_map := (host_map s)(host_key (conn_key cid) := None), held := {ConnL p}\<rparr>"
  obtain rc c2 s3 where d: "resources_destroy E ?c ?t = (rc, c2, s3)" by (metis prod_cases3)
  obtain q w where s3: "s3 = ?t\<lparr>qp_heap := q, world := w\<rparr>"
    using resources_destroy_frame [OF d] by blast
  have "destroy_res_h E cid s =
      (Done (cid\<lparr>conn_key := (conn_key cid)\<lparr>src_qpn := 0, dst_qpn := 0\<rparr>\<rparr>),
       release (ConnL p) (write_conn p c2 s3)\<lparr>conn_heap := (conn_heap s)(p := None)\<rparr>)"
    using p free one d
    by (simp add: destroy_res_h_def s3 acquire_def release_def read_conn_def write_conn_def Let_def)
  moreover have "release (ConnL p) (write_conn p c2 s3)\<lparr>conn_heap := (conn_heap s)(p := None)\<rparr> =
     s\<lparr>conn_map := (conn_map s)(cid := None), host_map := (host_map s)(host_key (conn_key cid) := None),
       conn_heap := (conn_heap s)(p := None), qp_heap := q, world := w\<rparr>"
    using free by (cases s) (simp add: s3 write_conn_def release_def)
  ultimately show ?thesis by metis
qed

text \<open>
  Creating on a host pair that has no connection and destroying at once is balanced: no host
  pair and no connection is left, and no mutex.
\<close>

lemma create_destroy_res:
  assumes inv: "pool_inv s" and free: "held s = {}" and k: "host_map s (host_key (conn_key cid)) = None"
    and cr: "create_res_h E (host_key (conn_key cid)) s = (Done n, s1)"
  shows "\<exists>rsp s2. destroy_res_h E cid s1 = (Done rsp, s2)
     \<and> host_map s2 = host_map s \<and> conn_heap s2 = conn_heap s \<and> held s2 = {} \<and> src_qp_map s2 = src_qp_map s
     \<and> conn_map s2 = (conn_map s)(cid := None)"
proof -
  let ?k = "host_key (conn_key cid)" and ?p = "next_ptr s"
  let ?c = "zero_conn\<lparr>cr_ref_cnt := 1, cr_cq := ?p + 1, cr_qp := ?p + 2\<rparr>"
  have f: "HostmapL \<notin> held s" "ConnL (next_ptr s) \<notin> held s" using free by simp_all
  have p0: "0 < ?p" "conn_heap s ?p = None" using inv by (auto dest: pool_next_ptr)
  have s1: "held s1 = {}" "host_map s1 = (host_map s)(?k \<mapsto> ?p)" "conn_heap s1 = (conn_heap s)(?p \<mapsto> ?c)"
    "src_qp_map s1 = src_qp_map s" "conn_map s1 = conn_map s"
  proof (atomize (full), rule attach_new [OF inv k f, of E], goal_cases)
    case (1 n' w)
    from trans [OF sym [OF cr [unfolded create_res_h_def]] 1] show ?case using free by simp
  next
    case (2 s')
    then show ?case using cr by (simp add: create_res_h_def)
  qed
  have "host_map s1 ?k = Some ?p" "conn_heap s1 ?p = Some ?c" "?p \<noteq> 0" "cr_ref_cnt ?c = 1"
    using s1 p0 by simp_all
  from destroy_res_last [OF s1(1) this(1,3,2,4)]
  show ?thesis using s1 k p0 by (fastforce simp: fun_upd_idem)
qed

end
