(* ===== verification/Qp_Props.thy ===== *)
theory Qp_Props
  imports Qp_Pool
begin

text \<open>
  What the queue pair handlers do: for every branch the state they leave, the mutexes they
  free, and that they keep the pool invariant.
\<close>

section \<open>IBV_MODIFY_QP\<close>

definition modify_key :: "'w router \<Rightarrow> modify_qp_req \<Rightarrow> HostKey" where
  "modify_key s req = \<lparr>src_gid = g_src_gid s, dst_gid = take 16 (mq_dst_gid req)\<rparr>"


lemma post_announce:
  assumes "SrcQpL \<notin> held s"
  shows "post Q K F (modify_qp_announce E req k n s) \<longleftrightarrow>
    (let (rc, w) = update_dst_router E INSERT (g_src_gid s) (mq_dst_v_qp_num req) n (world s);
         s' = s\<lparr>src_qp_map := (src_qp_map s)(mq_src_v_qp_handle req \<mapsto> k), world := w\<rparr>
     in if rc = -1 then K s' else Q (k, n) s')"
  using assms
  by (simp add: modify_qp_announce_def acquire_def release_def Let_def split: prod.split)

text \<open>
  Up to the waiting loop, for a virtual queue pair that is not attached yet: the invariant is
  kept whether the other router could be told or not, no mutex stays locked, and the only way
  to fault is that the host pair had no connection and its resources could not be created.
\<close>

lemma modify_qp_begin_pool:
  assumes inv: "pool_inv s" and free: "held s = {}"
    and h: "src_qp_map s (mq_src_v_qp_handle req) = None"
    and room: "card (dom (src_qp_map s)) < 2 ^ 32 - 1"
  shows "post
     (\<lambda>(k, n) s'. pool_inv s' \<and> held s' = {} \<and> k = modify_key s req
        \<and> src_qp_map s' = (src_qp_map s)(mq_src_v_qp_handle req \<mapsto> k)
        \<and> dst_qp_map s' = dst_qp_map s
        \<and> (\<exists>p c q. host_map s' k = Some p \<and> conn_heap s' p = Some c
             \<and> qp_heap s' (cr_qp c) = Some q \<and> n = qp_num q))
     (\<lambda>s'. pool_inv s' \<and> held s' = {}
        \<and> src_qp_map s' = (src_qp_map s)(mq_src_v_qp_handle req \<mapsto> modify_key s req))
     (\<lambda>s'. host_map s (modify_key s req) = None)
     (modify_qp_begin E req s)"
proof -
  let ?k = "modify_key s req" and ?h = "mq_src_v_qp_handle req"
  have eq: "modify_qp_begin E req s = andthen (andthen (host_attach ?k s) (host_materialise E))
      (\<lambda>n s'. modify_qp_announce E req ?k n s')"
    by (simp add: modify_qp_begin_def modify_key_def andthen_assoc Let_def)
  show ?thesis
  proof (cases "host_map s ?k")
    case (Some p)
    obtain c q where c: "conn_heap s p = Some c" "qp_heap s (cr_qp c) = Some q"
      using pool_connD [OF inv Some] by blast
    show ?thesis
      using attach_existing [OF inv Some _ _ c, of E] attach_existing_inv [OF inv Some c(1) h room]
        free Some c
      by (simp add: eq post_announce split: prod.split)
  next
    case None
    show ?thesis
    proof (rule attach_new [OF inv None, of E], goal_cases)
      case (3 n w)
      then show ?case using free
        by (simp add: eq post_announce attach_new_inv [OF inv None h, simplified] split: prod.split)
    qed (use free None in \<open>simp_all add: eq\<close>)
  qed
qed

text \<open>
  The loop, as a function of the messages that arrive: it returns the first number that
  \<open>dst_qp_map\<close> has for the destination, before the first message or after one of them.
\<close>

fun awaited :: "gid \<Rightarrow> info list \<Rightarrow> (gid \<rightharpoonup> u32) \<Rightarrow> u32 option" where
  "awaited g [] f = f g"
| "awaited g (m # ms) f = (case f g of Some n \<Rightarrow> Some n | None \<Rightarrow> awaited g ms (apply_info m f))"

lemma dst_wait_awaited:
  assumes "DstQpL \<notin> held s"
  shows "\<exists>d w. dst_wait E gid arrivals s =
    (Done (awaited (take 16 gid) (map snd arrivals) (dst_qp_map s)), s\<lparr>dst_qp_map := d, world := w\<rparr>)"
  using assms
proof (induction arrivals arbitrary: s)
  case Nil
  have "dst_wait E gid [] s = (Done (dst_qp_map s (take 16 gid)), s)"
    using Nil by (simp add: dst_lookup_def acquire_def release_def)
  then show ?case by (auto intro!: exI [of _ "dst_qp_map s"] exI [of _ "world s"])
next
  case (Cons a arrivals)
  obtain fd m where a: "a = (fd, m)" by fastforce
  have look: "dst_lookup gid s = (Done (dst_qp_map s (take 16 gid)), s)"
    using Cons.prems by (simp add: dst_lookup_def acquire_def release_def)
  show ?case
  proof (cases "dst_qp_map s (take 16 gid)")
    case (Some n)
    then show ?thesis using look a
      by (auto intro!: exI [of _ "dst_qp_map s"] exI [of _ "world s"])
  next
    case None
    let ?s = "s\<lparr>dst_qp_map := apply_info m (dst_qp_map s), world := snd (e_close E fd (world s))\<rparr>"
    have "DstQpL \<notin> held ?s" using Cons.prems by simp
    from Cons.IH [OF this] show ?thesis using look a None Cons.prems
      by (auto simp: handle_remote_router_step)
  qed
qed

text \<open>The loop ends as soon as a message for the destination has arrived, and only then.\<close>

lemma awaited_insert:
  assumes "m \<in> set ms" and "info_op m = INSERT" and "info_gid m = g"
  shows "awaited g ms f \<noteq> None"
  using assms
proof (induction ms arbitrary: f)
  case (Cons m' ms)
  show ?case
  proof (cases "m = m'")
    case True
    have "awaited g ms f' \<noteq> None" if "f' g \<noteq> None" for f'
      using that by (cases ms) auto
    then show ?thesis using True Cons.prems by (auto simp: apply_info_def split: option.split)
  next
    case False
    then show ?thesis using Cons by (auto split: option.split)
  qed
qed simp

lemma awaited_none:
  assumes "f g = None" and "\<And>m. m \<in> set ms \<Longrightarrow> info_gid m = g \<Longrightarrow> info_op m = DELETE"
  shows "awaited g ms f = None"
  using assms
proof (induction ms arbitrary: f)
  case (Cons m ms)
  have "apply_info m f g = None" using Cons.prems
    by (cases "info_gid m = g") (auto simp: apply_info_def split: OPERATION.split)
  then show ?case using Cons by auto
qed simp

lemma awaited_iff:
  "awaited g ms f \<noteq> None \<longleftrightarrow> f g \<noteq> None \<or> (\<exists>m \<in> set ms. info_op m = INSERT \<and> info_gid m = g)"
proof (cases "f g")
  case None
  have "awaited g ms f = None" if "\<not> (\<exists>m \<in> set ms. info_op m = INSERT \<and> info_gid m = g)"
    by (rule awaited_none [where f = f, OF None]) (metis that OPERATION.exhaust)
  then have "awaited g ms f \<noteq> None \<Longrightarrow> \<exists>m \<in> set ms. info_op m = INSERT \<and> info_gid m = g" by metis
  moreover have "\<exists>m \<in> set ms. info_op m = INSERT \<and> info_gid m = g \<Longrightarrow> awaited g ms f \<noteq> None"
    using awaited_insert [of _ ms g f] by auto
  ultimately show ?thesis using None by argo
next
  case (Some n)
  then show ?thesis by (cases ms) auto
qed

text \<open>Changing the status of a connection keeps the invariant.\<close>

lemma pool_inv_status:
  assumes "pool_inv s" and "conn_heap s p = Some c" and "cr_qp c' = cr_qp c" "cr_ref_cnt c' = cr_ref_cnt c"
  shows "pool_inv (s\<lparr>conn_heap := (conn_heap s)(p \<mapsto> c')\<rparr>)"
proof -
  have "conn_ok (s\<lparr>conn_heap := (conn_heap s)(p \<mapsto> c')\<rparr>) k p'" if "conn_ok s k p'" for k p'
    using that assms(2-4) by (auto simp: conn_ok_def attached_def)
  moreover have "no_sharing (s\<lparr>conn_heap := (conn_heap s)(p \<mapsto> c')\<rparr>)"
    using assms unfolding pool_inv_def no_sharing_def by (auto split: if_splits)
  moreover have "heap_ok (s\<lparr>conn_heap := (conn_heap s)(p \<mapsto> c')\<rparr>)"
    using assms(1,2) by (auto simp: pool_inv_def heap_ok_def)
  ultimately show ?thesis using assms(1) by (simp add: pool_inv_def)
qed

definition qp_conninfo :: "'w router \<Rightarrow> ScaleReqHeader \<Rightarrow> modify_qp_req \<Rightarrow> u32 \<Rightarrow> u32 \<Rightarrow> ConnInfo" where
  "qp_conninfo s header req phy dst_phy =
     \<lparr>conn_id = \<lparr>conn_key = \<lparr>host_key = modify_key s req, src_qpn = phy, dst_qpn = dst_phy\<rparr>,
        process_id = rh_process_id header\<rparr>, host_lid = \<lparr>src_lid = 0, dst_lid = mq_dst_lid req\<rparr>\<rparr>"

text \<open>
  After the loop the connection is found, and its status after the call says whether the
  queue pair is in RTS; a queue pair that is there already is not touched.
\<close>

lemma modify_qp_finish_eq:
  assumes free: "HostmapL \<notin> held s" "ConnL p \<notin> held s"
    and p: "host_map s k = Some p" "p \<noteq> 0" "conn_heap s p = Some c"
    and ready: "modify_qp_to_ready E (config s) (qp_conninfo s header req phy dst_phy) c (world s) = (rc, w)"
  shows "modify_qp_finish E header req k phy dst_phy s =
    (if cr_status c \<noteq> 0 then (Done (if cr_status c = 4 then 1 else 0), s)
     else if rc = 0 then
       (Done 1, s\<lparr>conn_heap := (conn_heap s)(p \<mapsto> c\<lparr>cr_status := 4\<rparr>), world := w\<rparr>)
     else (Done 0, s\<lparr>world := w\<rparr>))"
  using free p ready
  by (simp add: modify_qp_finish_def qp_conninfo_def modify_key_def acquire_def read_conn_def
      release_def write_conn_def Let_def split: prod.split)

lemma modify_qp_finish_pool:
  assumes inv: "pool_inv s" and free: "held s = {}" and k: "host_map s k = Some p"
  shows "post (\<lambda>flag s'. pool_inv s' \<and> held s' = {} \<and> src_qp_map s' = src_qp_map s \<and> host_map s' = host_map s)
     (\<lambda>_. False) (\<lambda>_. False) (modify_qp_finish E header req k phy dst_phy s)"
proof -
  obtain c where c: "conn_heap s p = Some c" and p: "p \<noteq> 0"
    using pool_connD [OF inv k] by blast
  obtain rc w where r: "modify_qp_to_ready E (config s) (qp_conninfo s header req phy dst_phy) c (world s) = (rc, w)"
    by fastforce
  show ?thesis
    using free inv pool_inv_status [OF inv c, of "c\<lparr>cr_status := 4\<rparr>"]
    by (simp add: modify_qp_finish_eq [OF _ _ k p c r])
qed

text \<open>The whole case: nothing is broken and nothing stays locked.\<close>

lemma ibv_modify_qp_pool:
  assumes inv: "pool_inv s" and free: "held s = {}"
    and h: "src_qp_map s (mq_src_v_qp_handle req) = None"
    and room: "card (dom (src_qp_map s)) < 2 ^ 32 - 1"
  shows "post
     (\<lambda>_ s'. pool_inv s' \<and> held s' = {}
        \<and> src_qp_map s' = (src_qp_map s)(mq_src_v_qp_handle req \<mapsto> modify_key s req))
     (\<lambda>s'. pool_inv s' \<and> held s' = {}
        \<and> src_qp_map s' = (src_qp_map s)(mq_src_v_qp_handle req \<mapsto> modify_key s req))
     (\<lambda>s'. host_map s (modify_key s req) = None) (ibv_modify_qp_h E header req arrivals s)"
  unfolding ibv_modify_qp_h_def post_andthen
proof (rule post_mono [OF modify_qp_begin_pool [OF inv free h room]], goal_cases)
  case (1 a s1)
  obtain k n where a: "a = (k, n)" by fastforce
  with 1 obtain p where s1: "pool_inv s1" "held s1 = {}" "host_map s1 k = Some p" by auto
  obtain d w where wait: "dst_wait E (mq_dst_gid req) arrivals s1 =
      (Done (awaited (take 16 (mq_dst_gid req)) (map snd arrivals) (dst_qp_map s1)),
       s1\<lparr>dst_qp_map := d, world := w\<rparr>)"
    using dst_wait_awaited [of s1] s1(2) by fastforce
  let ?s2 = "s1\<lparr>dst_qp_map := d, world := w\<rparr>"
  let ?m = "(src_qp_map s)(mq_src_v_qp_handle req \<mapsto> modify_key s req)"
  have m: "src_qp_map s1 = ?m" using 1 a by simp
  have fin: "post (\<lambda>_ s'. pool_inv s' \<and> held s' = {} \<and> src_qp_map s' = ?m)
      (\<lambda>s'. pool_inv s' \<and> held s' = {} \<and> src_qp_map s' = ?m)
      (\<lambda>s'. host_map s (modify_key s req) = None) (modify_qp_finish E header req k n m ?s2)" for m
    by (rule post_mono [OF modify_qp_finish_pool [of ?s2 k p]]) (use s1 m in auto)
  show ?case using fin s1 m by (simp add: a wait split: option.split)
qed auto

end
