(* ===== verification/Qp_Destroy.thy ===== *)
theory Qp_Destroy
  imports Qp_Props
begin

text \<open>
  The branches of \<open>IBV_DESTROY_QP\<close>: what each leaves behind and that it keeps the pool.
\<close>

section \<open>IBV_DESTROY_QP\<close>

text \<open>A handle that is not attached: nothing happens and the answer is 0.\<close>

lemma destroy_qp_unknown:
  assumes "held s = {}" and "src_qp_map s (dq_qp_handle req) = None"
  shows "ibv_destroy_qp_h E req s = (Done 0, s)"
  using assms by (simp add: ibv_destroy_qp_h_def acquire_def release_def)

lemma attached_delete:
  "{h'. ((src_qp_map s)(h := None)) h' = Some k} = attached s k - {h}"
  by (auto simp: attached_def)

text \<open>Others are attached to the same host pair: the count goes down by one, no more.\<close>

lemma destroy_qp_shared:
  assumes inv: "pool_inv s" and free: "held s = {}"
    and h: "src_qp_map s (dq_qp_handle req) = Some k" and p: "host_map s k = Some p" "conn_heap s p = Some c"
    and others: "attached s k \<noteq> {dq_qp_handle req}"
  shows "ibv_destroy_qp_h E req s =
      (Done 1, s\<lparr>src_qp_map := (src_qp_map s)(dq_qp_handle req := None),
         conn_heap := (conn_heap s)(p \<mapsto> c\<lparr>cr_ref_cnt := cr_ref_cnt c - 1\<rparr>)\<rparr>)"
    and "unat (cr_ref_cnt c - 1) = card (attached s k - {dq_qp_handle req})"
    and "attached s k - {dq_qp_handle req} \<noteq> {}"
proof -
  have mem: "dq_qp_handle req \<in> attached s k" using h by (simp add: attached_def)
  then show ne: "attached s k - {dq_qp_handle req} \<noteq> {}" using others by blast
  have cnt: "unat (cr_ref_cnt c) = card (attached s k)" and p0: "p \<noteq> 0"
    using pool_connD [OF inv p(1)] p(2) by (metis option.inject, blast)
  have one: "cr_ref_cnt c \<noteq> 0" using cnt mem by (metis card_0_eq emptyE finite_attached unat_0)
  then show ref: "unat (cr_ref_cnt c - 1) = card (attached s k - {dq_qp_handle req})"
    using cnt mem by (simp add: unat_minus_one)
  then have "cr_ref_cnt c - 1 \<noteq> 0" using ne
    by (metis card_0_eq finite_Diff finite_attached unat_0)
  then show "ibv_destroy_qp_h E req s =
      (Done 1, s\<lparr>src_qp_map := (src_qp_map s)(dq_qp_handle req := None),
         conn_heap := (conn_heap s)(p \<mapsto> c\<lparr>cr_ref_cnt := cr_ref_cnt c - 1\<rparr>)\<rparr>)"
    using free h p p0 by (simp add: ibv_destroy_qp_h_def acquire_def release_def read_conn_def write_conn_def Let_def)
qed

text \<open>
  The last one: the host pair leaves \<open>host_map\<close>, the connection is freed, and the queue
  pair number sent to the other router is the one of the queue pair just destroyed, read
  through the freed object when \<open>ibv_destroy_qp\<close> has succeeded.
\<close>

lemma destroy_qp_last:
  assumes inv: "pool_inv s" and free: "held s = {}"
    and h: "src_qp_map s (dq_qp_handle req) = Some k" and p: "host_map s k = Some p" "conn_heap s p = Some c"
    and q: "qp_heap s (cr_qp c) = Some q"
    and last: "attached s k = {dq_qp_handle req}"
  obtains rc :: int and q' w fr where
    "ibv_destroy_qp_h E req s =
      (Done (if rc \<noteq> 0 then 0 else 1),
       s\<lparr>src_qp_map := (src_qp_map s)(dq_qp_handle req := None), host_map := (host_map s)(k := None),
         conn_heap := (conn_heap s)(p := None), qp_heap := q',
         freed_reads := fr, world := w\<rparr>)"
    and "\<And>p'. p' \<noteq> cr_qp c \<Longrightarrow> q' p' = qp_heap s p'"
    and "rc = 0 \<longrightarrow> q' (cr_qp c) = Some (q\<lparr>qp_live := False\<rparr>) \<and> fr = Suc (freed_reads s)"
    and "map_option qp_num (q' (cr_qp c)) = Some (qp_num q)"
proof -
  have p0: "p \<noteq> 0" "cr_qp c \<noteq> 0" and cnt: "unat (cr_ref_cnt c) = 1"
    using pool_connD [OF inv p(1)] p(2) last by (metis less_irrefl option.inject, metis less_irrefl option.inject,
      metis One_nat_def card.empty card_insert_disjoint empty_iff finite.emptyI option.inject)
  have ref: "cr_ref_cnt c - 1 = 0" using cnt by (metis diff_self unat_1 word_unat_eq_iff)
  let ?c = "c\<lparr>cr_ref_cnt := cr_ref_cnt c - 1\<rparr>"
  let ?s1 = "s\<lparr>src_qp_map := (src_qp_map s)(dq_qp_handle req := None),
     conn_heap := (conn_heap s)(p \<mapsto> ?c), host_map := (host_map s)(k := None), held := {}\<rparr>"
  have same: "?s1 = s\<lparr>src_qp_map := (src_qp_map s)(dq_qp_handle req := None),
     host_map := (host_map s)(k := None), conn_heap := (conn_heap s)(p \<mapsto> ?c)\<rparr>"
    using free by (cases s) simp
  have a: "ibv_destroy_qp_h E req s = release_conn E p (dq_dst_v_qp_num req) ?s1"
    using free h p p0 ref
    by (simp add: ibv_destroy_qp_h_def acquire_def release_def read_conn_def write_conn_def Let_def)
  let ?s2 = "?s1\<lparr>held := {ConnL p}\<rparr>"
  obtain rc res s3 where d: "resources_destroy E ?c ?s2 = (rc, res, s3)"
    by (metis prod_cases3)
  obtain w q' where s3: "s3 = ?s2\<lparr>qp_heap := q', world := w\<rparr>"
    and other: "\<forall>p'. p' \<noteq> cr_qp ?c \<longrightarrow> q' p' = qp_heap ?s2 p'"
    and num: "map_option qp_num (q' (cr_qp ?c)) = map_option qp_num (qp_heap ?s2 (cr_qp ?c))"
    and res: "cr_qp res = cr_qp ?c"
    using resources_destroy_frame [OF d] by blast
  have other': "q' p' = qp_heap s p'" if "p' \<noteq> cr_qp c" for p' using other that by simp
  have num': "map_option qp_num (q' (cr_qp c)) = Some (qp_num q)" using num q by simp
  obtain q1 where q1: "q' (cr_qp c) = Some q1" "qp_num q1 = qp_num q" using num' by auto
  have ok: "rc = 0 \<Longrightarrow> q' (cr_qp c) = Some (q\<lparr>qp_live := False\<rparr>)"
    using resources_destroy_ok [of E ?c ?s2 res s3 q] d p0 q s3 by simp
  obtain rc2 w2 where u: "update_dst_router E DELETE (g_src_gid s) (dq_dst_v_qp_num req) (qp_num q) w = (rc2, w2)"
    by fastforce
  have "ibv_destroy_qp_h E req s =
      (Done (if rc \<noteq> 0 then 0 else 1),
       s\<lparr>src_qp_map := (src_qp_map s)(dq_qp_handle req := None), host_map := (host_map s)(k := None),
         conn_heap := (conn_heap s)(p := None), qp_heap := q',
         freed_reads := (if qp_live q1 then freed_reads s else Suc (freed_reads s)), world := w2\<rparr>)"
    using a d s3 res free q1 u unfolding same
    by (simp add: release_conn_def acquire_def read_conn_def read_qp_num_def write_conn_def release_def Let_def)
  then show ?thesis by (rule that) (use other' num' ok q1 in auto)
qed

text \<open>Every branch keeps the invariant; none is killed, faults or waits.\<close>

lemma destroy_qp_shared_inv:
  assumes inv: "pool_inv s" and h: "src_qp_map s h = Some k" and p: "host_map s k = Some p" "conn_heap s p = Some c"
    and ref: "unat (cr_ref_cnt c - 1) = card (attached s k - {h})" and ne: "attached s k - {h} \<noteq> {}"
  shows "pool_inv (s\<lparr>src_qp_map := (src_qp_map s)(h := None),
     conn_heap := (conn_heap s)(p \<mapsto> c\<lparr>cr_ref_cnt := cr_ref_cnt c - 1\<rparr>)\<rparr>)" (is "pool_inv ?s")
proof -
  have att: "attached ?s k' = attached s k' - {h}" for k'
    using attached_delete [of s h k'] by (simp add: attached_def)
  have ok: "conn_ok ?s k' p'" if hm: "host_map s k' = Some p'" for k' p'
  proof (cases "k' = k")
    case True
    then have "p' = p" using hm p by simp
    then show ?thesis using inv p True ref ne unfolding pool_inv_def conn_ok_def att by fastforce
  next
    case False
    then have "p' \<noteq> p" using inv hm p unfolding pool_inv_def no_sharing_def by metis
    moreover have "h \<notin> attached s k'" using h False by (simp add: attached_def)
    ultimately show ?thesis using inv hm unfolding pool_inv_def conn_ok_def att by simp
  qed
  have "no_sharing ?s" using inv p unfolding pool_inv_def no_sharing_def by (auto split: if_splits)
  moreover have "heap_ok ?s" using inv p by (auto simp: pool_inv_def heap_ok_def)
  ultimately show ?thesis using inv ok by (auto simp: pool_inv_def)
qed

lemma destroy_qp_last_inv:
  assumes inv: "pool_inv s" and h: "src_qp_map s h = Some k" and p: "host_map s k = Some p" "conn_heap s p = Some c"
    and last: "attached s k = {h}" and q': "\<And>p'. p' \<noteq> cr_qp c \<Longrightarrow> q' p' = qp_heap s p'"
    and num: "map_option qp_num (q' (cr_qp c)) = Some n"
  shows "pool_inv (s\<lparr>src_qp_map := (src_qp_map s)(h := None), host_map := (host_map s)(k := None),
         conn_heap := (conn_heap s)(p := None), qp_heap := q'\<rparr>)" (is "pool_inv ?s")
proof -
  have att: "attached ?s k' = attached s k' - {h}" for k'
    using attached_delete [of s h k'] by (simp add: attached_def)
  have ok: "conn_ok ?s k' p'" if hm: "host_map s k' = Some p'" and k': "k' \<noteq> k" for k' p'
  proof -
    obtain c' q where c': "conn_heap s p' = Some c'" "qp_heap s (cr_qp c') = Some q" "qp_live q"
      "unat (cr_ref_cnt c') = card (attached s k')" "attached s k' \<noteq> {}"
      using pool_connD [OF inv hm] by blast
    have "p' \<noteq> p \<and> cr_qp c' \<noteq> cr_qp c"
      using inv hm p c' k' unfolding pool_inv_def no_sharing_def by metis
    moreover have "h \<notin> attached s k'" using h k' by (simp add: attached_def)
    ultimately show ?thesis using c' q' unfolding conn_ok_def att by simp
  qed
  have src: "host_map ?s k' \<noteq> None" if "src_qp_map ?s h' = Some k'" for h' k'
  proof -
    have "h' \<noteq> h" "src_qp_map s h' = Some k'" using that by (auto split: if_splits)
    moreover from this have "k' \<noteq> k" using last by (auto simp: attached_def)
    ultimately show ?thesis using inv by (auto simp: pool_inv_def)
  qed
  have "no_sharing ?s" using inv unfolding pool_inv_def no_sharing_def by (auto split: if_splits)
  moreover have "heap_ok ?s"
    using inv p q' num pool_connD [OF inv p(1)] unfolding pool_inv_def heap_ok_def
    by (auto split: if_splits) (metis option.inject)+
  ultimately show ?thesis using ok src by (auto simp: pool_inv_def split: if_splits)
qed

lemma ibv_destroy_qp_pool:
  assumes inv: "pool_inv s" and free: "held s = {}"
  shows "post (\<lambda>_ s'. pool_inv s' \<and> held s' = {} \<and> src_qp_map s' = (src_qp_map s)(dq_qp_handle req := None))
     (\<lambda>_. False) (\<lambda>_. False) (ibv_destroy_qp_h E req s)"
proof (cases "src_qp_map s (dq_qp_handle req)")
  case None
  then show ?thesis using destroy_qp_unknown [OF free None, of E] inv free by (simp add: fun_upd_idem)
next
  case (Some k)
  then obtain p where p: "host_map s k = Some p" using inv unfolding pool_inv_def by (meson not_None_eq)
  obtain c q where c: "conn_heap s p = Some c" and q: "qp_heap s (cr_qp c) = Some q"
    using pool_connD [OF inv p] by blast
  show ?thesis
  proof (cases "attached s k = {dq_qp_handle req}")
    case True
    show ?thesis
    proof (rule destroy_qp_last [OF inv free Some p c q True, of E], goal_cases)
      case (1 rc q' w fr)
      then show ?case using destroy_qp_last_inv [OF inv Some p c True, of q' "qp_num q"] free
        by simp
    qed
  next
    case False
    note sh = destroy_qp_shared [OF inv free Some p c False]
    show ?thesis using destroy_qp_shared_inv [OF inv Some p c sh(2,3)] sh(1) [of E] free by simp
  qed
qed

end
