(* ===== verification/Queries.thy ===== *)
theory Queries
  imports Router_State Protocol
begin

text \<open>
  The queries that only copy what the router knows: \<open>IBV_GET_DEVICE_LIST\<close>,
  \<open>IBV_ALLOC_PD\<close>, \<open>IBV_QUERY_GID\<close> and \<open>IBV_QUERY_PORT\<close>, each with the code of libscale
  that takes the response apart. The device list is followed byte by byte, because its
  response does not fit the router's default buffer.
\<close>

unbundle bit_operations_syntax

section \<open>Memory\<close>

text \<open>Writing bytes into a block of memory; \<open>None\<close> where the block ends too early.\<close>

definition poke :: "nat \<Rightarrow> u8 list \<Rightarrow> u8 list \<Rightarrow> u8 list option" where
  "poke off bs m =
     (if off + length bs \<le> length m then Some (take off m @ bs @ drop (off + length bs) m) else None)"

definition strcpy_at :: "nat \<Rightarrow> u8 list \<Rightarrow> u8 list \<Rightarrow> u8 list option" where
  "strcpy_at off str m = poke off (str @ [0]) m"

definition le_word32 :: "u8 list \<Rightarrow> u32" where
  "le_word32 bs = ucast (bs ! 0) OR push_bit 8 (ucast (bs ! 1))
     OR push_bit 16 (ucast (bs ! 2)) OR push_bit 24 (ucast (bs ! 3))"

text \<open>The bytes \<open>bs\<close> stand at an offset of a block.\<close>

definition region :: "nat \<Rightarrow> u8 list \<Rightarrow> u8 list \<Rightarrow> bool" where
  "region off bs m \<longleftrightarrow> off + length bs \<le> length m \<and> (\<forall>i < length bs. m ! (off + i) = bs ! i)"

lemma poke_length: "poke off bs m = Some m' \<Longrightarrow> length m' = length m"
  by (auto simp: poke_def split: if_splits)

lemma poke_nth:
  assumes "poke off bs m = Some m'" and "i < length m"
  shows "m' ! i = (if off \<le> i \<and> i < off + length bs then bs ! (i - off) else m ! i)"
  using assms by (auto simp: poke_def nth_append min_def split: if_splits)

lemma poke_region:
  assumes "poke off bs m = Some m'"
  shows "region off bs m'"
proof -
  have "off + length bs \<le> length m" using assms by (simp add: poke_def split: if_splits)
  then show ?thesis using poke_nth [OF assms] poke_length [OF assms] by (simp add: region_def)
qed

lemma region_poke:
  assumes "region o' bs' m" and "poke off bs m = Some m'" and "o' + length bs' \<le> off \<or> off + length bs \<le> o'"
  shows "region o' bs' m'"
  using assms poke_nth [OF assms(2)] poke_length [OF assms(2)] by (auto simp: region_def)

lemma poke_fits: "off + length bs \<le> length m \<Longrightarrow> \<exists>m'. poke off bs m = Some m' \<and> length m' = length m"
  by (simp add: poke_def)

lemma region_take: "region off bs m \<Longrightarrow> take (length bs) (drop off m) = bs"
  by (auto simp: region_def intro: nth_equalityI)

lemma region_c_string:
  assumes "region off (str @ [0]) m" and "0 \<notin> set str"
  shows "c_string (drop off m) = str"
proof -
  have "drop off m = (str @ [0]) @ drop (length (str @ [0])) (drop off m)"
    using region_take [OF assms(1)] append_take_drop_id by metis
  then have "c_string (drop off m) = c_string ((str @ [0]) @ drop (length (str @ [0])) (drop off m))" by simp
  also have "\<dots> = str" using assms(2) by (simp add: c_string_append) (simp add: c_string_def)
  finally show ?thesis .
qed

lemma le_word32_bytes [simp]: "le_word32 (le_bytes32 n) = n"
proof (rule bit_word_eqI)
  fix i assume "i < LENGTH(32)"
  then consider "i < 8" | "8 \<le> i" "i < 16" | "16 \<le> i" "i < 24" | "24 \<le> i" "i < 32"
    by fastforce
  then show "bit (le_word32 (le_bytes32 n)) i = bit n i"
    by cases (auto simp: le_word32_def le_bytes32_def bit_simps)
qed

lemma region_le_word32: "region off (le_bytes32 n) m \<Longrightarrow> le_word32 (take 4 (drop off m)) = n"
proof -
  assume "region off (le_bytes32 n) m"
  moreover have "length (le_bytes32 n) = 4" by (simp add: le_bytes32_def)
  ultimately have "take 4 (drop off m) = le_bytes32 n" using region_take by metis
  then show ?thesis by simp
qed

section \<open>IBV_GET_DEVICE_LIST\<close>

text \<open>
  The writes into the response buffer, in the order of the code, at the offsets of
  \<open>struct IBV_GET_DEVICE_LIST_RSP\<close>.
\<close>

definition device_list_rsp :: "ibv_device \<Rightarrow> u8 list \<Rightarrow> u8 list option" where
  "device_list_rsp dev rsp =
     Option.bind (strcpy_at 8 (dv_name dev) rsp) (\<lambda>rsp.
     Option.bind (strcpy_at 72 (dv_dev_name dev) rsp) (\<lambda>rsp.
     Option.bind (strcpy_at 136 (dv_dev_path dev) rsp) (\<lambda>rsp.
     Option.bind (strcpy_at 392 (dv_ibdev_path dev) rsp) (\<lambda>rsp.
     Option.bind (poke 0 (le_bytes32 (dv_node_type dev)) rsp) (\<lambda>rsp.
     poke 4 (le_bytes32 (dv_transport_type dev)) rsp)))))"

definition ibv_get_device_list_h :: "u8 list \<Rightarrow> 'w router \<Rightarrow> u8 list outcome \<times> 'w router" where
  "ibv_get_device_list_h rsp s =
     (case device_list_rsp (g_ib_dev s) rsp of
        None \<Rightarrow> (Fault, s)
      | Some rsp \<Rightarrow> (Done (take (c_size IBV_GET_DEVICE_LIST_RSP_r) rsp), s))"

text \<open>\<open>ibv_get_device_list\<close> of libscale: the one device, from the bytes of the response.\<close>

definition device_of_rsp :: "u8 list \<Rightarrow> ibv_device" where
  "device_of_rsp rsp =
     \<lparr>dv_node_type = le_word32 (take 4 rsp),
      dv_transport_type = le_word32 (take 4 (drop 4 rsp)),
      dv_name = c_string (drop 8 rsp),
      dv_dev_name = c_string (drop 72 rsp),
      dv_dev_path = c_string (drop 136 rsp),
      dv_ibdev_path = c_string (drop 392 rsp)\<rparr>"

definition wf_device :: "ibv_device \<Rightarrow> bool" where
  "wf_device dev \<longleftrightarrow> length (dv_name dev) < 64 \<and> 0 \<notin> set (dv_name dev)
     \<and> length (dv_dev_name dev) < 64 \<and> 0 \<notin> set (dv_dev_name dev)
     \<and> length (dv_dev_path dev) < 256 \<and> 0 \<notin> set (dv_dev_path dev)
     \<and> length (dv_ibdev_path dev) < 256 \<and> 0 \<notin> set (dv_ibdev_path dev)"

text \<open>The offsets are those of the struct, on both sides.\<close>

lemma device_list_offsets:
  "map (\<lambda>(x, off, sz). off) (layout IBV_GET_DEVICE_LIST_RSP_r) = [0, 4, 8, 72, 136, 392]"
  "layout IBV_GET_DEVICE_LIST_RSP_c = layout IBV_GET_DEVICE_LIST_RSP_r"
  by code_simp+

lemma device_list_rsp_regions:
  assumes wf: "wf_device dev" and len: "648 \<le> length rsp"
  obtains r where "device_list_rsp dev rsp = Some r" "length r = length rsp"
    "region 0 (le_bytes32 (dv_node_type dev)) r" "region 4 (le_bytes32 (dv_transport_type dev)) r"
    "region 8 (dv_name dev @ [0]) r" "region 72 (dv_dev_name dev @ [0]) r"
    "region 136 (dv_dev_path dev @ [0]) r" "region 392 (dv_ibdev_path dev @ [0]) r"
proof -
  have l4: "length (le_bytes32 n) = 4" for n by (simp add: le_bytes32_def)
  obtain m1 where 1: "poke 8 (dv_name dev @ [0]) rsp = Some m1" "length m1 = length rsp"
    using poke_fits [of 8 "dv_name dev @ [0]" rsp] wf len by (auto simp: wf_device_def)
  obtain m2 where 2: "poke 72 (dv_dev_name dev @ [0]) m1 = Some m2" "length m2 = length rsp"
    using poke_fits [of 72 "dv_dev_name dev @ [0]" m1] wf len 1(2) by (auto simp: wf_device_def)
  obtain m3 where 3: "poke 136 (dv_dev_path dev @ [0]) m2 = Some m3" "length m3 = length rsp"
    using poke_fits [of 136 "dv_dev_path dev @ [0]" m2] wf len 2(2) by (auto simp: wf_device_def)
  obtain m4 where 4: "poke 392 (dv_ibdev_path dev @ [0]) m3 = Some m4" "length m4 = length rsp"
    using poke_fits [of 392 "dv_ibdev_path dev @ [0]" m3] wf len 3(2) by (auto simp: wf_device_def)
  obtain m5 where 5: "poke 0 (le_bytes32 (dv_node_type dev)) m4 = Some m5" "length m5 = length rsp"
    using poke_fits [of 0 "le_bytes32 (dv_node_type dev)" m4] len 4(2) by (auto simp: l4)
  obtain m6 where 6: "poke 4 (le_bytes32 (dv_transport_type dev)) m5 = Some m6" "length m6 = length rsp"
    using poke_fits [of 4 "le_bytes32 (dv_transport_type dev)" m5] len 5(2) by (auto simp: l4)
  note p1 = 1(1) and p2 = 2(1) and p3 = 3(1) and p4 = 4(1) and p5 = 5(1) and p6 = 6(1)
  have n: "region 8 (dv_name dev @ [0]) m6"
    by (rule region_poke [OF region_poke [OF region_poke [OF region_poke [OF region_poke
        [OF poke_region [OF p1] p2] p3] p4] p5] p6]) (use wf in \<open>simp_all add: wf_device_def l4\<close>)
  have d: "region 72 (dv_dev_name dev @ [0]) m6"
    by (rule region_poke [OF region_poke [OF region_poke [OF region_poke
        [OF poke_region [OF p2] p3] p4] p5] p6]) (use wf in \<open>simp_all add: wf_device_def l4\<close>)
  have dp: "region 136 (dv_dev_path dev @ [0]) m6"
    by (rule region_poke [OF region_poke [OF region_poke
        [OF poke_region [OF p3] p4] p5] p6]) (use wf in \<open>simp_all add: wf_device_def l4\<close>)
  have ip: "region 392 (dv_ibdev_path dev @ [0]) m6"
    by (rule region_poke [OF region_poke [OF poke_region [OF p4] p5] p6]) (simp_all add: l4)
  have nt: "region 0 (le_bytes32 (dv_node_type dev)) m6"
    by (rule region_poke [OF poke_region [OF p5] p6]) (simp add: l4)
  show ?thesis
    by (rule that [OF _ 6(2) nt poke_region [OF p6] n d dp ip])
      (simp add: device_list_rsp_def strcpy_at_def p1 p2 p3 p4 p5 p6)
qed

text \<open>With a buffer that is large enough the client reads the router's device back.\<close>

lemma device_list_roundtrip:
  assumes wf: "wf_device (g_ib_dev s)" and len: "length rsp = buffer_size False"
  shows "\<exists>r. ibv_get_device_list_h rsp s = (Done r, s) \<and> length r = router_rsp_size IBV_GET_DEVICE_LIST
     \<and> device_of_rsp r = g_ib_dev s"
proof -
  have sz: "c_size IBV_GET_DEVICE_LIST_RSP_r = 648" by code_simp
  have l: "648 \<le> length rsp" using len by (simp add: buffer_size_def)
  obtain r where r: "device_list_rsp (g_ib_dev s) rsp = Some r" "length r = length rsp"
    "region 0 (le_bytes32 (dv_node_type (g_ib_dev s))) r" "region 4 (le_bytes32 (dv_transport_type (g_ib_dev s))) r"
    "region 8 (dv_name (g_ib_dev s) @ [0]) r" "region 72 (dv_dev_name (g_ib_dev s) @ [0]) r"
    "region 136 (dv_dev_path (g_ib_dev s) @ [0]) r" "region 392 (dv_ibdev_path (g_ib_dev s) @ [0]) r"
    by (rule device_list_rsp_regions [OF wf l])
  have cut: "region off bs r \<Longrightarrow> off + length bs \<le> 648 \<Longrightarrow> region off bs (take 648 r)" for off bs
    using r(2) l by (auto simp: region_def)
  have w: "length (dv_name (g_ib_dev s)) < 64" "0 \<notin> set (dv_name (g_ib_dev s))"
    "length (dv_dev_name (g_ib_dev s)) < 64" "0 \<notin> set (dv_dev_name (g_ib_dev s))"
    "length (dv_dev_path (g_ib_dev s)) < 256" "0 \<notin> set (dv_dev_path (g_ib_dev s))"
    "length (dv_ibdev_path (g_ib_dev s)) < 256" "0 \<notin> set (dv_ibdev_path (g_ib_dev s))"
    using wf by (simp_all add: wf_device_def)
  have l4: "length (le_bytes32 n) = 4" for n by (simp add: le_bytes32_def)
  have "device_of_rsp (take 648 r) = g_ib_dev s"
    using region_le_word32 [OF cut [OF r(3)]] region_le_word32 [OF cut [OF r(4)]]
      region_c_string [OF cut [OF r(5)]] region_c_string [OF cut [OF r(6)]]
      region_c_string [OF cut [OF r(7)]] region_c_string [OF cut [OF r(8)]] w
    by (simp add: device_of_rsp_def l4 del: drop_take take_take)
  then show ?thesis using r(1,2) l
    by (simp add: ibv_get_device_list_h_def sz device_list_rsp_size)
qed

text \<open>With the default buffer of 255 bytes the copy of \<open>ibdev_path\<close> runs past its end.\<close>

lemma device_list_overflow:
  assumes "length rsp = buffer_size True"
  shows "fst (ibv_get_device_list_h rsp s) = Fault"
proof -
  have "strcpy_at 392 str m = None" if "length m = 255" for str m
    using that by (simp add: strcpy_at_def poke_def)
  moreover have "length m' = length m" if "strcpy_at off str m = Some m'" for off str m m'
    using that poke_length by (simp add: strcpy_at_def)
  ultimately have "device_list_rsp (g_ib_dev s) rsp = None"
    using assms by (auto simp: device_list_rsp_def buffer_size_def Option.bind_eq_None_conv bind_eq_None_conv)
  then show ?thesis by (simp add: ibv_get_device_list_h_def)
qed

section \<open>IBV_ALLOC_PD and IBV_QUERY_GID\<close>

definition ibv_alloc_pd_h :: "'w router \<Rightarrow> u32 outcome \<times> 'w router" where
  "ibv_alloc_pd_h s = (Done (g_pd_handle s), s)"

definition ibv_query_gid_h :: "'w router \<Rightarrow> gid outcome \<times> 'w router" where
  "ibv_query_gid_h s = (Done (take 16 (g_src_gid s)), s)"

section \<open>IBV_QUERY_PORT\<close>

record QUERY_PORT_RSP =
  qr_state :: u32
  qr_max_mtu :: u32
  qr_active_mtu :: u32
  qr_gid_tbl_len :: s32
  qr_port_cap_flags :: u32
  qr_max_msg_sz :: u32
  qr_bad_pkey_cntr :: u32
  qr_qkey_viol_cntr :: u32
  qr_pkey_tbl_len :: u16
  qr_lid :: u16
  qr_sm_lid :: u16
  qr_lmc :: u8
  qr_max_vl_num :: u8
  qr_sm_sl :: u8
  qr_subnet_timeout :: u8
  qr_init_type_reply :: u8
  qr_active_width :: u8
  qr_active_speed :: u8
  qr_phys_state :: u8
  qr_link_layer :: u8

text \<open>Every member of the response is assigned, so what the buffer held does not matter.\<close>

definition ibv_query_port_h :: "QUERY_PORT_RSP \<Rightarrow> 'w router \<Rightarrow> QUERY_PORT_RSP outcome \<times> 'w router" where
  "ibv_query_port_h rsp s =
     (let pa = g_port_attr s in
      (Done (rsp\<lparr>
        qr_active_mtu := pa_active_mtu pa,
        qr_active_speed := pa_active_speed pa,
        qr_active_width := pa_active_width pa,
        qr_bad_pkey_cntr := pa_bad_pkey_cntr pa,
        qr_gid_tbl_len := pa_gid_tbl_len pa,
        qr_init_type_reply := pa_init_type_reply pa,
        qr_lid := pa_lid pa,
        qr_lmc := pa_lmc pa,
        qr_max_msg_sz := pa_max_msg_sz pa,
        qr_max_mtu := pa_max_mtu pa,
        qr_max_vl_num := pa_max_vl_num pa,
        qr_phys_state := pa_phys_state pa,
        qr_pkey_tbl_len := pa_pkey_tbl_len pa,
        qr_port_cap_flags := pa_port_cap_flags pa,
        qr_qkey_viol_cntr := pa_qkey_viol_cntr pa,
        qr_sm_lid := pa_sm_lid pa,
        qr_sm_sl := pa_sm_sl pa,
        qr_state := pa_state pa,
        qr_subnet_timeout := pa_subnet_timeout pa,
        qr_link_layer := pa_link_layer pa\<rparr>), s))"

text \<open>\<open>ibv_query_port\<close> of libscale, on the caller's \<open>ibv_port_attr\<close>.\<close>

definition port_attr_of_rsp :: "QUERY_PORT_RSP \<Rightarrow> ibv_port_attr \<Rightarrow> ibv_port_attr" where
  "port_attr_of_rsp rsp port_attr = port_attr\<lparr>
     pa_active_mtu := qr_active_mtu rsp,
     pa_active_speed := qr_active_speed rsp,
     pa_active_width := qr_active_width rsp,
     pa_bad_pkey_cntr := qr_bad_pkey_cntr rsp,
     pa_gid_tbl_len := qr_gid_tbl_len rsp,
     pa_init_type_reply := qr_init_type_reply rsp,
     pa_lid := qr_lid rsp,
     pa_lmc := qr_lmc rsp,
     pa_max_msg_sz := qr_max_msg_sz rsp,
     pa_max_mtu := qr_max_mtu rsp,
     pa_max_vl_num := qr_max_vl_num rsp,
     pa_phys_state := qr_phys_state rsp,
     pa_pkey_tbl_len := qr_pkey_tbl_len rsp,
     pa_port_cap_flags := qr_port_cap_flags rsp,
     pa_qkey_viol_cntr := qr_qkey_viol_cntr rsp,
     pa_sm_lid := qr_sm_lid rsp,
     pa_sm_sl := qr_sm_sl rsp,
     pa_state := qr_state rsp,
     pa_subnet_timeout := qr_subnet_timeout rsp,
     pa_link_layer := qr_link_layer rsp\<rparr>"

text \<open>Whatever the two structs held before, the caller gets all of the router's attributes.\<close>

lemma query_port_roundtrip:
  "\<exists>rsp. ibv_query_port_h buf s = (Done rsp, s) \<and> port_attr_of_rsp rsp old = g_port_attr s"
  unfolding ibv_query_port_h_def Let_def
  by (rule exI, rule conjI, rule refl) (cases "g_port_attr s"; cases old; simp add: port_attr_of_rsp_def)

end
