(* ===== verification/Frames.thy ===== *)
theory Frames
  imports Legacy Qp_Destroy Queries
begin

text \<open>
  What the handlers leave alone. The memory tables (\<open>shm_map\<close>, the pieces, \<open>lkey_offset_map\<close>)
  are changed by the memory handlers only, whatever the result of a handler is; and the memory
  handlers in turn do not touch the pool of connections.
\<close>

section \<open>The memory tables\<close>

definition mem_same :: "'w router \<Rightarrow> 'w router \<Rightarrow> bool" where
  "mem_same s s' \<longleftrightarrow> shm_map s' = shm_map s \<and> piece_heap s' = piece_heap s
     \<and> lkey_offset_map s' = lkey_offset_map s \<and> next_ptr s \<le> next_ptr s'"

lemma mem_same_refl [simp]: "mem_same s s"
  by (simp add: mem_same_def)

lemma mem_same_trans: "mem_same s t \<Longrightarrow> mem_same t u \<Longrightarrow> mem_same s u"
  by (auto simp: mem_same_def)

lemma mem_same_updates [simp]:
  "mem_same s (t\<lparr>held := h\<rparr>) = mem_same s t" "mem_same s (t\<lparr>world := w\<rparr>) = mem_same s t"
  "mem_same s (t\<lparr>host_map := hm\<rparr>) = mem_same s t" "mem_same s (t\<lparr>conn_map := cm\<rparr>) = mem_same s t"
  "mem_same s (t\<lparr>cq_qp_map := cq\<rparr>) = mem_same s t" "mem_same s (t\<lparr>src_qp_map := sq\<rparr>) = mem_same s t"
  "mem_same s (t\<lparr>dst_qp_map := dq\<rparr>) = mem_same s t" "mem_same s (t\<lparr>conn_heap := ch\<rparr>) = mem_same s t"
  "mem_same s (t\<lparr>qp_heap := qh\<rparr>) = mem_same s t" "mem_same s (t\<lparr>freed_reads := fr\<rparr>) = mem_same s t"
  "mem_same s (release l t) = mem_same s t" "mem_same s (write_conn p c t) = mem_same s t"
  by (simp_all add: mem_same_def release_def write_conn_def)

lemma mem_same_andthen:
  assumes "mem_same s (snd r)" and "\<And>a t. mem_same s t \<Longrightarrow> mem_same s (snd (k a t))"
  shows "mem_same s (snd (andthen r k))"
  using assms by (cases r rule: outcome_cases) auto

lemma mem_same_prims:
  "mem_same s t \<Longrightarrow> mem_same s (snd (acquire l t))"
  "mem_same s t \<Longrightarrow> mem_same s (snd (read_conn p t))"
  "mem_same s t \<Longrightarrow> mem_same s (snd (read_qp_num p t))"
  by (auto simp: acquire_def read_conn_def read_qp_num_def split: option.split)

lemma mem_same_resources_destroy:
  assumes "mem_same s t" and "resources_destroy E res t = (rc, res', t')"
  shows "mem_same s t'"
proof -
  obtain w q where "t' = t\<lparr>qp_heap := q, world := w\<rparr>"
    using resources_destroy_frame [OF assms(2)] by blast
  then show ?thesis using assms(1) by simp
qed

lemma mem_same_resources_create:
  assumes "mem_same s t" and "resources_create E res t = (rc, res', t')"
  shows "mem_same s t'"
proof -
  have up: "mem_same s (u\<lparr>next_ptr := n\<rparr>)" if "mem_same s u" "next_ptr u \<le> n" for u n
    using that by (simp add: mem_same_def)
  show ?thesis
    using assms
    by (auto simp: resources_create_def Let_def up dest!: mem_same_resources_destroy [rotated]
        split: prod.splits if_splits option.splits)
qed

lemma mem_same_host_attach: "mem_same s t \<Longrightarrow> mem_same s (snd (host_attach k t))"
proof -
  assume "mem_same s t"
  then have "mem_same s (t\<lparr>next_ptr := Suc (next_ptr t)\<rparr>)" by (simp add: mem_same_def)
  then show ?thesis
    by (auto simp: host_attach_def Let_def intro!: mem_same_andthen mem_same_prims split: option.split)
qed

lemma mem_same_host_materialise: "mem_same s t \<Longrightarrow> mem_same s (snd (host_materialise E a t))"
  by (auto simp: host_materialise_def Let_def intro!: mem_same_andthen mem_same_prims split: prod.split)
    (metis mem_same_resources_create, metis mem_same_resources_destroy)

lemma mem_same_announce: "mem_same s t \<Longrightarrow> mem_same s (snd (modify_qp_announce E req k n t))"
  by (auto simp: modify_qp_announce_def Let_def intro!: mem_same_andthen mem_same_prims split: prod.split)

lemma mem_same_remote: "mem_same s t \<Longrightarrow> mem_same s (snd (handle_remote_router E fd n m t))"
  by (auto simp: handle_remote_router_def intro!: mem_same_andthen mem_same_prims
      split: OPERATION.split option.split)

lemma mem_same_dst_wait: "mem_same s t \<Longrightarrow> mem_same s (snd (dst_wait E g arrivals t))"
proof (induction arrivals arbitrary: t)
  case Nil
  then show ?case by (auto simp: dst_lookup_def intro!: mem_same_andthen mem_same_prims)
next
  case (Cons a arrivals)
  then show ?case
    by (cases a) (auto simp: dst_lookup_def intro!: mem_same_andthen mem_same_prims mem_same_remote split: option.split)
qed

lemma mem_same_finish: "mem_same s t \<Longrightarrow> mem_same s (snd (modify_qp_finish E header req k n m t))"
  by (auto simp: modify_qp_finish_def Let_def intro!: mem_same_andthen mem_same_prims
      split: option.split prod.split)

lemma mem_same_modify_qp: "mem_same s (snd (ibv_modify_qp_h E header req arrivals s))"
  by (auto simp: ibv_modify_qp_h_def modify_qp_begin_def Let_def
      intro!: mem_same_andthen mem_same_host_attach mem_same_host_materialise mem_same_announce
        mem_same_dst_wait mem_same_finish split: option.split)

lemma mem_same_release_conn: "mem_same s t \<Longrightarrow> mem_same s (snd (release_conn E conn n t))"
  by (auto simp: release_conn_def Let_def intro!: mem_same_andthen mem_same_prims split: prod.split)
    (metis mem_same_resources_destroy)+

lemma mem_same_destroy_qp: "mem_same s (snd (ibv_destroy_qp_h E req s))"
  by (auto simp: ibv_destroy_qp_h_def Let_def intro!: mem_same_andthen mem_same_prims mem_same_release_conn
      split: option.split)

lemma mem_same_create_qp: "mem_same s (snd (ibv_create_qp_h E req s))"
  by (auto simp: ibv_create_qp_h_def Let_def intro!: mem_same_andthen mem_same_prims split: option.split prod.split)

lemma mem_same_destroy_cq: "mem_same s (snd (ibv_destroy_cq_h h s))"
  by (auto simp: ibv_destroy_cq_h_def intro!: mem_same_andthen mem_same_prims split: option.split)

lemma mem_same_only_world: "only_world s s' \<Longrightarrow> mem_same s s'"
  by (simp add: only_worldD mem_same_def)

section \<open>The pool\<close>

text \<open>Allocating more, or changing what the pool does not look at, keeps its invariant.\<close>

lemma pool_inv_alloc:
  assumes "pool_inv s" and "next_ptr s \<le> next_ptr s'"
    and "host_map s' = host_map s" "conn_heap s' = conn_heap s" "qp_heap s' = qp_heap s" "src_qp_map s' = src_qp_map s"
  shows "pool_inv s'"
proof -
  have "heap_ok s'" using assms by (fastforce simp: pool_inv_def heap_ok_def)
  then show ?thesis using assms by (simp add: pool_inv_def no_sharing_def conn_ok_def attached_def)
qed

text \<open>The invariant of the memory tables only looks at them.\<close>

lemma mem_same_shm_inv: "mem_same s s' \<Longrightarrow> shm_inv s \<Longrightarrow> shm_inv s'"
  by (auto simp: mem_same_def intro: shm_inv_frame)

text \<open>The same for the memory handlers and the pool.\<close>

definition pool_same :: "'w router \<Rightarrow> 'w router \<Rightarrow> bool" where
  "pool_same s s' \<longleftrightarrow> next_ptr s \<le> next_ptr s' \<and> host_map s' = host_map s \<and> conn_heap s' = conn_heap s
     \<and> qp_heap s' = qp_heap s \<and> src_qp_map s' = src_qp_map s"

lemma pool_same_pool_inv: "pool_same s s' \<Longrightarrow> pool_inv s \<Longrightarrow> pool_inv s'"
  by (auto simp: pool_same_def intro: pool_inv_alloc)

lemma pool_same_andthen:
  assumes "pool_same s (snd r)" and "\<And>a t. pool_same s t \<Longrightarrow> pool_same s (snd (k a t))"
  shows "pool_same s (snd (andthen r k))"
  using assms by (cases r rule: outcome_cases) auto

lemma pool_same_updates [simp]:
  "pool_same s s"
  "pool_same s (t\<lparr>held := h\<rparr>) = pool_same s t" "pool_same s (t\<lparr>world := w\<rparr>) = pool_same s t"
  "pool_same s (t\<lparr>shm_map := sm\<rparr>) = pool_same s t" "pool_same s (t\<lparr>piece_heap := ph\<rparr>) = pool_same s t"
  "pool_same s (t\<lparr>cq_qp_map := cq\<rparr>) = pool_same s t"
  "pool_same s (release l t) = pool_same s t" "pool_same s (lkey_insert k v t) = pool_same s t"
  "pool_same s (lkey_erase k t) = pool_same s t"
  by (auto simp: pool_same_def release_def lkey_insert_def lkey_erase_def split: option.split)

lemma pool_same_acquire: "pool_same s t \<Longrightarrow> pool_same s (snd (acquire l t))"
  by (simp add: acquire_def)

lemma pool_same_next: "pool_same s t \<Longrightarrow> next_ptr t \<le> n \<Longrightarrow> pool_same s (t\<lparr>next_ptr := n\<rparr>)"
  by (simp add: pool_same_def)

lemma pool_same_addShmPiece: "pool_same s t \<Longrightarrow> pool_same s (snd (addShmPiece E pid m t))"
  unfolding addShmPiece_def
  by (rule pool_same_andthen) (auto simp: Let_def intro!: pool_same_acquire pool_same_next split: prod.split)

lemma pool_same_reg_mr: "pool_same s (snd (ibv_reg_mr_h E header req s))"
  unfolding ibv_reg_mr_h_def
  by (rule pool_same_andthen)
    (auto simp: Let_def intro!: pool_same_addShmPiece pool_same_andthen pool_same_acquire pool_same_next
      split: prod.split option.split)

lemma pool_same_dereg_mr: "pool_same s (snd (ibv_dereg_mr_h E req s))"
  unfolding ibv_dereg_mr_h_def
  by (rule pool_same_andthen)
    (auto simp: Let_def intro!: pool_same_acquire split: prod.split option.split)

lemma pool_same_create_qp: "pool_same s (snd (ibv_create_qp_h E req s))"
  unfolding ibv_create_qp_h_def
  by (rule pool_same_andthen) (auto simp: Let_def intro!: pool_same_acquire split: prod.split option.split)

lemma pool_same_destroy_cq: "pool_same s (snd (ibv_destroy_cq_h h s))"
  unfolding ibv_destroy_cq_h_def
  by (rule pool_same_andthen) (auto intro!: pool_same_acquire split: option.split)

end
