(* ===== verification/Dispatch.thy ===== *)
theory Dispatch
  imports Frames
begin

text \<open>
  \<open>handle_process\<close>: one thread per connection reads one request, runs its case and answers;
  and the router as a system of events, the requests of local processes and the messages of
  other routers, with the invariant that all calls libscale makes keep.
\<close>

section \<open>Requests and replies\<close>

text \<open>A request body with its call; \<open>Other\<close> stands for a number without a case.\<close>

datatype request =
    Init_Res | Create_Res HostKey | Reg_Mr LocalMem | Setup_Conn ConnInfo
  | Post_Send POST_REQ | Post_Recv POST_REQ | Poll_Cq ConnId s32 | Dereg_Mr LocalMem | Destroy_Res ConnId
  | Ibv_Get_Device_List | Ibv_Alloc_Pd | Ibv_Reg_Mr reg_mr_req | Ibv_Query_Gid | Ibv_Query_Port
  | Ibv_Create_Qp create_qp_req | Ibv_Modify_Qp modify_qp_req | Ibv_Post_Send post_send_req
  | Ibv_Post_Recv post_recv_req | Ibv_Poll_Cq poll_cq_req | Ibv_Destroy_Cq u32
  | Ibv_Destroy_Qp destroy_qp_req | Ibv_Dereg_Mr dereg_mr_req
  | Other

datatype reply =
    Res_Rsp gid u16 | Qpn_Rsp u32 | LocalMem_Rsp LocalMem | Setup_Rsp s32 "u8 option"
  | Wr_Id_Rsp s32 | Count_Rsp s32 s32 | ConnId_Rsp ConnId
  | Device_Rsp "u8 list" | Handle_Rsp u32 | Mr_Rsp reg_mr_rsp | Gid_Rsp gid | Port_Rsp QUERY_PORT_RSP
  | Poll_Rsp poll_cq_rsp | Flags_Rsp u8
  | Empty_Rsp

fun request_call :: "request \<Rightarrow> SCALE_FUNCTION_CALL option" where
  "request_call Init_Res = Some INIT_RES"
| "request_call (Create_Res _) = Some CREATE_RES"
| "request_call (Reg_Mr _) = Some REG_MR"
| "request_call (Setup_Conn _) = Some SETUP_CONN"
| "request_call (Post_Send _) = Some POST_SEND"
| "request_call (Post_Recv _) = Some POST_RECV"
| "request_call (Poll_Cq _ _) = Some POLL_CQ"
| "request_call (Dereg_Mr _) = Some DEREG_MR"
| "request_call (Destroy_Res _) = Some DESTROY_RES"
| "request_call Ibv_Get_Device_List = Some IBV_GET_DEVICE_LIST"
| "request_call Ibv_Alloc_Pd = Some IBV_ALLOC_PD"
| "request_call (Ibv_Reg_Mr _) = Some IBV_REG_MR"
| "request_call Ibv_Query_Gid = Some IBV_QUERY_GID"
| "request_call Ibv_Query_Port = Some IBV_QUERY_PORT"
| "request_call (Ibv_Create_Qp _) = Some IBV_CREATE_QP"
| "request_call (Ibv_Modify_Qp _) = Some IBV_MODIFY_QP"
| "request_call (Ibv_Post_Send _) = Some IBV_POST_SEND"
| "request_call (Ibv_Post_Recv _) = Some IBV_POST_RECV"
| "request_call (Ibv_Poll_Cq _) = Some IBV_POLL_CQ"
| "request_call (Ibv_Destroy_Cq _) = Some IBV_DESTROY_CQ"
| "request_call (Ibv_Destroy_Qp _) = Some IBV_DESTROY_QP"
| "request_call (Ibv_Dereg_Mr _) = Some IBV_DEREG_MR"
| "request_call Other = None"

section \<open>One request\<close>

text \<open>The result of a case as a reply.\<close>

definition replies :: "('a \<Rightarrow> reply) \<Rightarrow> 'a outcome \<times> 's \<Rightarrow> reply option outcome \<times> 's" where
  "replies f r = andthen r (\<lambda>a s. (Done (Some (f a)), s))"

text \<open>
  What a thread is given: \<open>n\<close> and \<open>m\<close> are the results of the reads of the header and of the
  body and \<open>w\<close> that of the write of the response, \<open>arrivals\<close> the messages of other routers
  handled while it waits, \<open>rsp\<close> the response buffer and \<open>port\<close> what the buffer holds in the
  place of a port query's response. The request is the body as the struct of the \<open>case\<close> that
  \<open>header.func\<close> selects (\<open>header_selects\<close>).
\<close>

record thread =
  t_header :: ScaleReqHeader
  t_n :: s32
  t_m :: "64 word"
  t_w :: s32
  t_request :: request
  t_arrivals :: "(int \<times> info) list"
  t_rsp :: "u8 list"
  t_port :: QUERY_PORT_RSP

definition handle_case :: "'w env \<Rightarrow> thread \<Rightarrow> 'w router \<Rightarrow> reply option outcome \<times> 'w router" where
  "handle_case E t s =
     (let header = t_header t in
      case t_request t of
        Init_Res \<Rightarrow> replies (\<lambda>(g, l). Res_Rsp g l) (init_res_h s)
      | Create_Res k \<Rightarrow> replies Qpn_Rsp (create_res_h E k s)
      | Reg_Mr lm \<Rightarrow> replies LocalMem_Rsp (reg_mr_h E header lm s)
      | Setup_Conn ci \<Rightarrow> replies (\<lambda>(p, st). Setup_Rsp p st) (setup_conn_h E header ci s)
      | Post_Send req \<Rightarrow> replies Wr_Id_Rsp (post_send_h E header req s)
      | Post_Recv req \<Rightarrow> replies Wr_Id_Rsp (post_recv_h E header req s)
      | Poll_Cq cid n \<Rightarrow> replies (\<lambda>(p, c). Count_Rsp p c) (poll_cq_h E header cid n s)
      | Dereg_Mr lm \<Rightarrow> replies LocalMem_Rsp (dereg_mr_h E lm s)
      | Destroy_Res cid \<Rightarrow> replies ConnId_Rsp (destroy_res_h E cid s)
      | Ibv_Get_Device_List \<Rightarrow> replies Device_Rsp (ibv_get_device_list_h (t_rsp t) s)
      | Ibv_Alloc_Pd \<Rightarrow> replies Handle_Rsp (ibv_alloc_pd_h s)
      | Ibv_Reg_Mr req \<Rightarrow> replies Mr_Rsp (ibv_reg_mr_h E header req s)
      | Ibv_Query_Gid \<Rightarrow> replies Gid_Rsp (ibv_query_gid_h s)
      | Ibv_Query_Port \<Rightarrow> replies Port_Rsp (ibv_query_port_h (t_port t) s)
      | Ibv_Create_Qp req \<Rightarrow> replies Qpn_Rsp (ibv_create_qp_h E req s)
      | Ibv_Modify_Qp req \<Rightarrow>
          andthen (ibv_modify_qp_h E header req (t_arrivals t) s) (\<lambda>r s.
            (Done (map_option Flags_Rsp r), s))
      | Ibv_Post_Send req \<Rightarrow> replies Wr_Id_Rsp (ibv_post_send_h E header req s)
      | Ibv_Post_Recv req \<Rightarrow> replies Wr_Id_Rsp (ibv_post_recv_h E header req s)
      | Ibv_Poll_Cq req \<Rightarrow> replies Poll_Rsp (ibv_poll_cq_h E header req s)
      | Ibv_Destroy_Cq h \<Rightarrow> replies Flags_Rsp (ibv_destroy_cq_h h s)
      | Ibv_Destroy_Qp req \<Rightarrow> replies Flags_Rsp (ibv_destroy_qp_h E req s)
      | Ibv_Dereg_Mr req \<Rightarrow> replies Flags_Rsp (ibv_dereg_mr_h E req s)
      | Other \<Rightarrow> (Done (Some Empty_Rsp), s))"

text \<open>
  The reads before it: both compare a signed count with \<open>sizeof\<close>, and a case without a body
  does not read one.
\<close>

definition body_short :: "thread \<Rightarrow> bool" where
  "body_short t = (case request_call (t_request t) of
      None \<Rightarrow> False
    | Some f \<Rightarrow> 0 < router_body_size f \<and> ssize_lt_size (t_m t) (of_nat (router_body_size f)))"

text \<open>
  The write after it: \<open>size\<close> is what the case has set, 0 in the default one, and a short or
  failed write means that the client gets no response. A thread that is still in its loop
  writes nothing.
\<close>

definition rsp_size_of :: "request \<Rightarrow> nat" where
  "rsp_size_of r = (case request_call r of None \<Rightarrow> 0 | Some f \<Rightarrow> router_rsp_size f)"

definition write_rsp :: "thread \<Rightarrow> reply option \<Rightarrow> 'w router \<Rightarrow> reply option outcome \<times> 'w router" where
  "write_rsp t r s = (case r of
      None \<Rightarrow> (Done None, s)
    | Some rsp \<Rightarrow>
        if int_lt_int (t_w t) (of_nat (rsp_size_of (t_request t))) then (Killed, s) else (Done (Some rsp), s))"

definition handle_process :: "'w env \<Rightarrow> thread \<Rightarrow> 'w router \<Rightarrow> reply option outcome \<times> 'w router" where
  "handle_process E t s =
     (if int_lt_size (t_n t) (of_nat (c_size ScaleReqHeader_r)) then (Killed, s)
      else if body_short t then (Killed, s)
      else andthen (handle_case E t s) (write_rsp t))"

text \<open>Writing changes nothing in the router.\<close>

lemma write_rsp_frame [simp]:
  "fst (andthen r (write_rsp t)) = Fault \<longleftrightarrow> fst r = Fault" "snd (andthen r (write_rsp t)) = snd r"
  by (cases r rule: outcome_cases; simp add: write_rsp_def split: option.split)+

lemma post_write_rsp: "post (\<lambda>_. Q) Q F r \<Longrightarrow> post (\<lambda>_. Q) Q F (andthen r (write_rsp t))"
  by (cases r rule: outcome_cases) (auto simp: write_rsp_def split: option.split)

text \<open>A complete write hands the response over.\<close>

lemma write_complete:
  "t_w t = of_nat (rsp_size_of (t_request t)) \<Longrightarrow> andthen r (write_rsp t) = r"
  by (cases r rule: outcome_cases) (simp_all add: write_rsp_def int_lt_int_def split: option.split)

text \<open>The header a client writes, and the \<open>case\<close> it selects.\<close>

definition request_header :: "s32 \<Rightarrow> request \<Rightarrow> ScaleReqHeader" where
  "request_header pid r = (case request_call r of
      None \<Rightarrow> \<lparr>rh_process_id = pid, rh_func = 0, rh_body_size = 0\<rparr>
    | Some f \<Rightarrow> \<lparr>rh_process_id = pid, rh_func = (case call_code_c f of None \<Rightarrow> 0 | Some n \<Rightarrow> n),
        rh_body_size = of_nat (router_body_size f)\<rparr>)"

lemma request_header_pid [simp]: "rh_process_id (request_header pid r) = pid"
  by (simp add: request_header_def split: option.split)

lemma header_selects: "request_call r = Some f \<Longrightarrow> call_of_code_r (rh_func (request_header pid r)) = Some f"
  using call_code_roundtrip [of f] by (auto simp: request_header_def)

lemma post_replies [simp]: "post Q K F (replies f r) = post (\<lambda>a. Q (Some (f a))) K F r"
  by (simp add: replies_def)

lemma mem_same_replies: "mem_same s (snd r) \<Longrightarrow> mem_same s (snd (replies f r))"
  unfolding replies_def by (rule mem_same_andthen) simp_all

lemma header_size: "c_size ScaleReqHeader_r = 12"
  by code_simp

text \<open>
  A read that fails with -1 passes both tests, and the case runs on whatever the header and
  the buffer held before.
\<close>

lemma failed_reads_undetected:
  assumes "sint (t_n t) < 0" and "sint (t_m t) < 0"
  shows "handle_process E t s = andthen (handle_case E t s) (write_rsp t)"
proof -
  have body: "uint (of_nat (router_body_size f) :: u64) < 2 ^ 63" for f
    using router_body_fits [of f] by (simp add: unsigned_of_nat take_bit_nat_eq_self)
  have "\<not> body_short t"
    using ssize_lt_size_neg [OF assms(2) body] by (simp add: body_short_def split: option.split)
  moreover have "\<not> int_lt_size (t_n t) (of_nat (c_size ScaleReqHeader_r))"
    using assms(1) by (intro int_lt_size_neg) (simp_all add: header_size)
  ultimately show ?thesis by (simp add: handle_process_def)
qed

section \<open>The router as a system\<close>

text \<open>
  An event is a request served from its beginning to its end, or a message of another router.
  \<open>None\<close> is a router that has crashed.
\<close>

datatype event = Local thread | Peer int int info

definition step :: "'w env \<Rightarrow> event \<Rightarrow> 'w router option \<Rightarrow> 'w router option" where
  "step E e s = (case s of
      None \<Rightarrow> None
    | Some s \<Rightarrow> (case e of
        Local t \<Rightarrow> (case handle_process E t s of (Fault, _) \<Rightarrow> None | (_, s') \<Rightarrow> Some s')
      | Peer fd n m \<Rightarrow> (case handle_remote_router E fd n m s of (Fault, _) \<Rightarrow> None | (_, s') \<Rightarrow> Some s')))"

text \<open>
  What a well-behaved client asks: a call of libscale; a queue pair is modified to RTR once,
  with room for one more reference; a process has room for one more segment.
\<close>

definition request_ok :: "request \<Rightarrow> ScaleReqHeader \<Rightarrow> 'w router \<Rightarrow> bool" where
  "request_ok r header s = (case request_call r of
      None \<Rightarrow> True
    | Some f \<Rightarrow> request_sizes_c f \<noteq> None
        \<and> (case r of
             Ibv_Modify_Qp req \<Rightarrow>
               src_qp_map s (mq_src_v_qp_handle req) = None \<and> card (dom (src_qp_map s)) < 2 ^ 32 - 1
           | Ibv_Reg_Mr req \<Rightarrow>
               (case shm_map s (rh_process_id header) of None \<Rightarrow> True | Some v \<Rightarrow> length v < 2 ^ 32)
           | _ \<Rightarrow> True))"

definition event_ok :: "event \<Rightarrow> 'w router option \<Rightarrow> bool" where
  "event_ok e s = (case s of
      None \<Rightarrow> True
    | Some s \<Rightarrow> (case e of Local t \<Rightarrow> request_ok (t_request t) (t_header t) s | Peer fd n m \<Rightarrow> True))"

definition router_inv :: "'w router \<Rightarrow> bool" where
  "router_inv s \<longleftrightarrow> pool_inv s \<and> shm_inv s \<and> held s = {}"

definition system_inv :: "'w router option \<Rightarrow> bool" where
  "system_inv s = (case s of None \<Rightarrow> True | Some s \<Rightarrow> router_inv s)"

section \<open>Every event keeps the invariant\<close>

lemma post_snd: "post (\<lambda>_. Q) K F r \<Longrightarrow> (\<And>a s. K s \<Longrightarrow> Q s) \<Longrightarrow> fst r \<noteq> Fault \<Longrightarrow> Q (snd r)"
  by (cases r rule: outcome_cases) auto

lemma ibv_create_qp_post:
  assumes "held s = {}"
  shows "post (\<lambda>_ s'. held s' = {}) (\<lambda>s'. held s' = {}) (\<lambda>_. False) (ibv_create_qp_h E req s)"
  using assms by (auto simp: ibv_create_qp_h_def acquire_def release_def Let_def split: option.split prod.split)

lemma ibv_destroy_cq_post:
  assumes "held s = {}"
  shows "post (\<lambda>_ s'. held s' = {}) (\<lambda>_. False) (\<lambda>_. False) (ibv_destroy_cq_h h s)"
  using assms by (simp add: ibv_destroy_cq_h_def acquire_def release_def split: option.split)

lemma ibv_dereg_mr_post:
  assumes "held s = {}"
  shows "post (\<lambda>_ s'. held s' = {} \<and> shm_map s' = shm_map s \<and> piece_heap s' = piece_heap s \<and> next_ptr s' = next_ptr s)
    (\<lambda>s'. held s' = {} \<and> shm_map s' = shm_map s \<and> piece_heap s' = piece_heap s \<and> next_ptr s' = next_ptr s)
    (\<lambda>_. False) (ibv_dereg_mr_h E req s)"
  using assms
  by (auto simp: ibv_dereg_mr_h_def acquire_def release_def lkey_erase_def Let_def split: option.split prod.split)

text \<open>
  From a result that keeps one half of the invariant, and a frame for the other half.
\<close>

lemma router_inv_pool:
  assumes "router_inv s" and "post (\<lambda>_ t. pool_inv t \<and> held t = {}) (\<lambda>t. pool_inv t \<and> held t = {}) F r"
    and "mem_same s (snd r)"
  shows "post (\<lambda>_. router_inv) router_inv (\<lambda>_. True) r"
  using assms by (cases r rule: outcome_cases) (auto simp: router_inv_def intro: mem_same_shm_inv)

lemma router_inv_mem:
  assumes "router_inv s" and "post (\<lambda>_ t. shm_inv t \<and> held t = {}) (\<lambda>t. shm_inv t \<and> held t = {}) F r"
    and "pool_same s (snd r)"
  shows "post (\<lambda>_. router_inv) router_inv (\<lambda>_. True) r"
  using assms by (cases r rule: outcome_cases) (auto simp: router_inv_def intro: pool_same_pool_inv)

lemma router_inv_world:
  assumes "router_inv s" and "post (\<lambda>_. only_world s) (only_world s) F r"
  shows "post (\<lambda>_. router_inv) router_inv (\<lambda>_. True) r"
  using assms mem_same_shm_inv [OF mem_same_only_world]
  by (cases r rule: outcome_cases) (auto simp: router_inv_def only_worldD)

lemma router_inv_replies:
  "post (\<lambda>_. router_inv) router_inv (\<lambda>_. True) r \<Longrightarrow> post (\<lambda>_. router_inv) router_inv (\<lambda>_. True) (replies f r)"
  by simp

lemma handle_case_inv:
  assumes inv: "router_inv s" and ok: "request_ok (t_request t) (t_header t) s"
  shows "post (\<lambda>_. router_inv) router_inv (\<lambda>_. True) (handle_case E t s)"
proof -
  have i: "pool_inv s" "shm_inv s" "held s = {}" using inv by (simp_all add: router_inv_def)
  show ?thesis
  proof (cases "t_request t")
    case (Ibv_Reg_Mr req)
    have room: "\<And>v. shm_map s (rh_process_id (t_header t)) = Some v \<Longrightarrow> length v < 2 ^ 32"
      using ok Ibv_Reg_Mr by (simp add: request_ok_def request_sizes_c_def)
    have "post (\<lambda>_ u. shm_inv u \<and> held u = {}) (\<lambda>u. shm_inv u \<and> held u = {}) (\<lambda>_. False)
        (ibv_reg_mr_h E (t_header t) req s)"
      by (rule post_mono [OF ibv_reg_mr_registers [OF i(2,3) room]]) simp_all
    from router_inv_mem [OF inv this pool_same_reg_mr] show ?thesis
      using Ibv_Reg_Mr by (simp add: handle_case_def)
  next
    case (Ibv_Create_Qp req)
    have "post (\<lambda>_ u. shm_inv u \<and> held u = {}) (\<lambda>u. shm_inv u \<and> held u = {}) (\<lambda>_. False) (ibv_create_qp_h E req s)"
      using ibv_create_qp_post [OF i(3), of E req] mem_same_shm_inv [OF mem_same_create_qp i(2), of E req]
      by (cases "ibv_create_qp_h E req s" rule: outcome_cases) auto
    from router_inv_mem [OF inv this pool_same_create_qp] show ?thesis
      using Ibv_Create_Qp by (simp add: handle_case_def)
  next
    case (Ibv_Destroy_Cq h)
    have "post (\<lambda>_ u. shm_inv u \<and> held u = {}) (\<lambda>u. shm_inv u \<and> held u = {}) (\<lambda>_. False) (ibv_destroy_cq_h h s)"
      using ibv_destroy_cq_post [OF i(3), of h] mem_same_shm_inv [OF mem_same_destroy_cq i(2), of h]
      by (cases "ibv_destroy_cq_h h s" rule: outcome_cases) auto
    from router_inv_mem [OF inv this pool_same_destroy_cq] show ?thesis
      using Ibv_Destroy_Cq by (simp add: handle_case_def)
  next
    case (Ibv_Modify_Qp req)
    have "src_qp_map s (mq_src_v_qp_handle req) = None" "card (dom (src_qp_map s)) < 2 ^ 32 - 1"
      using ok Ibv_Modify_Qp by (simp_all add: request_ok_def)
    then have "post (\<lambda>_ u. pool_inv u \<and> held u = {}) (\<lambda>u. pool_inv u \<and> held u = {})
        (\<lambda>_. host_map s (modify_key s req) = None) (ibv_modify_qp_h E (t_header t) req (t_arrivals t) s)"
      by (intro post_mono [OF ibv_modify_qp_pool [OF i(1,3)]]) simp_all
    from router_inv_pool [OF inv this mem_same_modify_qp]
    show ?thesis using Ibv_Modify_Qp by (simp add: handle_case_def)
  next
    case (Ibv_Post_Send req)
    from router_inv_world [OF inv ibv_post_send_frame [OF i(1,3)]] show ?thesis
      using Ibv_Post_Send by (simp add: handle_case_def)
  next
    case (Ibv_Post_Recv req)
    from router_inv_world [OF inv ibv_post_recv_frame [OF i(1,3)]] show ?thesis
      using Ibv_Post_Recv by (simp add: handle_case_def)
  next
    case (Ibv_Poll_Cq req)
    from router_inv_world [OF inv ibv_poll_cq_frame [OF i(1,3)]] show ?thesis
      using Ibv_Poll_Cq by (simp add: handle_case_def)
  next
    case (Ibv_Destroy_Qp req)
    have "post (\<lambda>_ u. pool_inv u \<and> held u = {}) (\<lambda>u. pool_inv u \<and> held u = {}) (\<lambda>_. False) (ibv_destroy_qp_h E req s)"
      by (rule post_mono [OF ibv_destroy_qp_pool [OF i(1,3)]]) simp_all
    from router_inv_pool [OF inv this mem_same_destroy_qp]
    show ?thesis using Ibv_Destroy_Qp by (simp add: handle_case_def)
  next
    case (Ibv_Dereg_Mr req)
    have "post (\<lambda>_ u. shm_inv u \<and> held u = {}) (\<lambda>u. shm_inv u \<and> held u = {}) (\<lambda>_. False) (ibv_dereg_mr_h E req s)"
      by (rule post_mono [OF ibv_dereg_mr_post [OF i(3)]]) (auto intro: shm_inv_frame [OF i(2)])
    from router_inv_mem [OF inv this pool_same_dereg_mr] show ?thesis
      using Ibv_Dereg_Mr by (simp add: handle_case_def)
  qed (use ok inv in \<open>auto simp: handle_case_def request_ok_def request_sizes_c_def ibv_alloc_pd_h_def
      ibv_query_gid_h_def ibv_query_port_h_def ibv_get_device_list_h_def Let_def split: option.split\<close>)
qed

lemma handle_process_inv:
  assumes "router_inv s" and "request_ok (t_request t) (t_header t) s"
  shows "post (\<lambda>_. router_inv) router_inv (\<lambda>_. True) (handle_process E t s)"
  using post_write_rsp [OF handle_case_inv [OF assms]] assms(1) by (auto simp: handle_process_def simp del: post_andthen)

lemma remote_inv:
  assumes "router_inv s"
  shows "post (\<lambda>_. router_inv) router_inv (\<lambda>_. True) (handle_remote_router E fd n m s)"
proof -
  have "post (\<lambda>_ t. pool_inv t \<and> held t = {}) (\<lambda>t. pool_inv t \<and> held t = {}) (\<lambda>_. False) (handle_remote_router E fd n m s)"
    using assms
    by (auto simp: router_inv_def handle_remote_router_def acquire_def
        split: OPERATION.split option.split)
  from router_inv_pool [OF assms this mem_same_remote] show ?thesis by simp
qed

interpretation router: invariant_system "step E" event_ok system_inv
proof
  fix s :: "'a router option" and e
  assume inv: "system_inv s" and ok: "event_ok e s"
  have keep: "system_inv (case r of (Fault, _) \<Rightarrow> None | (_, s') \<Rightarrow> Some s')"
    if "post (\<lambda>_. router_inv) router_inv (\<lambda>_. True) r" for r :: "'b outcome \<times> 'a router"
    using that by (cases r rule: outcome_cases) (auto simp: system_inv_def)
  show "system_inv (step E e s)"
  proof (cases s)
    case None
    then show ?thesis by (simp add: step_def system_inv_def)
  next
    case (Some u)
    then have "router_inv u" using inv by (simp add: system_inv_def)
    then show ?thesis using Some ok
      by (cases e) (auto simp: step_def event_ok_def intro!: keep handle_process_inv remote_inv)
  qed
qed

section \<open>The empty router\<close>

definition empty_router :: "config_t \<Rightarrow> ibv_device \<Rightarrow> ibv_port_attr \<Rightarrow> gid \<Rightarrow> u32 \<Rightarrow> 'w \<Rightarrow> 'w router" where
  "empty_router cf dev pa g pd w =
     \<lparr>config = cf, g_ib_dev = dev, g_port_attr = pa, g_src_gid = g, g_src_lid = pa_lid pa, g_pd_handle = pd,
      host_map = Map.empty, conn_map = Map.empty, shm_map = Map.empty, cq_qp_map = Map.empty,
      src_qp_map = Map.empty, dst_qp_map = Map.empty, lkey_offset_map = Map.empty, held = {},
      conn_heap = Map.empty, qp_heap = Map.empty, piece_heap = Map.empty, next_ptr = 1,
      freed_reads = 0, world = w\<rparr>"

lemma empty_router_inv: "router_inv (empty_router cf dev pa g pd w)"
  by (simp add: router_inv_def empty_router_def pool_inv_empty shm_inv_def shm_slot_def)

text \<open>So every run from there keeps it, as long as the router lives.\<close>

lemma run_from_empty:
  assumes "run_ok (step E) event_ok es (Some (empty_router cf dev pa g pd w))"
    and "run_steps (step E) es (Some (empty_router cf dev pa g pd w)) = Some s"
  shows "router_inv s"
  using router.run_inv [of "Some (empty_router cf dev pa g pd w)" E es] assms
  by (simp add: system_inv_def empty_router_inv)

end
