(* ===== verification/Client_Verbs.thy ===== *)
theory Client_Verbs
  imports Dispatch
begin

text \<open>
  The verbs of \<open>libscale/verbs.c\<close> over a transport that carries one typed request to the
  router and brings back its reply; \<open>Client_Transport\<close> shows what the transport does with the
  bytes. Handles are made on the client, from the process id and a counter of 16 bits.
\<close>

unbundle bit_operations_syntax

section \<open>State and results\<close>

text \<open>
  A call of the transport: \<open>None\<close> when it does not return, \<open>Some None\<close> for the return code -1.
\<close>

type_synonym 's transport = "request \<Rightarrow> 's \<Rightarrow> (reply option \<times> 's) option"

text \<open>The static variables of \<open>verbs.c\<close>.\<close>

record client =
  cl_pid :: s32
  cl_cq_refcnt :: u16
  cl_qp_refcnt :: u16
  cl_cq_qp_map :: "u16 list"

datatype 'a cres = Ret 'a | Crash | Hang

definition request :: "'s transport \<Rightarrow> request \<Rightarrow> 's \<Rightarrow> (reply option \<Rightarrow> 'a cres) \<Rightarrow> 'a cres \<times> 's" where
  "request call r s k = (case call r s of None \<Rightarrow> (Hang, s) | Some (rsp, s') \<Rightarrow> (k rsp, s'))"

section \<open>Handles\<close>

text \<open>\<open>((uint32_t)process_id << 16) | refcnt\<close>\<close>

definition make_handle :: "s32 \<Rightarrow> u16 \<Rightarrow> u32" where
  "make_handle pid refcnt = push_bit 16 pid OR ucast refcnt"

definition low_word :: "u32 \<Rightarrow> u16" where
  "low_word h = ucast (h AND 0xFFFF)"

lemma bit_make_handle:
  "bit (make_handle pid r) i \<longleftrightarrow> i < 32 \<and> (if i < 16 then bit r i else bit pid (i - 16))"
  using not_bit_length [of r] bit_imp_le_length [of r i]
  by (auto simp: make_handle_def bit_simps)

lemma low_word_make_handle [simp]: "low_word (make_handle pid r) = r"
proof (rule bit_word_eqI)
  fix i assume "i < LENGTH(16)"
  moreover have "bit (0xFFFF :: u32) i \<longleftrightarrow> i < 16" if "i < 32" for i
    using bit_mask_iff [of 16 i, where ?'a = u32] by (auto simp add: mask_eq_exp_minus_1)
  ultimately show "bit (low_word (make_handle pid r)) i = bit r i"
    by (simp add: low_word_def bit_simps bit_make_handle)
qed

text \<open>Two handles are equal exactly when the counters and the low 16 bits of the process ids are.\<close>

lemma make_handle_eq_iff:
  "make_handle p a = make_handle q b \<longleftrightarrow> a = b \<and> (ucast p :: u16) = ucast q"
proof
  assume eq: "make_handle p a = make_handle q b"
  then have "a = b" by (metis low_word_make_handle)
  moreover have "(ucast p :: u16) = ucast q"
  proof (rule bit_word_eqI)
    fix i assume "i < LENGTH(16)"
    then show "bit (ucast p :: u16) i = bit (ucast q :: u16) i"
      using arg_cong [OF eq, of "\<lambda>h. bit h (i + 16)"] by (simp add: bit_make_handle bit_simps)
  qed
  ultimately show "a = b \<and> (ucast p :: u16) = ucast q" by blast
next
  assume eq: "a = b \<and> (ucast p :: u16) = ucast q"
  have "bit p j = bit q j" if "j < 16" for j
    using arg_cong [OF conjunct2 [OF eq], of "\<lambda>h. bit h j"] that by (simp add: bit_simps)
  then show "make_handle p a = make_handle q b"
    using eq by (intro bit_word_eqI) (auto simp: bit_make_handle)
qed

section \<open>Completion queues\<close>

record ibv_cq =
  cq_handle :: u32
  cq_cqe :: int

definition ibv_create_cq :: "int \<Rightarrow> client \<Rightarrow> ibv_cq \<times> client" where
  "ibv_create_cq cqe cl =
     (\<lparr>cq_handle = make_handle (cl_pid cl) (cl_cq_refcnt cl), cq_cqe = cqe\<rparr>,
      cl\<lparr>cl_cq_refcnt := cl_cq_refcnt cl + 1\<rparr>)"

text \<open>The request to the router is commented out; the result is always 0.\<close>

definition ibv_destroy_cq :: "ibv_cq \<Rightarrow> int" where
  "ibv_destroy_cq cq =
     (let rc = 1 :: int; flags = 1 :: u8 in
      if rc = -1 then -1 else if flags \<noteq> 0 then 0 else -1)"

section \<open>Queue pairs\<close>

record scale_qp =
  q_handle :: u32
  q_qp_num :: u32
  q_state :: ibv_qp_state
  q_send_cq :: ibv_cq
  q_recv_cq :: ibv_cq
  q_type :: u32
  q_dst_v_qp_num :: u32

text \<open>
  \<open>cq_qp_map\<close> has 1024 entries and is written at the low word of the handle of the completion
  queue: a counter past 1023 is out of its bounds. \<open>Ret None\<close> is \<open>NULL\<close>.
\<close>

definition ibv_create_qp ::
  "'s transport \<Rightarrow> ibv_cq \<Rightarrow> ibv_cq \<Rightarrow> u32 \<Rightarrow> client \<Rightarrow> 's \<Rightarrow> scale_qp option cres \<times> client \<times> 's" where
  "ibv_create_qp call send_cq recv_cq qp_type cl s =
     (if cq_handle recv_cq \<noteq> cq_handle send_cq then (Ret None, cl, s)
      else
        (let handle = make_handle (cl_pid cl) (cl_qp_refcnt cl);
             cl = cl\<lparr>cl_qp_refcnt := cl_qp_refcnt cl + 1\<rparr>;
             i = unat (low_word (cq_handle send_cq)) in
         if 1024 \<le> i then (Crash, cl, s)
         else
           (let cl = cl\<lparr>cl_cq_qp_map := (cl_cq_qp_map cl)[i := low_word handle]\<rparr>;
                (r, s) = request call
                  (Ibv_Create_Qp \<lparr>cq_send_cq_handle = cq_handle send_cq,
                     cq_recv_cq_handle = cq_handle recv_cq, cq_qp_handle = handle\<rparr>) s
                  (\<lambda>rsp. case rsp of
                     Some (Qpn_Rsp n) \<Rightarrow> Ret (Some \<lparr>q_handle = handle, q_qp_num = n, q_state = IBV_QPS_RESET,
                       q_send_cq = send_cq, q_recv_cq = recv_cq, q_type = qp_type, q_dst_v_qp_num = 0\<rparr>)
                   | _ \<Rightarrow> Ret None)
            in (r, cl, s))))"

text \<open>
  Only \<open>IBV_QPS_RTR\<close> talks to the router; the \<open>flag\<close> of its answer is not looked at.
\<close>

definition ibv_modify_qp ::
  "'s transport \<Rightarrow> scale_qp \<Rightarrow> ibv_qp_attr \<Rightarrow> u32 \<Rightarrow> 's \<Rightarrow> (int \<times> scale_qp) cres \<times> 's" where
  "ibv_modify_qp call qp attr attr_mask s =
     (if attr_mask AND IBV_QP_STATE \<noteq> 0 then
        (case qa_qp_state attr of
           IBV_QPS_INIT \<Rightarrow> (Ret (0, qp\<lparr>q_state := IBV_QPS_INIT\<rparr>), s)
         | IBV_QPS_RTR \<Rightarrow>
             (let req = \<lparr>mq_dst_gid = take 16 (grh_dgid attr), mq_dst_lid = ah_dlid attr,
                    mq_dst_v_qp_num = qa_dest_qp_num attr, mq_src_v_qp_num = q_qp_num qp,
                    mq_src_v_qp_handle = q_handle qp, mq_qp_state = 2\<rparr>;
                  qp = qp\<lparr>q_dst_v_qp_num := qa_dest_qp_num attr\<rparr>
              in request call (Ibv_Modify_Qp req) s (\<lambda>rsp. case rsp of
                   None \<Rightarrow> Ret (-1, qp)
                 | Some _ \<Rightarrow> Ret (0, qp\<lparr>q_state := IBV_QPS_RTR\<rparr>)))
         | IBV_QPS_RTS \<Rightarrow> (Ret (0, qp\<lparr>q_state := IBV_QPS_RTS\<rparr>), s)
         | _ \<Rightarrow> (Ret (0, qp), s))
      else (Ret (0, qp), s))"

definition ibv_destroy_qp :: "'s transport \<Rightarrow> scale_qp \<Rightarrow> 's \<Rightarrow> int cres \<times> 's" where
  "ibv_destroy_qp call qp s =
     request call (Ibv_Destroy_Qp \<lparr>dq_qp_handle = q_handle qp, dq_dst_v_qp_num = q_dst_v_qp_num qp\<rparr>) s
       (\<lambda>rsp. case rsp of
          Some (Flags_Rsp flags) \<Rightarrow> Ret (if flags \<noteq> 0 then 0 else -1)
        | _ \<Rightarrow> Ret (-1))"

section \<open>Posting and polling\<close>

record send_wr =
  sw_wr_id :: u64
  sw_opcode :: s32
  sw_addr :: u64
  sw_length :: u32
  sw_lkey :: u32
  sw_remote_addr :: u64
  sw_rkey :: u32

text \<open>The request's \<open>wr_id\<close> is an \<open>int\<close>: it keeps the low 32 bits.\<close>

definition send_req_of :: "scale_qp \<Rightarrow> send_wr \<Rightarrow> post_send_req" where
  "send_req_of qp wr =
     \<lparr>ps_qp_handle = q_handle qp, ps_client_addr = sw_addr wr, ps_opcode = sw_opcode wr,
      ps_wr_id = ucast (sw_wr_id wr), ps_lkey = sw_lkey wr, ps_length = ucast (sw_length wr),
      ps_remote_router_addr = (if sw_opcode wr \<noteq> IBV_WR_SEND then sw_remote_addr wr else 0),
      ps_rkey = (if sw_opcode wr \<noteq> IBV_WR_SEND then sw_rkey wr else 0)\<rparr>"

definition wr_id_answer :: "s32 \<Rightarrow> reply option \<Rightarrow> int cres" where
  "wr_id_answer pid rsp = (case rsp of Some (Wr_Id_Rsp w) \<Rightarrow> Ret (if w \<noteq> pid then -1 else 0) | _ \<Rightarrow> Ret (-1))"

definition client_post_send :: "'s transport \<Rightarrow> client \<Rightarrow> scale_qp \<Rightarrow> send_wr \<Rightarrow> 's \<Rightarrow> int cres \<times> 's" where
  "client_post_send call cl qp wr s =
     request call (Ibv_Post_Send (send_req_of qp wr)) s (wr_id_answer (cl_pid cl))"

definition recv_req_of :: "scale_qp \<Rightarrow> send_wr \<Rightarrow> post_recv_req" where
  "recv_req_of qp wr =
     \<lparr>pr_qp_handle = q_handle qp, pr_client_addr = sw_addr wr, pr_lkey = sw_lkey wr,
      pr_wr_id = ucast (sw_wr_id wr), pr_length = ucast (sw_length wr)\<rparr>"

definition client_post_recv :: "'s transport \<Rightarrow> client \<Rightarrow> scale_qp \<Rightarrow> send_wr \<Rightarrow> 's \<Rightarrow> int cres \<times> 's" where
  "client_post_recv call cl qp wr s =
     request call (Ibv_Post_Recv (recv_req_of qp wr)) s (wr_id_answer (cl_pid cl))"

text \<open>
  The queue pair is found through \<open>cq_qp_map\<close> again. The result is the count with the
  completion written to the caller's \<open>wc\<close>.
\<close>

definition poll_req_of :: "client \<Rightarrow> ibv_cq \<Rightarrow> s32 \<Rightarrow> poll_cq_req" where
  "poll_req_of cl cq num_entries =
     \<lparr>pc_cq_handle = cq_handle cq,
      pc_qp_handle = make_handle (cl_pid cl) (cl_cq_qp_map cl ! unat (low_word (cq_handle cq))),
      pc_num_entries = num_entries\<rparr>"

definition client_poll_cq ::
  "'s transport \<Rightarrow> client \<Rightarrow> ibv_cq \<Rightarrow> s32 \<Rightarrow> ibv_wc \<Rightarrow> 's \<Rightarrow> (int \<times> ibv_wc) cres \<times> 's" where
  "client_poll_cq call cl cq num_entries wc s =
     (if num_entries \<noteq> 1 then (Ret (-1, wc), s)
      else if length (cl_cq_qp_map cl) \<le> unat (low_word (cq_handle cq)) then (Crash, s)
      else
        request call (Ibv_Poll_Cq (poll_req_of cl cq num_entries)) s (\<lambda>rsp. case rsp of
          Some (Poll_Rsp p) \<Rightarrow>
            Ret (sint (pp_count p),
              wc\<lparr>wc_status := pp_status p, wc_opcode := pp_opcode p, wc_wr_id := pp_wr_id p\<rparr>)
        | _ \<Rightarrow> Ret (-1, wc)))"

section \<open>Memory regions\<close>

record scale_mr =
  sm_addr :: u64
  sm_length :: u64
  sm_handle :: u32
  sm_lkey :: u32
  sm_rkey :: u32
  sm_shm_name :: string
  sm_router_mr :: ptr
  sm_router_addr :: u64
  sm_router_shm_fd :: int

text \<open>
  The calls that map the segment over the client's buffer: \<open>shm_open\<close>, \<open>ftruncate\<close> and
  \<open>mmap\<close> with \<open>MAP_FIXED\<close>. The address must be aligned to a page.
\<close>

record 's csys =
  k_shm_open :: "string \<Rightarrow> 's \<Rightarrow> int \<times> 's"
  k_ftruncate :: "int \<Rightarrow> u64 \<Rightarrow> 's \<Rightarrow> int \<times> 's"
  k_mmap_fixed :: "u64 \<Rightarrow> u64 \<Rightarrow> int \<Rightarrow> 's \<Rightarrow> u64 \<times> 's"

definition client_reg_mr ::
  "'s csys \<Rightarrow> 's transport \<Rightarrow> u64 \<Rightarrow> u64 \<Rightarrow> u32 \<Rightarrow> 's \<Rightarrow> scale_mr option cres \<times> 's" where
  "client_reg_mr K call addr len access s =
     (if sint addr mod 4096 \<noteq> 0 then (Ret None, s)
      else
        (case call (Ibv_Reg_Mr \<lparr>rm_access_flag = access, rm_length = len, rm_client_addr = addr\<rparr>) s of
           None \<Rightarrow> (Hang, s)
         | Some (Some (Mr_Rsp rsp), s) \<Rightarrow>
             (let (fd, s) = k_shm_open K (rs_shm_name rsp) s;
                  (ret, s) = k_ftruncate K fd len s;
                  (shm_ptr, s) = k_mmap_fixed K addr len fd s in
              if shm_ptr = MAP_FAILED \<or> ret > 0 then (Ret None, s)
              else if shm_ptr \<noteq> addr then (Ret None, s)
              else
                (Ret (Some \<lparr>sm_addr = addr, sm_length = len, sm_handle = rs_handle rsp,
                   sm_lkey = rs_lkey rsp, sm_rkey = rs_rkey rsp, sm_shm_name = rs_shm_name rsp,
                   sm_router_mr = rs_router_mr rsp, sm_router_addr = rs_router_addr rsp,
                   sm_router_shm_fd = rs_router_shm_fd rsp\<rparr>), s))
         | Some (_, s) \<Rightarrow> (Ret None, s)))"

definition client_dereg_mr :: "'s transport \<Rightarrow> scale_mr \<Rightarrow> 's \<Rightarrow> int cres \<times> 's" where
  "client_dereg_mr call mr s =
     request call (Ibv_Dereg_Mr \<lparr>dm_shm_name = sm_shm_name mr, dm_lkey = sm_lkey mr,
         dm_router_shm_fd = sm_router_shm_fd mr, dm_length = sm_length mr,
         dm_router_mr = sm_router_mr mr, dm_router_addr = sm_router_addr mr\<rparr>) s
       (\<lambda>rsp. case rsp of
          Some (Flags_Rsp flags) \<Rightarrow> Ret (if flags \<noteq> 0 then 0 else -1)
        | _ \<Rightarrow> Ret (-1))"

text \<open>The address a peer is told for RDMA, and registration under another name.\<close>

definition scale_get_router_addr :: "scale_mr \<Rightarrow> u64" where
  "scale_get_router_addr mr = sm_router_addr mr"

definition ibv_reg_mr_iova2 ::
  "'s csys \<Rightarrow> 's transport \<Rightarrow> u64 \<Rightarrow> u64 \<Rightarrow> u64 \<Rightarrow> u32 \<Rightarrow> 's \<Rightarrow> scale_mr option cres \<times> 's" where
  "ibv_reg_mr_iova2 K call addr len iova access s = client_reg_mr K call addr len access s"

text \<open>
  A region that is handed out starts at the page the client asked for and carries the keys and
  the address of the router's answer.
\<close>

lemma client_reg_mr_Some:
  assumes "client_reg_mr K call addr len access s = (Ret (Some mr), s')"
  shows "sint addr mod 4096 = 0 \<and> sm_addr mr = addr \<and> sm_length mr = len
    \<and> (\<exists>rsp s1. call (Ibv_Reg_Mr \<lparr>rm_access_flag = access, rm_length = len, rm_client_addr = addr\<rparr>) s
          = Some (Some (Mr_Rsp rsp), s1)
        \<and> scale_get_router_addr mr = rs_router_addr rsp \<and> sm_lkey mr = rs_lkey rsp \<and> sm_rkey mr = rs_rkey rsp)"
  using assms
  by (auto simp: client_reg_mr_def scale_get_router_addr_def Let_def
      split: if_splits option.splits reply.splits prod.splits)

section \<open>Queries\<close>

definition ibv_get_device_name :: "ibv_device \<Rightarrow> u8 list" where
  "ibv_get_device_name device = dv_name device"

definition client_alloc_pd :: "'s transport \<Rightarrow> 's \<Rightarrow> u32 option cres \<times> 's" where
  "client_alloc_pd call s =
     request call Ibv_Alloc_Pd s (\<lambda>rsp. case rsp of Some (Handle_Rsp h) \<Rightarrow> Ret (Some h) | _ \<Rightarrow> Ret None)"

definition client_query_gid :: "'s transport \<Rightarrow> gid \<Rightarrow> 's \<Rightarrow> (int \<times> gid) cres \<times> 's" where
  "client_query_gid call g s =
     request call Ibv_Query_Gid s (\<lambda>rsp. case rsp of Some (Gid_Rsp g') \<Rightarrow> Ret (0, g') | _ \<Rightarrow> Ret (-1, g))"

definition client_query_port :: "'s transport \<Rightarrow> ibv_port_attr \<Rightarrow> 's \<Rightarrow> (int \<times> ibv_port_attr) cres \<times> 's" where
  "client_query_port call pa s =
     request call Ibv_Query_Port s (\<lambda>rsp. case rsp of
       Some (Port_Rsp p) \<Rightarrow> Ret (0, port_attr_of_rsp p pa) | _ \<Rightarrow> Ret (-1, pa))"

text \<open>The first call of a client: it also clears \<open>cq_qp_map\<close>.\<close>

definition client_get_device_list ::
  "'s transport \<Rightarrow> client \<Rightarrow> 's \<Rightarrow> ibv_device option cres \<times> client \<times> 's" where
  "client_get_device_list call cl s =
     (let (r, s) = request call Ibv_Get_Device_List s (\<lambda>rsp. case rsp of
            Some (Device_Rsp bs) \<Rightarrow> Ret (Some (device_of_rsp bs)) | _ \<Rightarrow> Ret None)
      in (r, (case r of Ret (Some _) \<Rightarrow> cl\<lparr>cl_cq_qp_map := replicate 1024 0\<rparr> | _ \<Rightarrow> cl), s))"

section \<open>The router as the transport\<close>

text \<open>
  One thread serves the request with complete reads and writes. A killed thread closes the socket, and
  the client's read loop then never ends (\<open>request_router_hangs\<close>); the same when the thread
  waits for ever or the router crashes.
\<close>

definition router_call ::
  "'w env \<Rightarrow> s32 \<Rightarrow> (int \<times> info) list \<Rightarrow> u8 list \<Rightarrow> QUERY_PORT_RSP \<Rightarrow> 'w router transport" where
  "router_call E pid arrivals buf port r s =
     (let body = (case request_call r of None \<Rightarrow> 0 | Some f \<Rightarrow> router_body_size f);
          t = \<lparr>t_header = request_header pid r, t_n = 12, t_m = of_nat body, t_w = of_nat (rsp_size_of r),
            t_request = r, t_arrivals = arrivals, t_rsp = buf, t_port = port\<rparr> in
      case handle_process E t s of
        (Done (Some rsp), s') \<Rightarrow> Some (Some rsp, s')
      | (_, s') \<Rightarrow> None)"

text \<open>Complete reads pass the tests, so the case is served.\<close>

lemma router_call_case:
  "router_call E pid arrivals buf port r s =
    (case handle_case E \<lparr>t_header = request_header pid r, t_n = 12,
       t_m = of_nat (case request_call r of None \<Rightarrow> 0 | Some f \<Rightarrow> router_body_size f), t_w = of_nat (rsp_size_of r),
       t_request = r, t_arrivals = arrivals, t_rsp = buf, t_port = port\<rparr> s of
      (Done (Some rsp), s') \<Rightarrow> Some (Some rsp, s') | (_, s') \<Rightarrow> None)"
  unfolding router_call_def handle_process_def Let_def
  by (simp add: header_size int_lt_size_def body_short_def ssize_lt_size_def write_complete split: option.split)

text \<open>The kernel of the host under the client: its calls change the world the router sees, and nothing of the router.\<close>

definition on_host :: "'w csys \<Rightarrow> 'w router csys" where
  "on_host K =
     \<lparr>k_shm_open = (\<lambda>name s. let (fd, w) = k_shm_open K name (world s) in (fd, s\<lparr>world := w\<rparr>)),
      k_ftruncate = (\<lambda>fd len s. let (ret, w) = k_ftruncate K fd len (world s) in (ret, s\<lparr>world := w\<rparr>)),
      k_mmap_fixed = (\<lambda>addr len fd s. let (p, w) = k_mmap_fixed K addr len fd (world s) in (p, s\<lparr>world := w\<rparr>))\<rparr>"

section \<open>What the verbs promise\<close>

text \<open>
  Polling the completion queue a queue pair was created on asks the router for this queue
  pair.
\<close>

lemma poll_finds_qp:
  assumes "ibv_create_qp call cq cq ty cl s = (Ret (Some qp), cl', s')" and "length (cl_cq_qp_map cl) = 1024"
  shows "pc_qp_handle (poll_req_of cl' cq n) = q_handle qp" and "cl_pid cl' = cl_pid cl"
proof -
  have lt: "unat (low_word (cq_handle cq)) < 1024"
    using assms(1) by (auto simp: ibv_create_qp_def Let_def split: if_splits)
  then show "pc_qp_handle (poll_req_of cl' cq n) = q_handle qp"
    using assms
    by (auto simp: ibv_create_qp_def request_def poll_req_of_def Let_def
        split: if_splits option.splits prod.splits reply.splits)
  show "cl_pid cl' = cl_pid cl"
    using assms(1) lt
    by (auto simp: ibv_create_qp_def request_def Let_def split: option.splits prod.splits)
qed

text \<open>The flag of the answer is ignored: the client reports success in either case.\<close>

lemma modify_ignores_flag:
  assumes "qa_qp_state attr = IBV_QPS_RTR" and "amask AND IBV_QP_STATE \<noteq> 0"
    and "call (Ibv_Modify_Qp \<lparr>mq_dst_gid = take 16 (grh_dgid attr), mq_dst_lid = ah_dlid attr,
        mq_dst_v_qp_num = qa_dest_qp_num attr, mq_src_v_qp_num = q_qp_num qp,
        mq_src_v_qp_handle = q_handle qp, mq_qp_state = 2\<rparr>) s = Some (Some (Flags_Rsp flag), s')"
  shows "ibv_modify_qp call qp attr amask s =
    (Ret (0, qp\<lparr>q_dst_v_qp_num := qa_dest_qp_num attr, q_state := IBV_QPS_RTR\<rparr>), s')"
  using assms by (simp add: ibv_modify_qp_def request_def)

end
