(* ===== verification/Client_Session.thy ===== *)
theory Client_Session
  imports Client_Verbs
begin

unbundle bit_operations_syntax

text \<open>
  A client that makes one completion queue and one queue pair after the other, and polls: the
  table \<open>cq_qp_map\<close> of \<open>verbs.c\<close> over a whole session.
\<close>

section \<open>One pair\<close>

lemma create_pair:
  assumes len: "length (cl_cq_qp_map cl) = 1024" and lt: "unat (cl_cq_refcnt cl) < 1024"
    and cq: "ibv_create_cq cqe cl = (cq, cl1)" and qp: "ibv_create_qp call cq cq ty cl1 s = (Ret (Some qp), cl2, s')"
  shows "cl2 = cl\<lparr>cl_cq_refcnt := cl_cq_refcnt cl + 1, cl_qp_refcnt := cl_qp_refcnt cl + 1,
      cl_cq_qp_map := (cl_cq_qp_map cl)[unat (cl_cq_refcnt cl) := cl_qp_refcnt cl]\<rparr>"
    and "cq_handle cq = make_handle (cl_pid cl) (cl_cq_refcnt cl)"
    and "q_handle qp = make_handle (cl_pid cl) (cl_qp_refcnt cl)"
  using assms
  by (auto simp: ibv_create_cq_def ibv_create_qp_def request_def Let_def
      split: if_splits option.splits prod.splits reply.splits)

text \<open>The completion queue after the 1024th has no entry of the table: creating its queue pair writes behind it.\<close>

lemma create_qp_overrun:
  assumes "1024 \<le> unat (cl_cq_refcnt cl)" and "ibv_create_cq cqe cl = (cq, cl1)"
  shows "\<exists>cl2. ibv_create_qp call cq cq ty cl1 s = (Crash, cl2, s)"
  using assms by (auto simp: ibv_create_cq_def ibv_create_qp_def Let_def)

section \<open>Many pairs\<close>

fun make_pairs ::
  "'s transport \<Rightarrow> (int \<times> u32) list \<Rightarrow> client \<Rightarrow> 's \<Rightarrow> (ibv_cq \<times> scale_qp) list \<times> client \<times> 's" where
  "make_pairs call [] cl s = ([], cl, s)"
| "make_pairs call ((cqe, qp_type) # xs) cl s =
     (let (cq, cl) = ibv_create_cq cqe cl;
          (r, cl, s) = ibv_create_qp call cq cq qp_type cl s in
      case r of
        Ret (Some qp) \<Rightarrow> (let (ps, cl, s) = make_pairs call xs cl s in ((cq, qp) # ps, cl, s))
      | _ \<Rightarrow> ([], cl, s))"

text \<open>The counters go up, and what the table held for older completion queues stays.\<close>

definition older_kept :: "client \<Rightarrow> client \<Rightarrow> bool" where
  "older_kept cl cl' \<longleftrightarrow> cl_pid cl' = cl_pid cl \<and> length (cl_cq_qp_map cl') = 1024
     \<and> (\<forall>i < unat (cl_cq_refcnt cl). cl_cq_qp_map cl' ! i = cl_cq_qp_map cl ! i)"

lemma create_qp_failed:
  assumes "length (cl_cq_qp_map cl) = 1024" and "ibv_create_cq cqe cl = (cq, cl1)"
    and "ibv_create_qp call cq cq ty cl1 s = (r, cl2, s')"
  shows "older_kept cl cl2"
  using assms
  by (auto simp: ibv_create_cq_def ibv_create_qp_def request_def older_kept_def Let_def
      split: if_splits option.splits prod.splits)

lemma unat_Suc16: "unat (x :: u16) + Suc n \<le> 1024 \<Longrightarrow> unat (x + 1) = Suc (unat x)"
  by (subst unat_add_lem [THEN iffD1]) auto

lemma make_pairs_table:
  assumes "make_pairs call xs cl s = (ps, cl', s')" and "length (cl_cq_qp_map cl) = 1024"
    and "unat (cl_cq_refcnt cl) + length xs \<le> 1024"
  shows "older_kept cl cl'
    \<and> (\<forall>i < length ps. cq_handle (fst (ps ! i)) = make_handle (cl_pid cl) (cl_cq_refcnt cl + of_nat i)
        \<and> q_handle (snd (ps ! i)) = make_handle (cl_pid cl) (cl_qp_refcnt cl + of_nat i)
        \<and> cl_cq_qp_map cl' ! (unat (cl_cq_refcnt cl) + i) = cl_qp_refcnt cl + of_nat i)"
  using assms
proof (induction xs arbitrary: cl s ps)
  case Nil
  then show ?case by (auto simp: older_kept_def)
next
  case (Cons x xs)
  obtain cqe ty where x: "x = (cqe, ty)" by fastforce
  obtain cq cl1 where cq: "ibv_create_cq cqe cl = (cq, cl1)" by fastforce
  obtain r cl2 s2 where qp: "ibv_create_qp call cq cq ty cl1 s = (r, cl2, s2)" by (metis prod_cases3)
  have kept: "older_kept cl cl2" by (rule create_qp_failed [OF Cons.prems(2) cq qp])
  show ?case
  proof (cases "\<exists>qp. r = Ret (Some qp)")
    case False
    then have "ps = []" "cl' = cl2" using Cons.prems(1) x cq qp by (auto split: cres.splits option.splits)
    then show ?thesis using kept by simp
  next
    case True
    then obtain q where r: "r = Ret (Some q)" by blast
    obtain ps' where ps: "ps = (cq, q) # ps'" and rest: "make_pairs call xs cl2 s2 = (ps', cl', s')"
      using Cons.prems(1) x cq qp r by (auto split: prod.splits)
    have lt: "unat (cl_cq_refcnt cl) < 1024" using Cons.prems(3) by simp
    note p = create_pair [OF Cons.prems(2) lt cq qp [unfolded r]]
    have c: "unat (cl_cq_refcnt cl + 1) = Suc (unat (cl_cq_refcnt cl))"
      using unat_Suc16 [of "cl_cq_refcnt cl" "length xs"] Cons.prems(3) by simp
    have IH: "older_kept cl2 cl'"
      "\<And>i. i < length ps' \<Longrightarrow> cq_handle (fst (ps' ! i)) = make_handle (cl_pid cl2) (cl_cq_refcnt cl2 + of_nat i)
        \<and> q_handle (snd (ps' ! i)) = make_handle (cl_pid cl2) (cl_qp_refcnt cl2 + of_nat i)
        \<and> cl_cq_qp_map cl' ! (unat (cl_cq_refcnt cl2) + i) = cl_qp_refcnt cl2 + of_nat i"
      using Cons.IH [OF rest] Cons.prems(2,3) p(1) c by simp_all
    have "older_kept cl cl'" using kept IH(1) p(1) c by (simp add: older_kept_def)
    moreover have "cl_cq_qp_map cl' ! unat (cl_cq_refcnt cl) = cl_qp_refcnt cl"
      using IH(1) p(1) c lt Cons.prems(2) by (simp add: older_kept_def)
    ultimately show ?thesis
      unfolding ps using IH(2) p c by (auto simp: nth_Cons' less_Suc_eq_0_disj algebra_simps)
  qed
qed

lemma make_pairs_length: "length (fst (make_pairs call xs cl s)) \<le> length xs"
  by (induction call xs cl s rule: make_pairs.induct)
    (auto simp: Let_def split: prod.split cres.split option.split)

text \<open>
  So polling the completion queue of each pair asks the router for the queue pair of the same
  pair, and the handles of the queue pairs are different.
\<close>

lemma polls_own_pair:
  assumes "make_pairs call xs cl s = (ps, cl', s')" and "length (cl_cq_qp_map cl) = 1024"
    and "unat (cl_cq_refcnt cl) + length xs \<le> 1024"
  shows "list_all (\<lambda>p. pc_qp_handle (poll_req_of cl' (fst p) n) = q_handle (snd p)) ps
    \<and> distinct (map (q_handle \<circ> snd) ps)"
proof -
  have len: "length ps \<le> length xs" using make_pairs_length [of call xs cl s] assms(1) by simp
  note t = make_pairs_table [OF assms]
  have "pc_qp_handle (poll_req_of cl' (fst (ps ! i)) n) = q_handle (snd (ps ! i))" if "i < length ps" for i
  proof -
    have "unat (cl_cq_refcnt cl + of_nat i) = unat (cl_cq_refcnt cl) + i"
      using that len assms(3) by (subst unat_add_lem [THEN iffD1]) (auto simp: unat_of_nat take_bit_nat_eq_self)
    then show ?thesis using t that by (simp add: poll_req_of_def older_kept_def)
  qed
  moreover have "q_handle (snd (ps ! i)) \<noteq> q_handle (snd (ps ! j))" if "i < length ps" "j < length ps" "i \<noteq> j" for i j
  proof -
    have "(of_nat i :: u16) \<noteq> of_nat j"
      using that len assms(3) by (simp add: word_of_nat_eq_iff take_bit_nat_eq_self)
    then show ?thesis using t that by (simp add: make_handle_eq_iff)
  qed
  ultimately show ?thesis by (auto simp: list_all_length distinct_conv_nth)
qed

section \<open>With the router behind it\<close>

text \<open>A completion queue the router does not know yet gets its queue pair.\<close>

lemma router_creates:
  assumes "held s = {}" and "cq_qp_map s (cq_handle cq) = None" and "unat (low_word (cq_handle cq)) < 1024"
  shows "\<exists>cl2 qp w. ibv_create_qp (router_call E pid arrivals buf port) cq cq ty cl s =
      (Ret (Some qp), cl2, s\<lparr>cq_qp_map := (cq_qp_map s)(cq_handle cq \<mapsto> q_handle qp), world := w\<rparr>)"
proof -
  obtain addr w where a: "e_iface_addr E ''eth0'' (world s) = (addr, w)" by fastforce
  have "ibv_create_qp_h E req s =
      (Done addr, s\<lparr>cq_qp_map := (cq_qp_map s)(cq_handle cq \<mapsto> cq_qp_handle req), world := w\<rparr>)"
    if "cq_send_cq_handle req = cq_handle cq" for req
    using assms(1,2) a that by (simp add: ibv_create_qp_h_def acquire_def release_def)
  then show ?thesis
    using assms(3)
    by (simp add: ibv_create_qp_def request_def router_call_case handle_case_def replies_def Let_def) (rule exI, rule refl)
qed

lemma make_pairs_router:
  assumes "make_pairs (router_call E (cl_pid cl) arrivals buf port) xs cl s = (ps, cl', s')"
    and "length (cl_cq_qp_map cl) = 1024" and "unat (cl_cq_refcnt cl) + length xs \<le> 1024"
    and "held s = {}" and "\<forall>i < length xs. cq_qp_map s (make_handle (cl_pid cl) (cl_cq_refcnt cl + of_nat i)) = None"
  shows "length ps = length xs \<and> held s' = {}
    \<and> (\<forall>p \<in> set ps. cq_qp_map s' (cq_handle (fst p)) = Some (q_handle (snd p)))
    \<and> (\<forall>h. (\<forall>i < length xs. h \<noteq> make_handle (cl_pid cl) (cl_cq_refcnt cl + of_nat i)) \<longrightarrow> cq_qp_map s' h = cq_qp_map s h)"
  using assms
proof (induction xs arbitrary: cl s ps)
  case (Cons x xs)
  let ?call = "router_call E (cl_pid cl) arrivals buf port"
  obtain cqe ty where x: "x = (cqe, ty)" by fastforce
  obtain cq cl1 where cq: "ibv_create_cq cqe cl = (cq, cl1)" by fastforce
  have h: "cq_handle cq = make_handle (cl_pid cl) (cl_cq_refcnt cl)" using cq by (auto simp: ibv_create_cq_def)
  have none: "cq_qp_map s (cq_handle cq) = None" using Cons.prems(5) h by force
  have lt: "unat (cl_cq_refcnt cl) < 1024" using Cons.prems(3) by simp
  obtain cl2 q w where qp: "ibv_create_qp ?call cq cq ty cl1 s =
      (Ret (Some q), cl2, s\<lparr>cq_qp_map := (cq_qp_map s)(cq_handle cq \<mapsto> q_handle q), world := w\<rparr>)"
    using router_creates [OF Cons.prems(4) none, where E = E and pid = "cl_pid cl"] h lt by fastforce
  let ?s = "s\<lparr>cq_qp_map := (cq_qp_map s)(cq_handle cq \<mapsto> q_handle q), world := w\<rparr>"
  obtain ps' where ps: "ps = (cq, q) # ps'" and rest: "make_pairs ?call xs cl2 ?s = (ps', cl', s')"
    using Cons.prems(1) x cq qp by (auto split: prod.splits)
  note p = create_pair [OF Cons.prems(2) lt cq qp]
  have c: "unat (cl_cq_refcnt cl + 1) = Suc (unat (cl_cq_refcnt cl))"
    using unat_Suc16 [of "cl_cq_refcnt cl" "length xs"] Cons.prems(3) by simp
  have ne: "make_handle (cl_pid cl) (cl_cq_refcnt cl + 1 + of_nat i) \<noteq> cq_handle cq" if "i < length xs" for i
  proof -
    have "(of_nat (Suc i) :: u16) \<noteq> 0"
      using that Cons.prems(3) by (simp add: word_of_nat_eq_0_iff del: of_nat_Suc) (auto dest: dvd_imp_le)
    then show ?thesis by (simp add: h make_handle_eq_iff add.assoc)
  qed
  have old: "cq_qp_map s (make_handle (cl_pid cl) (cl_cq_refcnt cl + 1 + of_nat i)) = None" if "i < length xs" for i
    using Cons.prems(5) that by (auto simp: algebra_simps dest: spec [of _ "Suc i"])
  have IH: "length ps' = length xs \<and> held s' = {}
    \<and> (\<forall>p \<in> set ps'. cq_qp_map s' (cq_handle (fst p)) = Some (q_handle (snd p)))
    \<and> (\<forall>h. (\<forall>i < length xs. h \<noteq> make_handle (cl_pid cl) (cl_cq_refcnt cl + 1 + of_nat i)) \<longrightarrow> cq_qp_map s' h = cq_qp_map ?s h)"
    using Cons.IH [of cl2 ?s ps'] rest Cons.prems(2-4) p(1) c ne old by simp
  have "\<forall>i < length xs. cq_handle cq \<noteq> make_handle (cl_pid cl) (cl_cq_refcnt cl + 1 + of_nat i)" using ne by metis
  then have "cq_qp_map s' (cq_handle cq) = Some (q_handle q)" using IH by simp
  moreover have "cq_qp_map s' k = cq_qp_map s k"
    if k: "\<forall>i < Suc (length xs). k \<noteq> make_handle (cl_pid cl) (cl_cq_refcnt cl + of_nat i)" for k
  proof -
    have "k \<noteq> cq_handle cq" using spec [OF k, of 0] h by simp
    moreover have "k \<noteq> make_handle (cl_pid cl) (cl_cq_refcnt cl + 1 + of_nat i)" if "i < length xs" for i
      using spec [OF k, of "Suc i"] that by (simp add: algebra_simps)
    ultimately show ?thesis using IH by simp
  qed
  ultimately show ?case unfolding ps using IH by simp
qed simp

end
