(* ===== verification/Verbs_Header.thy ===== *)
theory Verbs_Header
  imports Client_Verbs Wire
begin

unbundle bit_operations_syntax

text \<open>
  The inline functions of \<open>verbs.h\<close>: they call the operations an \<open>ibv_context\<close> carries. A context
  of libscale has three of them, \<open>post_send\<close>, \<open>post_recv\<close> and \<open>poll_cq\<close>; what the others do to an
  application is shown here.
\<close>

section \<open>Contexts\<close>

text \<open>A pointer to a function of type \<open>'f\<close> is \<open>None\<close> when it is \<open>NULL\<close>.\<close>

record 'f ibv_context_ops =
  co_query_device :: "'f option"
  co_query_port :: "'f option"
  co_alloc_pd :: "'f option"
  co_dealloc_pd :: "'f option"
  co_reg_mr :: "'f option"
  co_rereg_mr :: "'f option"
  co_dereg_mr :: "'f option"
  co_alloc_mw :: "'f option"
  co_bind_mw :: "'f option"
  co_dealloc_mw :: "'f option"
  co_create_cq :: "'f option"
  co_poll_cq :: "'f option"
  co_req_notify_cq :: "'f option"
  co_cq_event :: "'f option"
  co_resize_cq :: "'f option"
  co_destroy_cq :: "'f option"
  co_create_srq :: "'f option"
  co_modify_srq :: "'f option"
  co_query_srq :: "'f option"
  co_destroy_srq :: "'f option"
  co_post_srq_recv :: "'f option"
  co_create_qp :: "'f option"
  co_query_qp :: "'f option"
  co_modify_qp :: "'f option"
  co_destroy_qp :: "'f option"
  co_post_send :: "'f option"
  co_post_recv :: "'f option"
  co_create_ah :: "'f option"
  co_destroy_ah :: "'f option"
  co_attach_mcast :: "'f option"
  co_detach_mcast :: "'f option"
  co_async_event :: "'f option"

record 'f ibv_context =
  cx_device :: ibv_device
  cx_ops :: "'f ibv_context_ops"
  cx_cmd_fd :: s32
  cx_async_fd :: s32
  cx_num_comp_vectors :: s32
  cx_abi_compat :: u64

definition null_ops :: "'f ibv_context_ops" where
  "null_ops = \<lparr>co_query_device = None, co_query_port = None, co_alloc_pd = None, co_dealloc_pd = None, co_reg_mr = None,
     co_rereg_mr = None, co_dereg_mr = None, co_alloc_mw = None, co_bind_mw = None, co_dealloc_mw = None,
     co_create_cq = None, co_poll_cq = None, co_req_notify_cq = None, co_cq_event = None, co_resize_cq = None,
     co_destroy_cq = None, co_create_srq = None, co_modify_srq = None, co_query_srq = None, co_destroy_srq =
     None, co_post_srq_recv = None, co_create_qp = None, co_query_qp = None, co_modify_qp = None,
     co_destroy_qp = None, co_post_send = None, co_post_recv = None, co_create_ah = None, co_destroy_ah =
     None, co_attach_mcast = None, co_detach_mcast = None, co_async_event = None\<rparr>"

text \<open>The functions of \<open>verbs.c\<close> a context of libscale points to; all else is zero from \<open>calloc\<close>.\<close>

datatype libscale_fn = Post_Send_Fn | Post_Recv_Fn | Poll_Cq_Fn

definition ibv_open_device :: "ibv_device \<Rightarrow> libscale_fn ibv_context" where
  "ibv_open_device device =
     \<lparr>cx_device = device,
      cx_ops = null_ops\<lparr>co_post_send := Some Post_Send_Fn, co_post_recv := Some Post_Recv_Fn,
        co_poll_cq := Some Poll_Cq_Fn\<rparr>,
      cx_cmd_fd = 1, cx_async_fd = 0, cx_num_comp_vectors = 0, cx_abi_compat = 0\<rparr>"

section \<open>Extended contexts\<close>

text \<open>
  A provider that sets \<open>abi_compat\<close> to -1 has placed the context at the end of a
  \<open>verbs_context\<close>, whose size it writes to \<open>sz\<close>: an operation is there when it lies within
  that size, counted from the end.
\<close>

record 'f verbs_context =
  vc_query_device_ex :: "'f option"
  vc_reserved_2 :: "'f option"
  vc_destroy_flow :: "'f option"
  vc_reserved_1 :: "'f option"
  vc_create_flow :: "'f option"
  vc_open_qp :: "'f option"
  vc_create_qp_ex :: "'f option"
  vc_get_srq_num :: "'f option"
  vc_create_srq_ex :: "'f option"
  vc_open_xrcd :: "'f option"
  vc_close_xrcd :: "'f option"
  vc_has_comp_mask :: u64
  vc_sz :: u64
  vc_context :: "'f ibv_context"

definition VERBS_ABI_IS_EXTENDED :: u64 where "VERBS_ABI_IS_EXTENDED = 0 - 1"

text \<open>\<open>around\<close>: what \<open>container_of\<close> finds at the address before the context.\<close>

definition verbs_get_ctx :: "'f verbs_context \<Rightarrow> 'f ibv_context option \<Rightarrow> 'f verbs_context option" where
  "verbs_get_ctx around ctx =
     (case ctx of
        None \<Rightarrow> None
      | Some c \<Rightarrow> if cx_abi_compat c \<noteq> VERBS_ABI_IS_EXTENDED then None else Some around)"

definition ibv_context_c :: cty where
  "ibv_context_c = CStruct [(''device'', CPtr), (''ops'', CArr CPtr 32), (''cmd_fd'', CI32), (''async_fd'', CI32),
     (''num_comp_vectors'', CI32), (''mutex'', CArr CU64 5), (''abi_compat'', CPtr)]"

definition verbs_context_c :: cty where
  "verbs_context_c = CStruct [(''query_device_ex'', CPtr), (''_reserved_2'', CPtr), (''destroy_flow'', CPtr),
     (''_reserved_1'', CPtr), (''create_flow'', CPtr), (''open_qp'', CPtr), (''create_qp_ex'', CPtr),
     (''get_srq_num'', CPtr), (''create_srq_ex'', CPtr), (''open_xrcd'', CPtr), (''close_xrcd'', CPtr),
     (''has_comp_mask'', CU64), (''sz'', CSizeT), (''context'', ibv_context_c)]"

definition offset_of :: "string \<Rightarrow> cty \<Rightarrow> nat" where
  "offset_of x t = (case map_of (layout t) x of None \<Rightarrow> 0 | Some (off, sz) \<Rightarrow> off)"

definition verbs_get_ctx_op ::
  "'f verbs_context \<Rightarrow> 'f ibv_context option \<Rightarrow> string \<Rightarrow> ('f verbs_context \<Rightarrow> 'f option) \<Rightarrow> 'f option" where
  "verbs_get_ctx_op around ctx name op =
     (case verbs_get_ctx around ctx of
        None \<Rightarrow> None
      | Some vctx \<Rightarrow>
          if vc_sz vctx < of_nat (c_size verbs_context_c - offset_of name verbs_context_c) then None else op vctx)"

text \<open>The last operation is there from a size of 352 bytes on, the first from 432, all of it.\<close>

lemma offsets_of_ops:
  "c_size verbs_context_c = 432" "offset_of ''query_device_ex'' verbs_context_c = 0"
  "offset_of ''open_xrcd'' verbs_context_c = 72" "offset_of ''close_xrcd'' verbs_context_c = 80"
  by code_simp+

section \<open>The inline functions\<close>

text \<open>
  What a call comes to: a function of the context, an exported function of the library, a call
  through \<open>NULL\<close>, or a value (\<open>NULL\<close> is 0) with the value given to \<open>errno\<close>.
\<close>

datatype 'f inlined = Calls 'f | Library string | Null_Call | Returns int "int option"

definition ENOSYS :: int where "ENOSYS = 38"
definition EINVAL :: int where "EINVAL = 22"

fun through :: "'f option \<Rightarrow> 'f inlined" where
  "through None = Null_Call"
| "through (Some f) = Calls f"

definition ibv_poll_cq :: "'f ibv_context \<Rightarrow> 'f inlined" where
  "ibv_poll_cq ctx = through (co_poll_cq (cx_ops ctx))"

definition ibv_req_notify_cq :: "'f ibv_context \<Rightarrow> 'f inlined" where
  "ibv_req_notify_cq ctx = through (co_req_notify_cq (cx_ops ctx))"

definition ibv_post_srq_recv :: "'f ibv_context \<Rightarrow> 'f inlined" where
  "ibv_post_srq_recv ctx = through (co_post_srq_recv (cx_ops ctx))"

definition ibv_post_send :: "'f ibv_context \<Rightarrow> 'f inlined" where
  "ibv_post_send ctx = through (co_post_send (cx_ops ctx))"

definition ibv_post_recv :: "'f ibv_context \<Rightarrow> 'f inlined" where
  "ibv_post_recv ctx = through (co_post_recv (cx_ops ctx))"

definition ibv_alloc_mw :: "'f ibv_context \<Rightarrow> 'f inlined" where
  "ibv_alloc_mw ctx =
     (case co_alloc_mw (cx_ops ctx) of None \<Rightarrow> Returns 0 (Some ENOSYS) | Some f \<Rightarrow> Calls f)"

definition ibv_dealloc_mw :: "'f ibv_context \<Rightarrow> 'f inlined" where
  "ibv_dealloc_mw ctx = through (co_dealloc_mw (cx_ops ctx))"

definition ibv_bind_mw :: "'f ibv_context \<Rightarrow> u32 \<Rightarrow> 'f inlined" where
  "ibv_bind_mw ctx mw_type = (if mw_type \<noteq> 1 then Returns EINVAL None else through (co_bind_mw (cx_ops ctx)))"

definition ibv_create_flow :: "'f verbs_context \<Rightarrow> 'f ibv_context \<Rightarrow> 'f inlined" where
  "ibv_create_flow around ctx =
     (case verbs_get_ctx_op around (Some ctx) ''create_flow'' vc_create_flow of
        None \<Rightarrow> Returns 0 None | Some f \<Rightarrow> Calls f)"

definition ibv_destroy_flow :: "'f verbs_context \<Rightarrow> 'f ibv_context \<Rightarrow> 'f inlined" where
  "ibv_destroy_flow around ctx =
     (case verbs_get_ctx_op around (Some ctx) ''destroy_flow'' vc_destroy_flow of
        None \<Rightarrow> Returns (- ENOSYS) None | Some f \<Rightarrow> Calls f)"

definition ibv_open_xrcd :: "'f verbs_context \<Rightarrow> 'f ibv_context \<Rightarrow> 'f inlined" where
  "ibv_open_xrcd around ctx =
     (case verbs_get_ctx_op around (Some ctx) ''open_xrcd'' vc_open_xrcd of
        None \<Rightarrow> Returns 0 (Some ENOSYS) | Some f \<Rightarrow> Calls f)"

text \<open>The only one that does not look whether the context is extended.\<close>

definition ibv_close_xrcd :: "'f verbs_context \<Rightarrow> 'f ibv_context \<Rightarrow> 'f inlined" where
  "ibv_close_xrcd around ctx =
     (case verbs_get_ctx around (Some ctx) of None \<Rightarrow> Null_Call | Some vctx \<Rightarrow> through (vc_close_xrcd vctx))"

definition ibv_get_srq_num :: "'f verbs_context \<Rightarrow> 'f ibv_context \<Rightarrow> 'f inlined" where
  "ibv_get_srq_num around ctx =
     (case verbs_get_ctx_op around (Some ctx) ''get_srq_num'' vc_get_srq_num of
        None \<Rightarrow> Returns ENOSYS None | Some f \<Rightarrow> Calls f)"

definition ibv_open_qp :: "'f verbs_context \<Rightarrow> 'f ibv_context \<Rightarrow> 'f inlined" where
  "ibv_open_qp around ctx =
     (case verbs_get_ctx_op around (Some ctx) ''open_qp'' vc_open_qp of
        None \<Rightarrow> Returns 0 (Some ENOSYS) | Some f \<Rightarrow> Calls f)"

definition ibv_create_srq_ex :: "'f verbs_context \<Rightarrow> 'f ibv_context \<Rightarrow> u32 \<Rightarrow> bool \<Rightarrow> 'f inlined" where
  "ibv_create_srq_ex around ctx cm basic =
     (if cm AND NOT (2 OR 1) = 0 \<and> cm AND 2 \<noteq> 0 \<and> (cm AND 1 = 0 \<or> basic) then Library ''ibv_create_srq''
      else
        (case verbs_get_ctx_op around (Some ctx) ''create_srq_ex'' vc_create_srq_ex of
           None \<Rightarrow> Returns 0 (Some ENOSYS) | Some f \<Rightarrow> Calls f))"

definition ibv_create_qp_ex :: "'f verbs_context \<Rightarrow> 'f ibv_context \<Rightarrow> u32 \<Rightarrow> 'f inlined" where
  "ibv_create_qp_ex around ctx cm =
     (if cm = 1 then Library ''ibv_create_qp''
      else
        (case verbs_get_ctx_op around (Some ctx) ''create_qp_ex'' vc_create_qp_ex of
           None \<Rightarrow> Returns 0 (Some ENOSYS) | Some f \<Rightarrow> Calls f))"

text \<open>\<open>run\<close>: what the extended query returns.\<close>

definition ibv_query_device_ex :: "('f \<Rightarrow> int) \<Rightarrow> 'f verbs_context \<Rightarrow> 'f ibv_context \<Rightarrow> 'f inlined" where
  "ibv_query_device_ex run around ctx =
     (case verbs_get_ctx_op around (Some ctx) ''query_device_ex'' vc_query_device_ex of
        None \<Rightarrow> Library ''ibv_query_device''
      | Some f \<Rightarrow> if run f = ENOSYS then Library ''ibv_query_device'' else Returns (run f) None)"

definition ibv_inc_rkey :: "u32 \<Rightarrow> u32" where
  "ibv_inc_rkey rkey =
     (let low = 0x000000ff :: u32; newtag = ucast ((rkey + 1) AND low) :: u8
      in (rkey AND NOT low) OR ucast newtag)"

section \<open>On a context of libscale\<close>

lemma libscale_not_extended: "verbs_get_ctx_op around (Some (ibv_open_device d)) name op = None"
  by (simp add: verbs_get_ctx_op_def verbs_get_ctx_def ibv_open_device_def VERBS_ABI_IS_EXTENDED_def)

lemma libscale_ops:
  "co_post_send (cx_ops (ibv_open_device d)) = Some Post_Send_Fn" "co_post_recv (cx_ops (ibv_open_device d)) = Some Post_Recv_Fn"
  "co_poll_cq (cx_ops (ibv_open_device d)) = Some Poll_Cq_Fn" "co_req_notify_cq (cx_ops (ibv_open_device d)) = None"
  "co_alloc_mw (cx_ops (ibv_open_device d)) = None"
  by (simp_all add: ibv_open_device_def null_ops_def)

text \<open>
  The data path goes to \<open>verbs.c\<close>; everything extended is refused in the way the header
  promises, but a request for completion events calls through \<open>NULL\<close>.
\<close>

lemma libscale_data_path:
  "ibv_post_send (ibv_open_device d) = Calls Post_Send_Fn" "ibv_post_recv (ibv_open_device d) = Calls Post_Recv_Fn"
  "ibv_poll_cq (ibv_open_device d) = Calls Poll_Cq_Fn" "ibv_req_notify_cq (ibv_open_device d) = Null_Call"
  by (simp_all add: ibv_post_send_def ibv_post_recv_def ibv_poll_cq_def ibv_req_notify_cq_def libscale_ops)

lemma libscale_extended:
  "ibv_create_flow around (ibv_open_device d) = Returns 0 None"
  "ibv_open_xrcd around (ibv_open_device d) = Returns 0 (Some ENOSYS)"
  "ibv_open_qp around (ibv_open_device d) = Returns 0 (Some ENOSYS)"
  "ibv_get_srq_num around (ibv_open_device d) = Returns ENOSYS None"
  "ibv_alloc_mw (ibv_open_device d) = Returns 0 (Some ENOSYS)"
  "ibv_query_device_ex run around (ibv_open_device d) = Library ''ibv_query_device''"
  "ibv_create_qp_ex around (ibv_open_device d) cm =
     (if cm = 1 then Library ''ibv_create_qp'' else Returns 0 (Some ENOSYS))"
  by (simp_all add: ibv_create_flow_def ibv_open_xrcd_def ibv_open_qp_def ibv_alloc_mw_def ibv_query_device_ex_def
      ibv_get_srq_num_def ibv_create_qp_ex_def libscale_not_extended libscale_ops)

section \<open>Keys of memory windows\<close>

text \<open>The tag is counted up modulo 256 and the index above it stays; 256 steps are a round.\<close>

lemma ibv_inc_rkey_eq: "ibv_inc_rkey r = (r AND NOT (mask 8)) OR take_bit 8 (r + 1)"
proof -
  have m: "(0x000000ff :: u32) = mask 8" by (simp add: mask_eq_exp_minus_1)
  show ?thesis
    unfolding ibv_inc_rkey_def Let_def m
    by (rule bit_word_eqI) (auto simp: bit_simps)
qed

lemma ibv_inc_rkey_bits:
  "take_bit 8 (ibv_inc_rkey r) = take_bit 8 (r + 1)" "drop_bit 8 (ibv_inc_rkey r) = drop_bit 8 r"
proof -
  show "take_bit 8 (ibv_inc_rkey r) = take_bit 8 (r + 1)"
    unfolding ibv_inc_rkey_eq by (rule bit_word_eqI) (auto simp: bit_simps)
  show "drop_bit 8 (ibv_inc_rkey r) = drop_bit 8 r"
    unfolding ibv_inc_rkey_eq
  proof (rule bit_word_eqI)
    fix n
    assume "n < LENGTH(32)"
    have "bit r (8 + n) \<Longrightarrow> 8 + n < 32" using bit_imp_le_length [of r "8 + n"] by simp
    then show "bit (drop_bit 8 ((r AND NOT (mask 8)) OR take_bit 8 (r + 1))) n = bit (drop_bit 8 r) n"
      by (auto simp: bit_simps)
  qed
qed

lemma low_byte_add: "take_bit 8 (x + y) = take_bit 8 (take_bit 8 x + y)" for x y :: u32
proof (rule word_unat_eq_iff [THEN iffD2])
  have b: "unat (take_bit 8 z) = unat z mod 256" for z :: u32
    by (simp add: unsigned_take_bit_eq take_bit_eq_mod unat_mod)
  have m: "k mod 4294967296 mod 256 = k mod (256 :: nat)" for k by (rule mod_mod_cancel) simp
  show "unat (take_bit 8 (x + y)) = unat (take_bit 8 (take_bit 8 x + y))"
    by (simp add: b unat_word_ariths m mod_add_left_eq)
qed

lemma ibv_inc_rkey_pow:
  "take_bit 8 ((ibv_inc_rkey ^^ n) r) = take_bit 8 (r + of_nat n) \<and> drop_bit 8 ((ibv_inc_rkey ^^ n) r) = drop_bit 8 r"
proof (induction n)
  case (Suc n)
  then have "take_bit 8 ((ibv_inc_rkey ^^ n) r + 1) = take_bit 8 (r + of_nat n + 1)"
    by (metis low_byte_add)
  then show ?case using Suc by (simp add: ibv_inc_rkey_bits add.assoc add.commute [of 1])
qed simp

lemma ibv_inc_rkey_round: "(ibv_inc_rkey ^^ 256) r = r"
proof -
  have "take_bit 8 (r + 256) = take_bit 8 (256 + r)" by (simp only: add.commute)
  also have "\<dots> = take_bit 8 (take_bit 8 256 + r)" by (rule low_byte_add)
  also have "\<dots> = take_bit 8 r" by simp
  finally have t: "take_bit 8 ((ibv_inc_rkey ^^ 256) r) = take_bit 8 r"
    using ibv_inc_rkey_pow [of 256 r] by (simp only: of_nat_numeral)
  have d: "drop_bit 8 ((ibv_inc_rkey ^^ 256) r) = drop_bit 8 r" using ibv_inc_rkey_pow [of 256 r] by (simp only:)
  have "(ibv_inc_rkey ^^ 256) r
      = push_bit 8 (drop_bit 8 ((ibv_inc_rkey ^^ 256) r)) + take_bit 8 ((ibv_inc_rkey ^^ 256) r)"
    by (rule bits_ident [symmetric])
  also have "\<dots> = r" unfolding t d by (rule bits_ident)
  finally show ?thesis .
qed

end
