(* ===== verification/Refinement.thy ===== *)
theory Refinement
  imports Dispatch
begin

text \<open>
  What the pool of connections promises its clients, as an abstract system: a map from the
  handles of the virtual queue pairs to the GID of the host they are attached to, that only
  \<open>IBV_MODIFY_QP\<close> and \<open>IBV_DESTROY_QP\<close> change. The router implements it, event by event
  and over a whole run, and it keeps a physical connection exactly for the hosts in the range
  of the map.
\<close>

section \<open>Simulation\<close>

text \<open>
  A system with an invariant that follows an abstract one as long as it is live.
\<close>

locale simulation = invariant_system step ok inv
  for step :: "'e \<Rightarrow> 's \<Rightarrow> 's" and ok :: "'e \<Rightarrow> 's \<Rightarrow> bool" and inv :: "'s \<Rightarrow> bool" +
  fixes live :: "'s \<Rightarrow> bool" and abstr :: "'s \<Rightarrow> 'a" and spec :: "'e \<Rightarrow> 'a \<Rightarrow> 'a"
  assumes live_back: "live (step e s) \<Longrightarrow> live s"
    and follows: "inv s \<Longrightarrow> ok e s \<Longrightarrow> live (step e s) \<Longrightarrow> abstr (step e s) = spec e (abstr s)"
begin

lemma run_live: "live (run_steps step es s) \<Longrightarrow> live s"
  by (induction es arbitrary: s) (auto dest: live_back)

lemma run_follows:
  "inv s \<Longrightarrow> run_ok step ok es s \<Longrightarrow> live (run_steps step es s) \<Longrightarrow>
     abstr (run_steps step es s) = fold spec es (abstr s)"
proof (induction es arbitrary: s)
  case (Cons e es)
  then have "live (step e s)" using run_live by simp
  then show ?case using Cons follows step_inv by simp
qed simp

end

section \<open>The abstract pool\<close>

type_synonym pool = "u32 \<rightharpoonup> gid"

definition pool_spec :: "event \<Rightarrow> pool \<Rightarrow> pool" where
  "pool_spec e m = (case e of
      Peer fd n msg \<Rightarrow> m
    | Local t \<Rightarrow>
        if int_lt_size (t_n t) 12 \<or> body_short t then m
        else (case t_request t of
            Ibv_Modify_Qp req \<Rightarrow> m(mq_src_v_qp_handle req \<mapsto> take 16 (mq_dst_gid req))
          | Ibv_Destroy_Qp req \<Rightarrow> m(dq_qp_handle req := None)
          | _ \<Rightarrow> m))"

definition pool_of :: "'w router option \<Rightarrow> pool" where
  "pool_of s = (case s of None \<Rightarrow> Map.empty | Some s \<Rightarrow> (\<lambda>h. map_option dst_gid (src_qp_map s h)))"

lemma pool_of_update:
  "src_qp_map s' = (src_qp_map s)(h := k) \<Longrightarrow> pool_of (Some s') = (pool_of (Some s))(h := map_option dst_gid k)"
  by (auto simp: pool_of_def)

lemma pool_of_empty [simp]: "pool_of (Some (empty_router cf dev pa g pd w)) = Map.empty"
  by (simp add: pool_of_def empty_router_def)

lemma pool_of_same: "src_qp_map s' = src_qp_map s \<Longrightarrow> pool_of (Some s') = pool_of (Some s)"
  by (simp add: pool_of_def)

text \<open>All requests but two leave \<open>src_qp_map\<close> alone, whatever they answer.\<close>

lemma post_snd_any:
  assumes "post (\<lambda>_. Q) Q F r" and "fst r \<noteq> Fault"
  shows "Q (snd r)"
  using assms by (cases r rule: outcome_cases) auto

lemma fst_replies_Fault: "fst (replies f r) = Fault \<longleftrightarrow> fst r = Fault"
  by (cases r rule: outcome_cases) (simp_all add: replies_def)

lemma snd_replies [simp]: "snd (replies f r) = snd r"
  by (cases r rule: outcome_cases) (simp_all add: replies_def)

lemma only_world_src:
  assumes "post (\<lambda>_. only_world s) (only_world s) F r" and "fst r \<noteq> Fault"
  shows "src_qp_map (snd r) = src_qp_map s"
  using post_snd_any [OF assms] by (simp add: only_worldD)

lemma pool_same_src: "pool_same s t \<Longrightarrow> src_qp_map t = src_qp_map s"
  by (simp add: pool_same_def)

lemma handle_case_src:
  assumes inv: "router_inv s" and ok: "request_ok (t_request t) (t_header t) s"
    and alive: "fst (handle_case E t s) \<noteq> Fault"
  shows "src_qp_map (snd (handle_case E t s)) = (case t_request t of
      Ibv_Modify_Qp req \<Rightarrow> (src_qp_map s)(mq_src_v_qp_handle req \<mapsto> modify_key s req)
    | Ibv_Destroy_Qp req \<Rightarrow> (src_qp_map s)(dq_qp_handle req := None)
    | _ \<Rightarrow> src_qp_map s)"
proof -
  have i: "pool_inv s" "held s = {}" using inv by (simp_all add: router_inv_def)
  show ?thesis
  proof (cases "t_request t")
    case (Ibv_Modify_Qp req)
    let ?r = "ibv_modify_qp_h E (t_header t) req (t_arrivals t) s"
    have o: "src_qp_map s (mq_src_v_qp_handle req) = None" "card (dom (src_qp_map s)) < 2 ^ 32 - 1"
      using ok Ibv_Modify_Qp by (simp_all add: request_ok_def)
    have "src_qp_map (snd ?r) = (src_qp_map s)(mq_src_v_qp_handle req \<mapsto> modify_key s req)"
      using ibv_modify_qp_pool [OF i o, of E "t_header t" "t_arrivals t"] alive Ibv_Modify_Qp
      by (cases ?r rule: outcome_cases) (simp_all add: handle_case_def)
    then show ?thesis using Ibv_Modify_Qp
      by (cases ?r rule: outcome_cases) (simp_all add: handle_case_def)
  next
    case (Ibv_Destroy_Qp req)
    then show ?thesis using ibv_destroy_qp_pool [OF i, of req E]
      by (cases "ibv_destroy_qp_h E req s" rule: outcome_cases) (simp_all add: handle_case_def replies_def)
  next
    case (Ibv_Post_Send req)
    then show ?thesis using only_world_src [OF ibv_post_send_frame [OF i]] alive
      by (simp add: handle_case_def fst_replies_Fault)
  next
    case (Ibv_Post_Recv req)
    then show ?thesis using only_world_src [OF ibv_post_recv_frame [OF i]] alive
      by (simp add: handle_case_def fst_replies_Fault)
  next
    case (Ibv_Poll_Cq req)
    then show ?thesis using only_world_src [OF ibv_poll_cq_frame [OF i]] alive
      by (simp add: handle_case_def fst_replies_Fault)
  qed (use ok in \<open>auto simp: handle_case_def request_ok_def request_sizes_c_def ibv_alloc_pd_h_def
      ibv_query_gid_h_def ibv_query_port_h_def ibv_get_device_list_h_def Let_def
      pool_same_src [OF pool_same_reg_mr] pool_same_src [OF pool_same_dereg_mr]
      pool_same_src [OF pool_same_create_qp] pool_same_src [OF pool_same_destroy_cq] split: option.split\<close>)
qed

lemma remote_src: "src_qp_map (snd (handle_remote_router E fd n m s)) = src_qp_map s"
  by (auto simp: handle_remote_router_def acquire_def split: OPERATION.split option.split)

lemma step_Some: "step E e s = Some s' \<Longrightarrow> \<exists>u. s = Some u \<and> (case e of
    Local t \<Rightarrow> fst (handle_process E t u) \<noteq> Fault \<and> s' = snd (handle_process E t u)
  | Peer fd n m \<Rightarrow> s' = snd (handle_remote_router E fd n m u))"
  by (auto simp: step_def split: option.splits event.splits outcome.splits prod.splits)

interpretation pool: simulation "step E" event_ok system_inv "\<lambda>s. s \<noteq> None" pool_of pool_spec
proof
  fix e and s :: "'a router option"
  show "step E e s \<noteq> None \<Longrightarrow> s \<noteq> None" by (cases s) (auto simp: step_def)
  assume inv: "system_inv s" and ok: "event_ok e s" and "step E e s \<noteq> None"
  then obtain s' where st: "step E e s = Some s'" by blast
  then obtain u where u: "s = Some u" and r: "case e of
      Local t \<Rightarrow> fst (handle_process E t u) \<noteq> Fault \<and> s' = snd (handle_process E t u)
    | Peer fd n m \<Rightarrow> s' = snd (handle_remote_router E fd n m u)"
    using step_Some by blast
  have iu: "router_inv u" using inv u by (simp add: system_inv_def)
  show "pool_of (step E e s) = pool_spec e (pool_of s)"
  proof (cases e)
    case (Peer fd n m)
    then show ?thesis using r remote_src unfolding st unfolding u by (auto simp: pool_spec_def intro!: pool_of_same)
  next
    case (Local t)
    show ?thesis
    proof (cases "int_lt_size (t_n t) 12 \<or> body_short t")
      case True
      then have "s' = u" using r Local by (auto simp: handle_process_def header_size)
      then show ?thesis using True Local unfolding st unfolding u by (simp add: pool_spec_def)
    next
      case False
      then have hc: "handle_process E t u = andthen (handle_case E t u) (write_rsp t)"
        by (simp add: handle_process_def header_size)
      have "request_ok (t_request t) (t_header t) u" using ok Local u by (simp add: event_ok_def)
      from handle_case_src [OF iu this, of E] have "src_qp_map s' = (case t_request t of
          Ibv_Modify_Qp req \<Rightarrow> (src_qp_map u)(mq_src_v_qp_handle req \<mapsto> modify_key u req)
        | Ibv_Destroy_Qp req \<Rightarrow> (src_qp_map u)(dq_qp_handle req := None)
        | _ \<Rightarrow> src_qp_map u)"
        using r Local hc by simp
      then show ?thesis using False Local unfolding st unfolding u
        by (cases "t_request t") (auto simp: pool_spec_def modify_key_def pool_of_def)
    qed
  qed
qed

text \<open>In the invariant the connected hosts are the attached ones, with their exact counts.\<close>

lemma pool_connected:
  assumes "pool_inv s"
  shows "dom (host_map s) = ran (src_qp_map s)"
proof (intro equalityI subsetI)
  fix k assume "k \<in> dom (host_map s)"
  then obtain p where "host_map s k = Some p" by blast
  then have "attached s k \<noteq> {}" using pool_connD [OF assms] by blast
  then show "k \<in> ran (src_qp_map s)" by (auto simp: attached_def ran_def)
next
  fix k assume "k \<in> ran (src_qp_map s)"
  then show "k \<in> dom (host_map s)" using assms by (auto simp: pool_inv_def ran_def)
qed

end
