(* ===== verification/End_To_End.thy ===== *)
theory End_To_End
  imports Client_Verbs Refinement
begin

text \<open>
  The client's verbs with the router behind them: what a call of libscale does to the library
  of the host, through the transport, the dispatcher, the tables and the handler.
\<close>

section \<open>A registration lasts until it is taken back\<close>

text \<open>No event but the deregistration of a key changes its translation.\<close>

definition deregisters :: "u32 \<Rightarrow> event \<Rightarrow> bool" where
  "deregisters k e = (case e of
      Peer fd n m \<Rightarrow> False
    | Local t \<Rightarrow> (case t_request t of Ibv_Dereg_Mr req \<Rightarrow> dm_lkey req = k | _ \<Rightarrow> False))"

lemma mem_same_lkey: "mem_same s s' \<Longrightarrow> lkey_find s' k = lkey_find s k"
  by (simp add: mem_same_def lkey_find_def)

lemma dereg_other_lkey:
  assumes "held s = {}" and "dm_lkey req \<noteq> k"
  shows "lkey_find (snd (ibv_dereg_mr_h E req s)) k = lkey_find s k"
  using assms
  by (auto simp: ibv_dereg_mr_h_def acquire_def release_def lkey_erase_def lkey_find_def Let_def
      split: option.split prod.split)

lemma handle_case_lkey:
  assumes inv: "router_inv s" and ok: "request_ok (t_request t) (t_header t) s"
    and alive: "fst (handle_case E t s) \<noteq> Fault" and k: "lkey_find s k = Some v" and nd: "\<not> deregisters k (Local t)"
  shows "lkey_find (snd (handle_case E t s)) k = Some v"
proof -
  have i: "pool_inv s" "shm_inv s" "held s = {}" using inv by (simp_all add: router_inv_def)
  have world: "lkey_find (snd r) k = Some v"
    if "post (\<lambda>_. only_world s) (only_world s) F r" "fst r \<noteq> Fault" for F and r :: "'b outcome \<times> 'a router"
    using post_snd_any [OF that] k by (simp add: only_worldD lkey_find_def)
  show ?thesis
  proof (cases "t_request t")
    case (Ibv_Reg_Mr req)
    have room: "\<And>v. shm_map s (rh_process_id (t_header t)) = Some v \<Longrightarrow> length v < 2 ^ 32"
      using ok Ibv_Reg_Mr by (simp add: request_ok_def request_sizes_c_def)
    show ?thesis
      using ibv_reg_mr_registers [OF i(2,3) room, where E = E and req = req and header = "t_header t"] k Ibv_Reg_Mr
      by (cases "ibv_reg_mr_h E (t_header t) req s" rule: outcome_cases)
        (auto simp: handle_case_def replies_def lkey_find_def dest!: spec [of _ k])
  next
    case (Ibv_Modify_Qp req)
    have "lkey_find (snd (ibv_modify_qp_h E (t_header t) req (t_arrivals t) s)) k = Some v"
      using mem_same_lkey [OF mem_same_modify_qp] k by metis
    then show ?thesis using Ibv_Modify_Qp
      by (cases "ibv_modify_qp_h E (t_header t) req (t_arrivals t) s" rule: outcome_cases) (simp_all add: handle_case_def)
  next
    case (Ibv_Post_Send req)
    then show ?thesis using world [OF ibv_post_send_frame [OF i(1,3)]] alive
      by (simp add: handle_case_def fst_replies_Fault)
  next
    case (Ibv_Post_Recv req)
    then show ?thesis using world [OF ibv_post_recv_frame [OF i(1,3)]] alive
      by (simp add: handle_case_def fst_replies_Fault)
  next
    case (Ibv_Poll_Cq req)
    then show ?thesis using world [OF ibv_poll_cq_frame [OF i(1,3)]] alive
      by (simp add: handle_case_def fst_replies_Fault)
  next
    case (Ibv_Dereg_Mr req)
    then show ?thesis using dereg_other_lkey [OF i(3), of req k E] nd k
      by (simp add: handle_case_def deregisters_def)
  qed (use ok k in \<open>auto simp: handle_case_def request_ok_def request_sizes_c_def ibv_alloc_pd_h_def
      ibv_query_gid_h_def ibv_query_port_h_def ibv_get_device_list_h_def Let_def
      mem_same_lkey [OF mem_same_create_qp] mem_same_lkey [OF mem_same_destroy_cq]
      mem_same_lkey [OF mem_same_destroy_qp] split: option.split\<close>)
qed

lemma step_lkey:
  assumes inv: "system_inv s" and ok: "event_ok e s" and st: "step E e s = Some s'"
    and k: "s = Some u" "lkey_find u k = Some v" and nd: "\<not> deregisters k e"
  shows "lkey_find s' k = Some v"
proof (cases e)
  case (Peer fd n m)
  then have "s' = snd (handle_remote_router E fd n m u)" using step_Some [OF st] k(1) by auto
  then show ?thesis using k(2) mem_same_lkey [OF mem_same_remote [OF mem_same_refl]] by metis
next
  case (Local t)
  have r: "fst (handle_process E t u) \<noteq> Fault" "s' = snd (handle_process E t u)"
    using step_Some [OF st] k(1) Local by auto
  have iu: "router_inv u" "request_ok (t_request t) (t_header t) u"
    using inv ok k(1) Local by (simp_all add: system_inv_def event_ok_def)
  show ?thesis
    using r handle_case_lkey [OF iu, of E k v] k(2) nd Local
    by (auto simp: handle_process_def split: if_splits)
qed

lemma run_lkey:
  "system_inv (Some s) \<Longrightarrow> run_ok (step E) event_ok es (Some s) \<Longrightarrow> run_steps (step E) es (Some s) = Some s' \<Longrightarrow>
     lkey_find s k = Some v \<Longrightarrow> (\<forall>e \<in> set es. \<not> deregisters k e) \<Longrightarrow> lkey_find s' k = Some v"
proof (induction es arbitrary: s)
  case (Cons e es)
  have "step E e (Some s) \<noteq> None"
    using pool.run_live [of E es "step E e (Some s)"] Cons.prems(3) by auto
  then obtain u where u: "step E e (Some s) = Some u" by blast
  have "lkey_find u k = Some v"
    by (rule step_lkey [OF Cons.prems(1) _ u refl]) (use Cons.prems in simp_all)
  moreover have "system_inv (Some u)"
    using router.step_inv [of "Some s" e E] Cons.prems(1,2) u by simp
  ultimately show ?case using Cons.IH [of u] Cons.prems u by simp
qed simp

lemma router_inv_set_world: "router_inv (s\<lparr>world := w\<rparr>) = router_inv s"
proof -
  have "shm_slot (s\<lparr>world := w\<rparr>) pid i = shm_slot s pid i" "slot_ok (s\<lparr>world := w\<rparr>) pid i p = slot_ok s pid i p"
    for pid i p by (simp_all add: shm_slot_def slot_ok_def)
  then show ?thesis by (simp add: router_inv_def shm_inv_def)
qed

text \<open>So a translation is the same after a run as before it.\<close>

lemma run_translation:
  assumes inv: "router_inv s1"
    and r: "\<forall>d. translated (lkey_find s1 lk) (a + d) = Some (a' + d)"
    and run: "run_ok (step E) event_ok es (Some s1)" "run_steps (step E) es (Some s1) = Some s2"
    and keep: "\<forall>e \<in> set es. \<not> deregisters lk e"
  shows "router_inv s2 \<and> (\<exists>v. lkey_find s2 lk = Some v \<and> (\<forall>d. a + d + v = a' + d))"
proof -
  have sys1: "system_inv (Some s1)" using inv by (simp add: system_inv_def)
  obtain v where v: "lkey_find s1 lk = Some v" using spec [OF r, of 0] by (auto simp: translated_def)
  have "lkey_find s2 lk = Some v" by (rule run_lkey [OF sys1 run v keep])
  moreover have "system_inv (Some s2)" using router.run_inv [OF sys1 run(1)] run(2) by simp
  ultimately show ?thesis using r v by (simp add: system_inv_def translated_def)
qed

section \<open>The client's view\<close>

text \<open>
  A send of the client on an attached queue pair succeeds exactly when the library accepts
  the translated work request; when it refuses, the client does not return.
\<close>

lemma client_send_end_to_end:
  assumes inv: "pool_inv s" and free: "held s = {}" and h: "src_qp_map s (q_handle qp) = Some k"
    and p: "host_map s k = Some p" "conn_heap s p = Some c" and off: "lkey_find s (sw_lkey wr) = Some v"
    and readable: "e_readable E (sw_addr wr + v) (world s)"
    and call: "e_post_send E (cr_qp c) (send_wr_of (sw_addr wr + v) (send_req_of qp wr)) (world s) = (rc, w)"
  shows "client_post_send (router_call E (cl_pid cl) arrivals buf port) cl qp wr s =
    (if rc = 0 then (Ret 0, s\<lparr>world := w\<rparr>) else (Hang, s))"
proof -
  have q: "ps_qp_handle (send_req_of qp wr) = q_handle qp" "ps_lkey (send_req_of qp wr) = sw_lkey wr"
    "ps_client_addr (send_req_of qp wr) = sw_addr wr" by (simp_all add: send_req_of_def)
  have "ibv_post_send_h E header (send_req_of qp wr) s =
    (if rc = 0 then Done (rh_process_id header) else Killed, s\<lparr>world := w\<rparr>)" for header
    by (rule ibv_post_send_eq [OF inv free _ p, of _ v]) (use h off readable call q in simp_all)
  then show ?thesis
    by (simp add: client_post_send_def request_def router_call_case handle_case_def replies_def wr_id_answer_def Let_def)
qed

text \<open>
  A queue pair modified on a host whose library refuses the transition: the router answers
  with flag 0, and the client reports success and a queue pair in RTR.
\<close>

lemma client_modify_end_to_end:
  assumes attr: "qa_qp_state attr = IBV_QPS_RTR" "amask AND IBV_QP_STATE \<noteq> 0"
    and req: "req = \<lparr>mq_dst_gid = take 16 (grh_dgid attr), mq_dst_lid = ah_dlid attr,
         mq_dst_v_qp_num = qa_dest_qp_num attr, mq_src_v_qp_num = q_qp_num qp,
         mq_src_v_qp_handle = q_handle qp, mq_qp_state = 2\<rparr>"
    and router: "ibv_modify_qp_h E (request_header pid (Ibv_Modify_Qp req)) req arrivals s = (Done (Some flag), s')"
  shows "ibv_modify_qp (router_call E pid arrivals buf port) qp attr amask s =
    (Ret (0, qp\<lparr>q_dst_v_qp_num := qa_dest_qp_num attr, q_state := IBV_QPS_RTR\<rparr>), s')"
  by (rule modify_ignores_flag [OF attr, where flag = flag])
    (use router req in \<open>simp add: router_call_case handle_case_def Let_def\<close>)

text \<open>A poll of the client is answered only with completions of its own.\<close>

lemma client_poll_end_to_end:
  assumes inv: "pool_inv s" and free: "held s = {}"
    and lt: "unat (low_word (cq_handle cq)) < length (cl_cq_qp_map cl)"
    and h: "src_qp_map s (pc_qp_handle (poll_req_of cl cq 1)) = Some k"
    and p: "host_map s k = Some p" "conn_heap s p = Some c"
    and call: "e_poll_cq E (cr_cq c) 1 (world s) = ((int (length wcs), wcs), w)" "length wcs \<le> 1"
    and ret: "client_poll_cq (router_call E (cl_pid cl) arrivals buf port) cl cq 1 wc s = (Ret (n, wc'), s')"
  shows "n = int (length wcs) \<and> s' = s\<lparr>world := w\<rparr>
    \<and> (\<forall>e \<in> set wcs. wc_status e = IBV_WC_SUCCESS \<and> wc_wr_id e = scast (cl_pid cl) \<and> wc_wr_id wc' = wc_wr_id e)"
proof -
  have n: "pc_num_entries (poll_req_of cl cq 1) = 1" by (simp add: poll_req_of_def)
  have le: "0 < sint (pc_num_entries (poll_req_of cl cq 1))"
    "int (length wcs) \<le> sint (pc_num_entries (poll_req_of cl cq 1))" using call(2) n by simp_all
  have call1: "e_poll_cq E (cr_cq c) (pc_num_entries (poll_req_of cl cq 1)) (world s) = ((int (length wcs), wcs), w)"
    using call(1) n by simp
  note eq = ibv_poll_cq_eq [OF inv free h p call1 le]
  consider "wcs = []" | e where "wcs = [e]" using call(2) by (cases wcs) auto
  then show ?thesis
    by cases (use ret lt in \<open>auto simp: client_poll_cq_def request_def router_call_case handle_case_def replies_def
        eq Let_def split: if_splits\<close>)
qed

section \<open>Sending from registered memory\<close>

text \<open>A registration of the client that succeeds is one of the router; the segment is mapped after it.\<close>

lemma client_reg_mr_router:
  fixes addr len :: u64 and access :: u32
  defines "req \<equiv> \<lparr>rm_access_flag = access, rm_length = len, rm_client_addr = addr\<rparr>"
  assumes reg: "client_reg_mr (on_host K) (router_call E pid arrivals buf port) addr len access s = (Ret (Some mr), s')"
  shows "\<exists>rsp s1 w. ibv_reg_mr_h E (request_header pid (Ibv_Reg_Mr req)) req s = (Done rsp, s1)
    \<and> s' = s1\<lparr>world := w\<rparr> \<and> sm_addr mr = addr \<and> sm_lkey mr = rs_lkey rsp \<and> scale_get_router_addr mr = rs_router_addr rsp"
proof -
  obtain r s1 where r: "ibv_reg_mr_h E (request_header pid (Ibv_Reg_Mr req)) req s = (r, s1)" by fastforce
  have call: "router_call E pid arrivals buf port (Ibv_Reg_Mr req) s =
    (case r of Done rsp \<Rightarrow> Some (Some (Mr_Rsp rsp), s1) | _ \<Rightarrow> None)"
    unfolding router_call_case by (cases r) (simp_all add: handle_case_def replies_def r)
  show ?thesis
    using reg r unfolding client_reg_mr_def req_def [symmetric] call
    by (auto simp: on_host_def scale_get_router_addr_def Let_def
        split: if_splits option.splits reply.splits prod.splits outcome.splits)
qed

text \<open>
  Register, serve any events, send on a queue pair that the abstract pool has attached by then:
  the library gets the address at the same offset of the mapping that the registration made, on
  a live queue pair to the host the queue pair was attached to.
\<close>

lemma pool_of_lookup: "pool_of (Some s) h = Some g \<longleftrightarrow> (\<exists>k. src_qp_map s h = Some k \<and> dst_gid k = g)"
  by (auto simp: pool_of_def)

lemma client_registers_then_sends:
  assumes inv: "router_inv s0" and room: "\<And>v. shm_map s0 pid = Some v \<Longrightarrow> length v < 2 ^ 32"
    and reg: "client_reg_mr (on_host K) (router_call E pid arr0 buf0 port0) addr len access s0 = (Ret (Some mr), s1)"
    and fresh: "lkey_find s0 (sm_lkey mr) = None"
    and run: "run_ok (step E) event_ok es (Some s1)" "run_steps (step E) es (Some s1) = Some s2"
    and keep: "\<forall>e \<in> set es. \<not> deregisters (sm_lkey mr) e"
    and host: "fold pool_spec es (pool_of (Some s1)) (q_handle qp) = Some g"
    and wr: "sw_lkey wr = sm_lkey mr" "sw_addr wr = addr + d"
    and readable: "e_readable E (scale_get_router_addr mr + d) (world s2)"
  shows "\<exists>k p c q. src_qp_map s2 (q_handle qp) = Some k \<and> dst_gid k = g \<and> host_map s2 k = Some p
    \<and> conn_heap s2 p = Some c \<and> qp_heap s2 (cr_qp c) = Some q \<and> qp_live q
    \<and> client_post_send (router_call E (cl_pid cl) arrivals buf port) cl qp wr s2 =
        (case e_post_send E (cr_qp c) (send_wr_of (scale_get_router_addr mr + d) (send_req_of qp wr)) (world s2) of
           (rc, w) \<Rightarrow> (if rc = 0 then Ret 0 else Hang, if rc = 0 then s2\<lparr>world := w\<rparr> else s2))"
proof -
  let ?req = "\<lparr>rm_access_flag = access, rm_length = len, rm_client_addr = addr\<rparr>"
  let ?h = "request_header pid (Ibv_Reg_Mr ?req)"
  obtain rsp u w0 where rsp: "ibv_reg_mr_h E ?h ?req s0 = (Done rsp, u)" "s1 = u\<lparr>world := w0\<rparr>"
    "sm_lkey mr = rs_lkey rsp" "scale_get_router_addr mr = rs_router_addr rsp"
    using client_reg_mr_router [OF reg] by blast
  have i0: "pool_inv s0" "shm_inv s0" "held s0 = {}" using inv by (simp_all add: router_inv_def)
  have t: "\<forall>d. translated (lkey_find u (sm_lkey mr)) (addr + d) = Some (scale_get_router_addr mr + d)"
    and u: "shm_inv u" "held u = {}"
    using ibv_reg_mr_registers [OF i0(2,3), where E = E and req = ?req and header = ?h] room rsp fresh by simp_all
  have "pool_inv u" using pool_same_pool_inv [OF pool_same_reg_mr i0(1), of E ?h ?req] rsp(1) by simp
  then have "router_inv u" using u by (simp add: router_inv_def)
  then have i1: "router_inv s1" by (simp only: rsp(2) router_inv_set_world)
  have t1: "\<forall>d. translated (lkey_find s1 (sm_lkey mr)) (addr + d) = Some (scale_get_router_addr mr + d)"
    using t rsp(2) by (simp add: lkey_find_def)
  obtain v where i2: "router_inv s2" and v: "lkey_find s2 (sm_lkey mr) = Some v"
    "\<forall>d. addr + d + v = scale_get_router_addr mr + d" using run_translation [OF i1 t1 run keep] by blast
  have p2: "pool_inv s2" "held s2 = {}" using i2 by (simp_all add: router_inv_def)
  have "pool_of (Some s2) = fold pool_spec es (pool_of (Some s1))"
    using pool.run_follows [of "Some s1" E es] run i1 by (simp add: system_inv_def)
  then have "pool_of (Some s2) (q_handle qp) = Some g" using host by simp
  then obtain k where k: "src_qp_map s2 (q_handle qp) = Some k" "dst_gid k = g"
    by (auto simp: pool_of_lookup)
  then obtain p where p: "host_map s2 k = Some p" using p2(1) k(1) unfolding pool_inv_def by blast
  obtain c q where c: "conn_heap s2 p = Some c" "qp_heap s2 (cr_qp c) = Some q" "qp_live q"
    by (rule pool_connD [OF p2(1) p]) blast
  obtain rc w where call:
    "e_post_send E (cr_qp c) (send_wr_of (scale_get_router_addr mr + d) (send_req_of qp wr)) (world s2) = (rc, w)"
    by fastforce
  have "client_post_send (router_call E (cl_pid cl) arrivals buf port) cl qp wr s2 =
      (if rc = 0 then (Ret 0, s2\<lparr>world := w\<rparr>) else (Hang, s2))"
    by (rule client_send_end_to_end [where v = v, OF p2 k(1) p c(1)]) (simp_all only: v(1) spec [OF v(2)] wr readable call)
  then show ?thesis using k p c call by auto
qed

end
