(* ===== verification/Lifecycle.thy ===== *)
theory Lifecycle
  imports Router_State
begin

text \<open>
  What a router process makes before it serves: the command line of \<open>main.cpp\<close> and the global
  RDMA resources (\<open>init_global_res\<close>, \<open>destroy_global_res\<close>).
\<close>

section \<open>The command line\<close>

record options =
  o_dev_name :: "string option"
  o_tcp_port :: u32
  o_ib_port :: s32
  o_gid_idx :: s32
  o_disable_rdma :: s32

definition default_options :: options where
  "default_options = \<lparr>o_dev_name = None, o_tcp_port = 0, o_ib_port = 1, o_gid_idx = 3, o_disable_rdma = 1\<rparr>"

text \<open>
  The loop over \<open>getopt_long\<close>, given the options it returns with their arguments;
  \<open>strtoul\<close> gives 64 bits, of which the assignments keep 32. \<open>None\<close>: usage, exit code 1.
\<close>

fun parse_options :: "(string \<Rightarrow> u64) \<Rightarrow> (char \<times> string) list \<Rightarrow> options \<Rightarrow> options option" where
  "parse_options strtoul [] cf = Some cf"
| "parse_options strtoul ((c, optarg) # cs) cf =
     (if c = CHR ''p'' then parse_options strtoul cs (cf\<lparr>o_tcp_port := ucast (strtoul optarg)\<rparr>)
      else if c = CHR ''d'' then parse_options strtoul cs (cf\<lparr>o_dev_name := Some optarg\<rparr>)
      else if c = CHR ''i'' then
        (let cf = cf\<lparr>o_ib_port := ucast (strtoul optarg)\<rparr> in
         if sint (o_ib_port cf) < 0 then None else parse_options strtoul cs cf)
      else if c = CHR ''g'' then
        (let cf = cf\<lparr>o_gid_idx := ucast (strtoul optarg)\<rparr> in
         if sint (o_gid_idx cf) < 0 then None else parse_options strtoul cs cf)
      else if c = CHR ''r'' then
        (let cf = cf\<lparr>o_disable_rdma := ucast (strtoul optarg)\<rparr> in
         if sint (o_disable_rdma cf) < 0 then None else parse_options strtoul cs cf)
      else None)"

text \<open>
  Accepted options never have a negative number, so \<open>modify_qp_to_rtr\<close> and the GID query
  always take their branch for a valid GID index.
\<close>

lemma parse_options_nonneg:
  assumes "parse_options strtoul cs cf = Some cf'" and "0 \<le> sint (o_ib_port cf)" "0 \<le> sint (o_gid_idx cf)"
    "0 \<le> sint (o_disable_rdma cf)"
  shows "0 \<le> sint (o_ib_port cf') \<and> 0 \<le> sint (o_gid_idx cf') \<and> 0 \<le> sint (o_disable_rdma cf')"
  using assms
  by (induction strtoul cs cf rule: parse_options.induct) (auto simp: Let_def split: if_splits)

section \<open>Global resources\<close>

text \<open>
  The library calls: a device list is given by the names of its devices. Freed objects are
  logged by the model, in the order of the calls that free them.
\<close>

record 'w lenv =
  l_get_device_list :: "'w \<Rightarrow> string list option \<times> 'w"
  l_open_device :: "nat \<Rightarrow> 'w \<Rightarrow> bool \<times> 'w"
  l_query_port :: "s32 \<Rightarrow> 'w \<Rightarrow> (int \<times> ibv_port_attr) \<times> 'w"
  l_query_gid :: "s32 \<Rightarrow> s32 \<Rightarrow> 'w \<Rightarrow> (int \<times> gid) \<times> 'w"
  l_alloc_pd :: "'w \<Rightarrow> bool \<times> 'w"
  l_epoll_create :: "'w \<Rightarrow> int \<times> 'w"
  l_dealloc_pd :: "'w \<Rightarrow> int \<times> 'w"
  l_close_device :: "'w \<Rightarrow> int \<times> 'w"
  l_close :: "int \<Rightarrow> 'w \<Rightarrow> int \<times> 'w"

datatype freed = Dev_List | Pd | Ctx | Epoll int

text \<open>Pointers as whether they are set; \<open>gr_dev\<close> is the index of the device in the list.\<close>

record global_resources =
  gr_ib_list :: bool
  gr_dev :: "nat option"
  gr_ctx :: bool
  gr_pd :: bool
  gr_epoll_fd :: int
  gr_port_attr :: ibv_port_attr
  gr_src_lid :: u16
  gr_src_gid :: gid

definition zero_port_attr :: ibv_port_attr where
  "zero_port_attr = \<lparr>pa_state = 0, pa_max_mtu = 0, pa_active_mtu = 0, pa_gid_tbl_len = 0, pa_port_cap_flags = 0,
     pa_max_msg_sz = 0, pa_bad_pkey_cntr = 0, pa_qkey_viol_cntr = 0, pa_pkey_tbl_len = 0, pa_lid = 0,
     pa_sm_lid = 0, pa_lmc = 0, pa_max_vl_num = 0, pa_sm_sl = 0, pa_subnet_timeout = 0, pa_init_type_reply = 0,
     pa_active_width = 0, pa_active_speed = 0, pa_phys_state = 0, pa_link_layer = 0\<rparr>"

definition zero_global :: global_resources where
  "zero_global = \<lparr>gr_ib_list = False, gr_dev = None, gr_ctx = False, gr_pd = False, gr_epoll_fd = 0,
     gr_port_attr = zero_port_attr, gr_src_lid = 0, gr_src_gid = replicate 16 0\<rparr>"

text \<open>
  Only the device list is set to \<open>NULL\<close> when it is freed; the protection domain, the context
  and the descriptor keep their values.
\<close>

definition destroy_global_res ::
  "'w lenv \<Rightarrow> global_resources \<Rightarrow> 'w \<Rightarrow> freed list \<Rightarrow> int \<times> global_resources \<times> 'w \<times> freed list" where
  "destroy_global_res L g w log =
     (let rc = 0;
          (g, log) = (if gr_ib_list g then (g\<lparr>gr_ib_list := False, gr_dev := None\<rparr>, log @ [Dev_List]) else (g, log));
          (rc, w, log) =
            (if gr_pd g then (let (r, w) = l_dealloc_pd L w in (if r \<noteq> 0 then 1 else rc, w, log @ [Pd]))
             else (rc, w, log));
          (rc, w, log) =
            (if gr_ctx g then (let (r, w) = l_close_device L w in (if r \<noteq> 0 then 1 else rc, w, log @ [Ctx]))
             else (rc, w, log));
          (rc, w, log) =
            (if gr_epoll_fd g > 0 then
               (let (r, w) = l_close L (gr_epoll_fd g) w in (if r \<noteq> 0 then 1 else rc, w, log @ [Epoll (gr_epoll_fd g)]))
             else (rc, w, log))
      in (rc, g, w, log))"

text \<open>What it frees, and what it leaves in the structure.\<close>

definition log_of :: "global_resources \<Rightarrow> freed list" where
  "log_of g = (if gr_ib_list g then [Dev_List] else []) @ (if gr_pd g then [Pd] else [])
     @ (if gr_ctx g then [Ctx] else []) @ (if gr_epoll_fd g > 0 then [Epoll (gr_epoll_fd g)] else [])"

lemma destroy_global_res_log:
  "\<exists>rc w'. destroy_global_res L g w log =
     (rc, if gr_ib_list g then g\<lparr>gr_ib_list := False, gr_dev := None\<rparr> else g, w', log @ log_of g)"
proof -
  obtain r1 w1 where 1: "(if gr_pd g then l_dealloc_pd L w else (0, w)) = (r1, w1)" by fastforce
  obtain r2 w2 where 2: "(if gr_ctx g then l_close_device L w1 else (0, w1)) = (r2, w2)" by fastforce
  obtain r3 w3 where 3: "l_close L (gr_epoll_fd g) w2 = (r3, w3)" by fastforce
  show ?thesis
    using 1 2 3 unfolding destroy_global_res_def log_of_def Let_def
    by (cases "gr_ib_list g"; cases "gr_pd g"; cases "gr_ctx g") simp_all
qed

text \<open>The loop over the devices: without a configured name the first one is taken.\<close>

fun search_device :: "string list \<Rightarrow> nat \<Rightarrow> string option \<Rightarrow> string option \<times> nat option" where
  "search_device [] i dev_name = (dev_name, None)"
| "search_device (d # ds) i dev_name =
     (let dev_name = (case dev_name of None \<Rightarrow> Some d | Some n \<Rightarrow> Some n) in
      if Some d = dev_name then (dev_name, Some i) else search_device ds (Suc i) dev_name)"

text \<open>The steps after the device was found, each with its result code, up to the first failure.\<close>

definition init_device ::
  "'w lenv \<Rightarrow> options \<Rightarrow> nat \<Rightarrow> global_resources \<Rightarrow> 'w \<Rightarrow> int \<times> global_resources \<times> 'w" where
  "init_device L cf dev g w =
     (let g = g\<lparr>gr_dev := Some dev, gr_ib_list := True\<rparr>;
          (ok, w) = l_open_device L dev w; g = g\<lparr>gr_ctx := ok\<rparr> in
      if \<not> gr_ctx g then (1, g, w)
      else
        (let ((r, pa), w) = l_query_port L (o_ib_port cf) w; g = g\<lparr>gr_port_attr := pa\<rparr> in
         if r \<noteq> 0 then (1, g, w)
         else
           (let g = g\<lparr>gr_src_lid := pa_lid (gr_port_attr g)\<rparr>;
                (rc, g, w) =
                  (if 0 \<le> sint (o_gid_idx cf) then
                     (let ((r, gd), w) = l_query_gid L (o_ib_port cf) (o_gid_idx cf) w
                      in (r, g\<lparr>gr_src_gid := gd\<rparr>, w))
                   else (0, g\<lparr>gr_src_gid := replicate 16 0\<rparr>, w)) in
            if rc \<noteq> 0 then (1, g, w)
            else
              (let (ok, w) = l_alloc_pd L w; g = g\<lparr>gr_pd := ok\<rparr> in
               if \<not> gr_pd g then (1, g, w)
               else
                 (let (fd, w) = l_epoll_create L w; g = g\<lparr>gr_epoll_fd := fd\<rparr>
                  in (if gr_epoll_fd g < 0 then 1 else 0, g, w))))))"

definition init_global_res ::
  "'w lenv \<Rightarrow> options \<Rightarrow> 'w \<Rightarrow> freed list \<Rightarrow> int \<times> options \<times> global_resources \<times> 'w \<times> freed list" where
  "init_global_res L cf w log =
     (let g = zero_global;
          (ds, w) = l_get_device_list L w;
          (rc, cf, g, w) =
            (case ds of
               None \<Rightarrow> (1, cf, g, w)
             | Some ds \<Rightarrow>
                 if ds = [] then (1, cf, g, w)
                 else
                   (let (name, dev) = search_device ds 0 (o_dev_name cf);
                        cf = cf\<lparr>o_dev_name := name\<rparr> in
                    case dev of
                      None \<Rightarrow> (1, cf, g, w)
                    | Some i \<Rightarrow> (let (rc, g, w) = init_device L cf i g w in (rc, cf, g, w))))
      in if rc \<noteq> 0 then (let (_, g, w, log) = destroy_global_res L g w log in (rc, cf, g, w, log))
         else (rc, cf, g, w, log))"

subsection \<open>What initialising gives\<close>

text \<open>The device taken has the configured name, or is the first one.\<close>

lemma search_device_found:
  "search_device ds i dev_name = (name, Some j) \<Longrightarrow>
     i \<le> j \<and> j - i < length ds \<and> name = Some (ds ! (j - i))
     \<and> (case dev_name of None \<Rightarrow> j = i | Some n \<Rightarrow> name = Some n)"
proof (induction ds i dev_name rule: search_device.induct)
  case (2 d ds i dev_name)
  then show ?case
    by (cases dev_name) (auto simp: Let_def nth_Cons' Suc_le_eq split: if_splits)
qed simp

lemma search_device_first_match:
  "search_device ds i (Some n) = (name, None) \<longleftrightarrow> name = Some n \<and> n \<notin> set ds"
  by (induction ds arbitrary: i) (auto simp: Let_def split: if_splits)

text \<open>Success means that everything is there, and that nothing was freed.\<close>

lemma init_device_ok:
  assumes "init_device L cf dev g w = (0, g', w')"
  shows "gr_ctx g' \<and> gr_pd g' \<and> gr_ib_list g' \<and> gr_dev g' = Some dev \<and> 0 \<le> gr_epoll_fd g'
     \<and> gr_src_lid g' = pa_lid (gr_port_attr g')"
  using assms by (auto simp: init_device_def Let_def split: prod.splits if_splits)

lemma init_global_res_ok:
  assumes "init_global_res L cf w log = (0, cf', g, w', log')"
  shows "gr_ctx g \<and> gr_pd g \<and> gr_ib_list g \<and> 0 \<le> gr_epoll_fd g \<and> log' = log
     \<and> gr_src_lid g = pa_lid (gr_port_attr g)
     \<and> (\<exists>ds i. fst (l_get_device_list L w) = Some ds \<and> gr_dev g = Some i \<and> i < length ds
           \<and> o_dev_name cf' = Some (ds ! i)
           \<and> (case o_dev_name cf of None \<Rightarrow> i = 0 | Some n \<Rightarrow> ds ! i = n))"
proof -
  obtain ds w1 where ds: "l_get_device_list L w = (Some ds, w1)" "ds \<noteq> []"
    using assms by (auto simp: init_global_res_def Let_def split: prod.splits option.splits if_splits)
  obtain name dev where s: "search_device ds 0 (o_dev_name cf) = (name, dev)" by fastforce
  obtain i where dev: "dev = Some i"
    using assms ds s by (cases dev) (auto simp: init_global_res_def Let_def split: prod.splits)
  obtain rc g' w'' where d: "init_device L (cf\<lparr>o_dev_name := name\<rparr>) i zero_global w1 = (rc, g', w'')"
    by (metis prod_cases3)
  have rc: "rc = 0" "cf' = cf\<lparr>o_dev_name := name\<rparr>" "g = g'" "log' = log"
    using assms ds s dev d by (auto simp: init_global_res_def split: prod.splits if_splits)
  then show ?thesis
    using init_device_ok [of L "cf\<lparr>o_dev_name := name\<rparr>" i zero_global w1 g' w''] d ds
      search_device_found [OF s [unfolded dev]]
    by (auto split: option.splits)
qed

end
