(* ===== verification/Startup.thy ===== *)
theory Startup
  imports Lifecycle Dispatch
begin

text \<open>
  \<open>start\<close> with its two threads up to the accept loops (\<open>listen_local_process\<close>,
  \<open>listen_remote_router\<close>), the destructor of \<open>ScaleRouter\<close>, and the end of \<open>main\<close>.
\<close>

section \<open>The socket of the other routers\<close>

text \<open>
  \<open>listen_remote_router\<close>: the first address with a socket that can be bound. The result is
  this socket, with the sockets that were opened before and are never closed.
\<close>

record 'w senv =
  s_getaddrinfo :: "'w \<Rightarrow> (int + nat list) \<times> 'w"
  s_socket :: "nat \<Rightarrow> 'w \<Rightarrow> int \<times> 'w"
  s_setsockopt :: "int \<Rightarrow> 'w \<Rightarrow> int \<times> 'w"
  s_bind :: "int \<Rightarrow> nat \<Rightarrow> 'w \<Rightarrow> int \<times> 'w"
  s_listen :: "int \<Rightarrow> 'w \<Rightarrow> int \<times> 'w"

fun bind_first :: "'w senv \<Rightarrow> nat list \<Rightarrow> 'w \<Rightarrow> (int option \<times> int list) \<times> 'w" where
  "bind_first S [] w = ((None, []), w)"
| "bind_first S (a # as) w =
     (let (fd, w) = s_socket S a w in
      if fd = -1 then bind_first S as w
      else
        (let (r, w) = s_setsockopt S fd w in
         if r = -1 then (let ((o', l), w) = bind_first S as w in ((o', fd # l), w))
         else
           (let (r, w) = s_bind S fd a w in
            if r = -1 then (let ((o', l), w) = bind_first S as w in ((o', fd # l), w))
            else ((Some fd, []), w))))"

text \<open>
  Of the error codes of \<open>getaddrinfo\<close> (\<open>Inl\<close>) only -1 is looked for; after another one
  the list of addresses is an uninitialised pointer. \<open>None\<close>: the thread ends.
\<close>

definition open_remote :: "'w senv \<Rightarrow> 'w \<Rightarrow> int option outcome \<times> 'w" where
  "open_remote S w =
     (case s_getaddrinfo S w of
        (Inl rc, w) \<Rightarrow> (if rc = -1 then Done None else Fault, w)
      | (Inr res, w) \<Rightarrow>
          (let ((tmp, _), w) = bind_first S res w in
           case tmp of
             None \<Rightarrow> (Done None, w)
           | Some sockfd \<Rightarrow>
               (let (r, w) = s_listen S sockfd w in (Done (if r = -1 then None else Some sockfd), w))))"

text \<open>Sockets are opened once per address at most, and all but the bound one are leaked.\<close>

lemma bind_first_leaks:
  assumes "bind_first S as w = ((r, leaked), w')"
  shows "length leaked + (if r = None then 0 else 1) \<le> length as"
  using assms
  by (induction S as w arbitrary: r leaked w' rule: bind_first.induct)
    (fastforce simp: Let_def split: prod.splits if_splits)+

section \<open>The socket of the local processes\<close>

record 'w uenv =
  u_socket :: "'w \<Rightarrow> int \<times> 'w"
  u_unlink :: "'w \<Rightarrow> 'w"
  u_bind :: "int \<Rightarrow> 'w \<Rightarrow> int \<times> 'w"
  u_listen :: "int \<Rightarrow> 'w \<Rightarrow> int \<times> 'w"
  u_close :: "int \<Rightarrow> 'w \<Rightarrow> 'w"

definition open_local :: "'w uenv \<Rightarrow> 'w \<Rightarrow> int option \<times> 'w" where
  "open_local U w =
     (let (listen_fd, w) = u_socket U w in
      if listen_fd < 0 then (None, w)
      else
        (let (ret, w) = u_bind U listen_fd (u_unlink U w) in
         if ret = -1 then (None, u_unlink U (u_close U listen_fd w))
         else
           (let (ret, w) = u_listen U listen_fd w in
            if ret = -1 then (None, u_unlink U (u_close U listen_fd w)) else (Some listen_fd, w))))"

section \<open>The accept loops\<close>

text \<open>
  Over the results of \<open>accept\<close> with those of \<open>pthread_create\<close>, which are only logged: the
  descriptors given to a handler thread, and those that stay open with nobody to serve them.
\<close>

definition remote_handled :: "(int \<times> int) list \<Rightarrow> int list \<times> int list" where
  "remote_handled accepts =
     (let cs = filter (\<lambda>(fd, ret). fd \<noteq> -1) accepts
      in (map fst (filter (\<lambda>(fd, ret). ret = 0) cs), map fst (filter (\<lambda>(fd, ret). ret \<noteq> 0) cs)))"

definition local_handled :: "(int \<times> int) list \<Rightarrow> int list \<times> int list" where
  "local_handled accepts =
     (let cs = filter (\<lambda>(fd, ret). \<not> fd < 0 \<and> fd > 0) accepts
      in (map fst (filter (\<lambda>(fd, ret). ret = 0) cs), map fst (filter (\<lambda>(fd, ret). ret \<noteq> 0) cs)))"

text \<open>The local thread drops a connection whose descriptor is 0, without closing it.\<close>

lemma local_handled_zero: "0 \<notin> set (fst (local_handled accepts)) \<and> 0 \<notin> set (snd (local_handled accepts))"
  by (auto simp: local_handled_def Let_def)

section \<open>Start\<close>

text \<open>
  The accept loops never end, so a thread whose socket is open is never joined: \<open>start\<close> is
  then \<open>Serving\<close>. Otherwise it returns, with the threads that were left running.
\<close>

datatype listener = Local_Users | Remote_Routers

datatype start_end = Serving | Ended "listener list"

record 'w penv =
  p_lib :: "'w lenv"
  p_unix :: "'w uenv"
  p_inet :: "'w senv"
  p_create :: "listener \<Rightarrow> 'w \<Rightarrow> int \<times> 'w"

text \<open>The result of \<open>init_global_res\<close> is not looked at.\<close>

definition start ::
  "'w penv \<Rightarrow> options \<Rightarrow> 'w \<Rightarrow> start_end outcome \<times> options \<times> global_resources \<times> freed list \<times> 'w" where
  "start P cf w =
     (let (_, cf, g, w, log) = init_global_res (p_lib P) cf w [];
          (r, w) = p_create P Local_Users w in
      if r \<noteq> 0 then (Done (Ended []), cf, g, log, w)
      else
        (let (users, w) = open_local (p_unix P) w;
             (r, w) = p_create P Remote_Routers w in
         if r \<noteq> 0 then (Done (Ended (if users = None then [] else [Local_Users])), cf, g, log, w)
         else
           (case open_remote (p_inet P) w of
              (Done routers, w) \<Rightarrow>
                (Done (if users = None \<and> routers = None then Ended [] else Serving), cf, g, log, w)
            | (_, w) \<Rightarrow> (Fault, cf, g, log, w))))"

section \<open>The destructor\<close>

definition destroy_router ::
  "'w env \<Rightarrow> 'w lenv \<Rightarrow> global_resources \<Rightarrow> freed list \<Rightarrow> 'w router
     \<Rightarrow> unit outcome \<times> global_resources \<times> freed list \<times> 'w router" where
  "destroy_router E L g log s =
     (let (_, g, w, log) = destroy_global_res L g (world s) log;
          (r, s) = freeShmPiece E (s\<lparr>world := w\<rparr>)
      in (r, g, log, s))"

text \<open>The end of \<open>main\<close>: the destructor runs when \<open>start\<close> has returned.\<close>

definition run_router ::
  "'w env \<Rightarrow> 'w penv \<Rightarrow> options \<Rightarrow> 'w router \<Rightarrow> start_end outcome \<times> global_resources \<times> freed list \<times> 'w router" where
  "run_router E P cf s =
     (case start P cf (world s) of
        (Done (Ended ls), cf, g, log, w) \<Rightarrow>
          (let (r, g, log, s) = destroy_router E (p_lib P) g log (s\<lparr>world := w\<rparr>)
           in (fst (andthen (r, s) (\<lambda>_ s. (Done (Ended ls), s))), g, log, s))
      | (r, cf, g, log, w) \<Rightarrow> (r, g, log, s\<lparr>world := w\<rparr>))"

section \<open>When the router ends\<close>

text \<open>
  The destructor cannot fail on a table that satisfies the invariant, so the end of the run is
  that of \<open>start\<close>.
\<close>

lemma destroy_router_done:
  assumes "shm_inv s"
  shows "\<exists>s'. destroy_router E L g log s =
     (Done (), if gr_ib_list g then g\<lparr>gr_ib_list := False, gr_dev := None\<rparr> else g, log @ log_of g, s')
     \<and> (\<forall>pid i p. shm_slot s pid i = Some p \<longrightarrow> piece_heap s' p = None)"
proof -
  obtain rc w where d: "destroy_global_res L g (world s) log =
      (rc, if gr_ib_list g then g\<lparr>gr_ib_list := False, gr_dev := None\<rparr> else g, w, log @ log_of g)"
    using destroy_global_res_log [of L g "world s" log] by blast
  have "shm_inv (s\<lparr>world := w\<rparr>)"
    by (rule mem_same_shm_inv [OF mem_same_only_world assms]) (simp add: only_world_def)
  from freeShmPiece_done [OF this] obtain w' where f: "freeShmPiece E (s\<lparr>world := w\<rparr>) = (Done (), s\<lparr>world := w\<rparr>\<lparr>world := w',
      piece_heap := heap_minus (piece_heap (s\<lparr>world := w\<rparr>)) {p. \<exists>pid i. shm_slot (s\<lparr>world := w\<rparr>) pid i = Some p}\<rparr>)" by blast
  show ?thesis
    unfolding destroy_router_def d Let_def prod.case f
    by (auto simp: heap_minus_def shm_slot_def)
qed

lemma run_router_of_start:
  assumes st: "start P cf (world s) = (r, cf', g, log, w)" and inv: "shm_inv s"
  shows "fst (run_router E P cf s) = r"
    and "r = Done (Ended ls) \<Longrightarrow> fst (snd (snd (run_router E P cf s))) = log @ log_of g"
    and "r = Done Serving \<Longrightarrow> run_router E P cf s = (Done Serving, g, log, s\<lparr>world := w\<rparr>)"
proof -
  have "shm_inv (s\<lparr>world := w\<rparr>)" by (rule mem_same_shm_inv [OF mem_same_only_world inv]) simp
  from destroy_router_done [OF this] obtain g' s' where
    d: "destroy_router E (p_lib P) g log (s\<lparr>world := w\<rparr>) = (Done (), g', log @ log_of g, s')" by blast
  show "fst (run_router E P cf s) = r"
    using st d by (cases r) (simp_all add: run_router_def split: start_end.split)
  show "r = Done (Ended ls) \<Longrightarrow> fst (snd (snd (run_router E P cf s))) = log @ log_of g"
    using st d by (simp add: run_router_def)
  show "r = Done Serving \<Longrightarrow> run_router E P cf s = (Done Serving, g, log, s\<lparr>world := w\<rparr>)"
    using st by (simp add: run_router_def)
qed

text \<open>\<open>start\<close>, from the results of the calls it makes.\<close>

lemma start_eq:
  assumes init: "init_global_res (p_lib P) cf w [] = (rc, cf', g, w1, log)" and c1: "p_create P Local_Users w1 = (r1, w2)"
    and users: "open_local (p_unix P) w2 = (users, w3)" and c2: "p_create P Remote_Routers w3 = (r2, w4)"
    and routers: "open_remote (p_inet P) w4 = (routers, w5)"
  shows "\<exists>w'. start P cf w =
    (if r1 \<noteq> 0 then Done (Ended [])
     else if r2 \<noteq> 0 then Done (Ended (if users = None then [] else [Local_Users]))
     else (case routers of
         Done fd \<Rightarrow> Done (if users = None \<and> fd = None then Ended [] else Serving) | _ \<Rightarrow> Fault),
     cf', g, log, w')"
  using assms by (simp add: start_def split: outcome.split)

text \<open>
  The router ends exactly when a thread cannot be created or neither socket can be opened; how
  the initialisation of the resources went does not matter.
\<close>

lemma router_ends_iff:
  assumes "shm_inv s" and init: "init_global_res (p_lib P) cf (world s) [] = (rc, cf', g, w1, log)"
    and calls: "p_create P Local_Users w1 = (r1, w2)" "open_local (p_unix P) w2 = (users, w3)"
      "p_create P Remote_Routers w3 = (r2, w4)" "open_remote (p_inet P) w4 = (Done routers, w5)"
  shows "(if r1 \<noteq> 0 \<or> r2 \<noteq> 0 \<or> users = None \<and> routers = None
      then \<exists>ls. fst (run_router E P cf s) = Done (Ended ls)
        \<and> fst (snd (snd (run_router E P cf s))) = log @ log_of g
        \<and> set ls = (if r1 = 0 \<and> r2 \<noteq> 0 \<and> users \<noteq> None then {Local_Users} else {})
      else \<exists>w. run_router E P cf s = (Done Serving, g, log, s\<lparr>world := w\<rparr>))"
proof -
  obtain w' where st: "start P cf (world s) =
    (if r1 \<noteq> 0 then Done (Ended [])
     else if r2 \<noteq> 0 then Done (Ended (if users = None then [] else [Local_Users]))
     else Done (if users = None \<and> routers = None then Ended [] else Serving), cf', g, log, w')"
    using start_eq [OF init calls] by auto
  note ends = run_router_of_start [OF _ assms(1), where E = E]
  consider "r1 \<noteq> 0" | "r1 = 0" "r2 \<noteq> 0" | "r1 = 0" "r2 = 0" "users = None" "routers = None"
    | "r1 = 0" "r2 = 0" "\<not> (users = None \<and> routers = None)" by blast
  then show ?thesis
  proof cases
    case 1
    then have "start P cf (world s) = (Done (Ended []), cf', g, log, w')" using st by simp
    from ends(1,2) [OF this] show ?thesis using 1 by simp
  next
    case 2
    then have "start P cf (world s) = (Done (Ended (if users = None then [] else [Local_Users])), cf', g, log, w')"
      using st by simp
    from ends(1,2) [OF this] show ?thesis using 2 by simp
  next
    case 3
    then have "start P cf (world s) = (Done (Ended []), cf', g, log, w')" using st by simp
    from ends(1,2) [OF this] show ?thesis using 3 by simp
  next
    case 4
    have no: "\<not> (r1 \<noteq> 0 \<or> r2 \<noteq> 0 \<or> users = None \<and> routers = None)" using 4 by simp
    have "start P cf (world s) = (Done Serving, cf', g, log, w')"
      unfolding st using 4(1,2) by (simp only: if_not_P [OF 4(3)] simp_thms if_False)
    from ends(3) [OF this refl] show ?thesis unfolding if_not_P [OF no] by (rule exI)
  qed
qed

text \<open>
  When the last step of the initialisation fails, the clean-up frees the protection domain
  and the context; if no thread can be created either, the destructor frees them again.
\<close>

lemma failed_init_frees_twice:
  assumes inv: "shm_inv s" and dl: "l_get_device_list L (world s) = (Some (d # ds), w1)" and name: "o_dev_name cf = None"
    and op: "l_open_device L 0 w1 = (True, w2)"
    and qp: "l_query_port L (o_ib_port cf) w2 = ((0, pa), w3)"
    and qg: "l_query_gid L (o_ib_port cf) (o_gid_idx cf) w3 = ((0, gd), w4)" "0 \<le> sint (o_gid_idx cf)"
    and pd: "l_alloc_pd L w4 = (True, w5)" and ep: "l_epoll_create L w5 = (-1, w6)"
    and P: "p_lib P = L" "\<And>w. fst (p_create P Local_Users w) \<noteq> 0"
  shows "fst (snd (snd (run_router E P cf s))) = [Dev_List, Pd, Ctx, Pd, Ctx]"
proof -
  let ?cf = "cf\<lparr>o_dev_name := Some d\<rparr>"
  let ?g = "zero_global\<lparr>gr_dev := Some 0, gr_ib_list := True, gr_ctx := True, gr_port_attr := pa,
     gr_src_lid := pa_lid pa, gr_src_gid := gd, gr_pd := True, gr_epoll_fd := -1\<rparr>"
  have dev: "init_device L ?cf 0 zero_global w1 = (1, ?g, w6)"
    using op qp qg pd ep by (simp add: init_device_def)
  have sd: "search_device (d # ds) 0 (o_dev_name cf) = (Some d, Some 0)" using name by simp
  obtain rc1 w7 where d1: "destroy_global_res L ?g w6 [] =
      (rc1, ?g\<lparr>gr_ib_list := False, gr_dev := None\<rparr>, w7, [Dev_List, Pd, Ctx])"
    using destroy_global_res_log [of L ?g w6 "[]"] by (auto simp: log_of_def)
  have i: "init_global_res L cf (world s) [] =
      (1, ?cf, ?g\<lparr>gr_ib_list := False, gr_dev := None\<rparr>, w7, [Dev_List, Pd, Ctx])"
    unfolding init_global_res_def Let_def dl sd prod.case option.case by (simp add: dev d1)
  obtain r w8 where c: "p_create P Local_Users w7 = (r, w8)" "r \<noteq> 0" using P(2) [of w7] by (cases "p_create P Local_Users w7") simp
  have st: "start P cf (world s) = (Done (Ended []), ?cf, ?g\<lparr>gr_ib_list := False, gr_dev := None\<rparr>,
      [Dev_List, Pd, Ctx], w8)"
    unfolding start_def P(1) i Let_def prod.case c(1) using c(2) by simp
  show ?thesis
    using run_router_of_start(2) [OF st inv refl, where E = E] by (simp add: log_of_def)
qed

text \<open>
  After a successful initialisation the destructor frees every resource exactly once, and
  every piece of shared memory.
\<close>

lemma destroy_after_success:
  assumes "init_global_res L cf w [] = (0, cf', g, w', log)" and "0 < gr_epoll_fd g" and "shm_inv s"
  shows "\<exists>g' s'. destroy_router E L g log s = (Done (), g', [Dev_List, Pd, Ctx, Epoll (gr_epoll_fd g)], s')
     \<and> (\<forall>pid i p. shm_slot s pid i = Some p \<longrightarrow> piece_heap s' p = None)"
  using assms(2) init_global_res_ok [OF assms(1)] destroy_router_done [OF assms(3), of E L g log]
  by (auto simp: log_of_def)

end
