(* ===== verification/Interleave.thy ===== *)
theory Interleave
  imports Qp_Props
begin

text \<open>
  The critical sections of \<open>IBV_MODIFY_QP\<close>. The handler is cut where it gives up the mutexes it
  shares with other threads: attaching to the host pair, making the queue pair, announcing it,
  each look at \<open>dst_qp_map\<close>, looking up the connection again, and making it ready. \<open>Threads\<close> puts
  the sections of any number of threads together.
\<close>

section \<open>The parts of the handler\<close>

text \<open>After the loop: the connection is looked up, then locked and taken to RTS.\<close>

definition finish_find :: "HostKey \<Rightarrow> 'w router \<Rightarrow> ptr outcome \<times> 'w router" where
  "finish_find hostkey s =
     andthen (acquire HostmapL s) (\<lambda>_ s.
       (case host_map s hostkey of
          None \<Rightarrow> (Killed, s)
        | Some conn \<Rightarrow> if conn = 0 then (Killed, s) else (Done conn, release HostmapL s)))"

definition finish_ready ::
  "'w env \<Rightarrow> ConnInfo \<Rightarrow> ptr \<Rightarrow> 'w router \<Rightarrow> u8 outcome \<times> 'w router" where
  "finish_ready E conninfo conn s =
     andthen (acquire (ConnL conn) s) (\<lambda>_ s.
     andthen (read_conn conn s) (\<lambda>res s.
       let (res, s) =
             (if cr_status res = 0 then
                (let (rc, w) = modify_qp_to_ready E (config s) conninfo res (world s);
                     s = s\<lparr>world := w\<rparr> in
                 if rc \<noteq> 0 then (res, s)
                 else (res\<lparr>cr_status := 4\<rparr>, write_conn conn (res\<lparr>cr_status := 4\<rparr>) s))
              else (res, s));
           ready_flag = cr_status res = 4;
           s = release (ConnL conn) s
       in (Done (if ready_flag then 1 else 0), s)))"

lemma modify_qp_finish_parts:
  "modify_qp_finish E header req k n m s =
     andthen (finish_find k s) (\<lambda>conn t. finish_ready E (qp_conninfo s header req n m) conn t)"
  by (cases "HostmapL \<in> held s")
    (auto simp: modify_qp_finish_def finish_find_def finish_ready_def qp_conninfo_def modify_key_def acquire_def
      Let_def split: option.split)

text \<open>Where a thread stands, with its local variables.\<close>

datatype stage =
    Start modify_qp_req
  | Attached modify_qp_req HostKey "bool \<times> ptr \<times> ptr"
  | Materialised modify_qp_req HostKey u32
  | Waiting modify_qp_req HostKey u32
  | Finishing modify_qp_req HostKey u32 u32
  | Readying modify_qp_req u32 u32 ptr
  | Answered u8

fun advance :: "'w env \<Rightarrow> ScaleReqHeader \<Rightarrow> stage \<Rightarrow> 'w router \<Rightarrow> stage outcome \<times> 'w router" where
  "advance E header (Start req) s =
     (let hostkey = \<lparr>src_gid = g_src_gid s, dst_gid = take 16 (mq_dst_gid req)\<rparr> in
      andthen (host_attach hostkey s) (\<lambda>a s. (Done (Attached req hostkey a), s)))"
| "advance E header (Attached req hostkey a) s =
     andthen (host_materialise E a s) (\<lambda>n s. (Done (Materialised req hostkey n), s))"
| "advance E header (Materialised req hostkey n) s =
     andthen (modify_qp_announce E req hostkey n s) (\<lambda>_ s. (Done (Waiting req hostkey n), s))"
| "advance E header (Waiting req hostkey n) s =
     andthen (dst_lookup (mq_dst_gid req) s) (\<lambda>r s.
       (Done (case r of None \<Rightarrow> Waiting req hostkey n | Some m \<Rightarrow> Finishing req hostkey n m), s))"
| "advance E header (Finishing req hostkey n m) s =
     andthen (finish_find hostkey s) (\<lambda>conn s. (Done (Readying req n m conn), s))"
| "advance E header (Readying req n m conn) s =
     andthen (finish_ready E (qp_conninfo s header req n m) conn s) (\<lambda>flag s. (Done (Answered flag), s))"
| "advance E header (Answered flag) s = (Done (Answered flag), s)"

section \<open>One thread alone is the handler\<close>

text \<open>The parts one after the other, up to the loop, are the first half of the handler.\<close>

lemma advance_begin:
  "andthen (advance E h (Start req) s) (\<lambda>st s. andthen (advance E h st s) (\<lambda>st s. advance E h st s))
   = andthen (modify_qp_begin E req s) (\<lambda>(k, n) s. (Done (Waiting req k n), s))"
proof -
  have fin: "andthen (modify_qp_announce E req k n u) (\<lambda>_ t. (Done (Waiting req k n), t))
      = andthen (modify_qp_announce E req k n u) (\<lambda>(k, n) t. (Done (Waiting req k n), t))" for k n u
    by (cases "acquire SrcQpL u" rule: outcome_cases)
      (auto simp: modify_qp_announce_def Let_def split: prod.split)
  show ?thesis
    by (simp add: modify_qp_begin_def andthen_assoc fin Let_def)
qed

text \<open>
  When the other router's number is there, the handler without further messages is the
  composition of all parts.
\<close>

lemma advance_finish:
  "andthen (advance E h (Finishing req k n m) s) (\<lambda>st s. advance E h st s)
   = andthen (modify_qp_finish E h req k n m s) (\<lambda>flag s. (Done (Answered flag), s))"
proof -
  have same: "qp_conninfo t h req n m = qp_conninfo s h req n m" if "finish_find k s = (Done conn, t)" for conn t
    using that by (auto simp: finish_find_def acquire_def release_def qp_conninfo_def modify_key_def
        split: if_splits option.splits)
  show ?thesis
    by (cases "finish_find k s" rule: outcome_cases)
      (simp_all add: modify_qp_finish_parts same)
qed

lemma advance_end:
  assumes "DstQpL \<notin> held s"
  shows "andthen (advance E h (Waiting req k n) s) (\<lambda>st s.
      (case st of Waiting req k n \<Rightarrow> (Done st, s) | _ \<Rightarrow> andthen (advance E h st s) (\<lambda>st s. advance E h st s)))
   = (case dst_qp_map s (take 16 (mq_dst_gid req)) of
        None \<Rightarrow> (Done (Waiting req k n), s)
      | Some m \<Rightarrow> andthen (modify_qp_finish E h req k n m s) (\<lambda>flag s. (Done (Answered flag), s)))"
proof -
  have "dst_lookup (mq_dst_gid req) s = (Done (dst_qp_map s (take 16 (mq_dst_gid req))), s)"
    using assms by (simp add: dst_lookup_def acquire_def release_def)
  then show ?thesis by (simp split: option.split add: advance_finish [simplified])
qed

end
