(* ===== verification/Threads.thy ===== *)
theory Threads
  imports Interleave Dispatch
begin

text \<open>
  All requests on queue pairs at once. \<open>IBV_DESTROY_QP\<close>, \<open>IBV_POST_SEND\<close>, \<open>IBV_POST_RECV\<close>
  and \<open>IBV_POLL_CQ\<close> are cut like \<open>IBV_MODIFY_QP\<close> where they give up a mutex; the other requests
  touch nothing the pool consists of and run in one step. Any number of threads takes turns.
\<close>

section \<open>The parts of the handlers\<close>

text \<open>What a thread does with the connection it has found, and with which result.\<close>

datatype conn_use = Use_Send u64 post_send_req | Use_Recv u64 post_recv_req | Use_Poll poll_cq_req

datatype activity =
    Modify stage
  | Destroy destroy_qp_req
  | Detached destroy_qp_req HostKey
  | Unlinked destroy_qp_req ptr
  | Sending post_send_req
  | Receiving post_recv_req
  | Finding conn_use
  | Found conn_use HostKey
  | Using conn_use ptr
  | Aside thread
  | Replied "reply option"

subsection \<open>IBV_DESTROY_QP\<close>

definition destroy_detach :: "destroy_qp_req \<Rightarrow> 'w router \<Rightarrow> HostKey option outcome \<times> 'w router" where
  "destroy_detach req s =
     andthen (acquire SrcQpL s) (\<lambda>_ s.
       (case src_qp_map s (dq_qp_handle req) of
          None \<Rightarrow> (Done None, release SrcQpL s)
        | Some hostkey \<Rightarrow>
            (Done (Some hostkey),
             release SrcQpL (s\<lparr>src_qp_map := (src_qp_map s)(dq_qp_handle req := None)\<rparr>))))"

definition destroy_unlink :: "HostKey \<Rightarrow> 'w router \<Rightarrow> (u8 + ptr) outcome \<times> 'w router" where
  "destroy_unlink hostkey s =
     andthen (acquire HostmapL s) (\<lambda>_ s.
       (case host_map s hostkey of
          None \<Rightarrow> (Done (Inl 0), release HostmapL s)
        | Some conn \<Rightarrow>
            if conn = 0 then (Killed, release HostmapL s)
            else
              andthen (read_conn conn s) (\<lambda>c s.
                let c = c\<lparr>cr_ref_cnt := cr_ref_cnt c - 1\<rparr>;
                    s = write_conn conn c s in
                if cr_ref_cnt c \<le> 0 then
                  (Done (Inr conn), release HostmapL (s\<lparr>host_map := (host_map s)(hostkey := None)\<rparr>))
                else (Done (Inl 1), release HostmapL s))))"

lemma ibv_destroy_qp_parts:
  "ibv_destroy_qp_h E req s =
     andthen (destroy_detach req s) (\<lambda>r s. case r of
         None \<Rightarrow> (Done 0, s)
       | Some hostkey \<Rightarrow> andthen (destroy_unlink hostkey s) (\<lambda>u s. case u of
             Inl flags \<Rightarrow> (Done flags, s)
           | Inr conn \<Rightarrow> release_conn E conn (dq_dst_v_qp_num req) s))"
  by (simp add: ibv_destroy_qp_h_def destroy_detach_def destroy_unlink_def acquire_def read_conn_def Let_def
      split: option.split)

subsection \<open>Finding a connection and using it\<close>

definition find_key :: "u32 \<Rightarrow> 'w router \<Rightarrow> HostKey outcome \<times> 'w router" where
  "find_key qp_handle s =
     andthen (acquire SrcQpL s) (\<lambda>_ s.
       (case src_qp_map s qp_handle of
          None \<Rightarrow> (Killed, release SrcQpL s)
        | Some hostkey \<Rightarrow> (Done hostkey, release SrcQpL s)))"

definition find_host_conn :: "HostKey \<Rightarrow> 'w router \<Rightarrow> ptr outcome \<times> 'w router" where
  "find_host_conn hostkey s =
     andthen (acquire HostmapL s) (\<lambda>_ s.
       (case host_map s hostkey of
          Some conn \<Rightarrow> if conn \<noteq> 0 then (Done conn, release HostmapL s) else (Killed, release HostmapL s)
        | None \<Rightarrow> (Killed, release HostmapL s)))"

lemma find_conn_parts: "find_conn h s = andthen (find_key h s) (\<lambda>k s. find_host_conn k s)"
  by (simp add: find_conn_def find_key_def find_host_conn_def andthen_assoc acquire_def split: option.split)

fun use_handle :: "conn_use \<Rightarrow> u32" where
  "use_handle (Use_Send addr req) = ps_qp_handle req"
| "use_handle (Use_Recv addr req) = pr_qp_handle req"
| "use_handle (Use_Poll req) = pc_qp_handle req"

text \<open>With the connection's mutex locked; the result of a poll is looked at after it.\<close>

fun use_conn :: "'w env \<Rightarrow> ScaleReqHeader \<Rightarrow> conn_use \<Rightarrow> ptr \<Rightarrow> 'w router \<Rightarrow> reply option outcome \<times> 'w router" where
  "use_conn E header (Use_Send addr req) conn s =
     andthen (acquire (ConnL conn) s) (\<lambda>_ s.
     andthen (read_conn conn s) (\<lambda>c s.
       let (rc, w) = e_post_send E (cr_qp c) (send_wr_of addr req) (world s);
           s = release (ConnL conn) (s\<lparr>world := w\<rparr>)
       in if rc \<noteq> 0 then (Killed, s) else (Done (Some (Wr_Id_Rsp (rh_process_id header))), s)))"
| "use_conn E header (Use_Recv addr req) conn s =
     andthen (acquire (ConnL conn) s) (\<lambda>_ s.
     andthen (read_conn conn s) (\<lambda>c s.
       let (rc, w) = e_post_recv E (cr_qp c) (recv_wr_of addr req) (world s);
           s = release (ConnL conn) (s\<lparr>world := w\<rparr>)
       in if rc \<noteq> 0 then (Killed, s) else (Done (Some (Wr_Id_Rsp (rh_process_id header))), s)))"
| "use_conn E header (Use_Poll req) conn s =
     andthen (acquire (ConnL conn) s) (\<lambda>_ s.
     andthen (read_conn conn s) (\<lambda>c s.
       let exp_cnt = pc_num_entries req;
           ((poll_result, wcs), w) = e_poll_cq E (cr_cq c) exp_cnt (world s);
           s = release (ConnL conn) (s\<lparr>world := w\<rparr>);
           wc = wc_array exp_cnt wcs in
       andthen (check_wcs (rh_process_id header) (nat poll_result) wc, s) (\<lambda>_ s.
         (case wc of
            [] \<Rightarrow> (Fault, s)
          | e # _ \<Rightarrow>
              (Done (Some (Poll_Rsp \<lparr>pp_count = word_of_int poll_result, pp_wr_id = wc_wr_id e,
                 pp_opcode = wc_opcode e, pp_status = wc_status e, pp_vendor_err = wc_vendor_err e\<rparr>)), s)))))"

subsection \<open>One part of a thread\<close>

fun proceed :: "'w env \<Rightarrow> ScaleReqHeader \<Rightarrow> activity \<Rightarrow> 'w router \<Rightarrow> activity outcome \<times> 'w router" where
  "proceed E h (Modify st) s =
     (case st of
        Answered flag \<Rightarrow> (Done (Replied (Some (Flags_Rsp flag))), s)
      | _ \<Rightarrow> andthen (advance E h st s) (\<lambda>st s. (Done (Modify st), s)))"
| "proceed E h (Destroy req) s =
     andthen (destroy_detach req s) (\<lambda>r s. (Done (case r of
         None \<Rightarrow> Replied (Some (Flags_Rsp 0)) | Some k \<Rightarrow> Detached req k), s))"
| "proceed E h (Detached req k) s =
     andthen (destroy_unlink k s) (\<lambda>u s. (Done (case u of
         Inl flags \<Rightarrow> Replied (Some (Flags_Rsp flags)) | Inr conn \<Rightarrow> Unlinked req conn), s))"
| "proceed E h (Unlinked req conn) s =
     andthen (release_conn E conn (dq_dst_v_qp_num req) s) (\<lambda>flags s.
       (Done (Replied (Some (Flags_Rsp flags))), s))"
| "proceed E h (Sending req) s =
     andthen (translate_addr (ps_lkey req) (ps_client_addr req) s) (\<lambda>addr s.
       if \<not> e_readable E addr (world s) then (Fault, s) else (Done (Finding (Use_Send addr req)), s))"
| "proceed E h (Receiving req) s =
     andthen (translate_addr (pr_lkey req) (pr_client_addr req) s) (\<lambda>addr s.
       if rr_wr_id (recv_wr_of addr req) \<noteq> scast (rh_process_id h) then (Killed, s)
       else (Done (Finding (Use_Recv addr req)), s))"
| "proceed E h (Finding u) s = andthen (find_key (use_handle u) s) (\<lambda>k s. (Done (Found u k), s))"
| "proceed E h (Found u k) s = andthen (find_host_conn k s) (\<lambda>conn s. (Done (Using u conn), s))"
| "proceed E h (Using u conn) s = andthen (use_conn E h u conn s) (\<lambda>r s. (Done (Replied r), s))"
| "proceed E h (Aside t) s = andthen (handle_case E t s) (\<lambda>r s. (Done (Replied r), s))"
| "proceed E h (Replied r) s = (Done (Replied r), s)"

text \<open>
  A thread that runs alone is the handler: the parts of each request, one after the other,
  are the \<open>case\<close> of \<open>Dispatch\<close>.
\<close>

primrec finish :: "nat \<Rightarrow> 'w env \<Rightarrow> ScaleReqHeader \<Rightarrow> activity \<Rightarrow> 'w router \<Rightarrow> activity outcome \<times> 'w router" where
  "finish 0 E h a s = (Done a, s)"
| "finish (Suc n) E h a s = andthen (proceed E h a s) (\<lambda>a s. finish n E h a s)"

definition replied :: "reply option outcome \<times> 's \<Rightarrow> activity outcome \<times> 's" where
  "replied r = andthen r (\<lambda>r s. (Done (Replied r), s))"

lemma replied_simps [simp]:
  "replied (Done r, s) = (Done (Replied r), s)" "replied (Killed, s) = (Killed, s)"
  "replied (Blocked l, s) = (Blocked l, s)" "replied (Fault, s) = (Fault, s)"
  by (simp_all add: replied_def)

lemma finish_replied [simp]: "finish n E h (Replied r) s = (Done (Replied r), s)"
  by (induction n) simp_all

lemma finish_destroy:
  "finish 3 E h (Destroy req) s = replied (replies Flags_Rsp (ibv_destroy_qp_h E req s))"
  by (cases "destroy_detach req s" rule: outcome_cases)
    (auto simp: eval_nat_numeral ibv_destroy_qp_parts replies_def replied_def andthen_assoc
      intro!: arg_cong [where f = "andthen _"] ext split: option.split sum.split)

lemma finish_send:
  "finish 4 E h (Sending req) s = replied (replies Wr_Id_Rsp (ibv_post_send_h E h req s))"
  by (auto simp: eval_nat_numeral ibv_post_send_h_def find_conn_parts replies_def replied_def andthen_assoc Let_def
      intro!: arg_cong [where f = "andthen _"] ext split: prod.split)

lemma finish_recv:
  "finish 4 E h (Receiving req) s = replied (replies Wr_Id_Rsp (ibv_post_recv_h E h req s))"
  by (auto simp: eval_nat_numeral ibv_post_recv_h_def find_conn_parts replies_def replied_def andthen_assoc Let_def
      intro!: arg_cong [where f = "andthen _"] ext split: prod.split)

lemma finish_poll:
  "finish 3 E h (Finding (Use_Poll req)) s = replied (replies Poll_Rsp (ibv_poll_cq_h E h req s))"
  by (auto simp: eval_nat_numeral ibv_poll_cq_h_def find_conn_parts replies_def replied_def andthen_assoc Let_def
      intro!: arg_cong [where f = "andthen _"] ext split: prod.split list.split)

section \<open>All threads\<close>

text \<open>
  The threads by number, and the router, \<open>None\<close> when it has crashed. A thread that waits for
  a mutex does not move.
\<close>

type_synonym 'w tconfig = "(nat \<rightharpoonup> ScaleReqHeader \<times> activity) \<times> 'w router option"

inductive tstep :: "'w env \<Rightarrow> 'w tconfig \<Rightarrow> 'w tconfig \<Rightarrow> bool" for E where
  run: "\<lbrakk>ts i = Some (h, a); proceed E h a s = (Done a', s')\<rbrakk> \<Longrightarrow>
    tstep E (ts, Some s) (ts(i \<mapsto> (h, a')), Some s')"
| kill: "\<lbrakk>ts i = Some (h, a); proceed E h a s = (Killed, s')\<rbrakk> \<Longrightarrow>
    tstep E (ts, Some s) (ts(i := None), Some s')"
| crash: "\<lbrakk>ts i = Some (h, a); proceed E h a s = (Fault, s')\<rbrakk> \<Longrightarrow> tstep E (ts, Some s) (ts, None)"
| peer: "handle_remote_router E fd n m s = (Done (), s') \<Longrightarrow> tstep E (ts, Some s) (ts, Some s')"

inductive_cases tstep_crashedE: "tstep E (ts, None) c"

lemma tstep_modify:
  assumes "ts i = Some (h, Modify st)" and "advance E h st s = (Done st', s')" and "\<And>flag. st \<noteq> Answered flag"
  shows "tstep E (ts, Some s) (ts(i \<mapsto> (h, Modify st')), Some s')"
proof (rule tstep.run [where ts = ts and i = i, OF assms(1)])
  show "proceed E h (Modify st) s = (Done (Modify st'), s')"
    using assms(2,3) by (cases st) (auto simp del: advance.simps)
qed

text \<open>A thread that waits for a mutex stays where it is.\<close>

lemma tstep_blocked_stays:
  assumes "tstep E (ts, Some s) (ts', s')" and "ts i = Some (h, a)" and "fst (proceed E h a s) = Blocked l"
  shows "ts' i = Some (h, a)"
  using assms(1)
proof cases
  case (run j h' a1 a' s1)
  then have "j \<noteq> i" using assms(2,3) by auto
  then show ?thesis using run assms(2) by simp
next
  case (kill j h' a1 s1)
  then have "j \<noteq> i" using assms(2,3) by auto
  then show ?thesis using kill assms(2) by simp
qed (use assms(2) in auto)

section \<open>The waiting loop among other threads\<close>

text \<open>
  A waiting thread whose number has arrived can go on, and one whose number has not can only
  look again.
\<close>

lemma waiting_goes_on:
  assumes "ts i = Some (h, Modify (Waiting req k n))" and "DstQpL \<notin> held s"
    and "dst_qp_map s (take 16 (mq_dst_gid req)) = Some m"
  shows "tstep E (ts, Some s) (ts(i \<mapsto> (h, Modify (Finishing req k n m))), Some s)"
proof (rule tstep_modify [where ts = ts and i = i, OF assms(1)])
  have "dst_lookup (mq_dst_gid req) s = (Done (dst_qp_map s (take 16 (mq_dst_gid req))), s)"
    using assms(2) by (simp add: dst_lookup_def acquire_def release_def)
  then show "advance E h (Waiting req k n) s = (Done (Finishing req k n m), s)"
    using assms(3) by simp
qed simp

lemma peer_then_goes_on:
  assumes "ts i = Some (h, Modify (Waiting req k n))" and "held s = {}" and "info_op m = INSERT"
    and "info_gid (m :: info) = take 16 (mq_dst_gid req)"
  shows "\<exists>s'. (tstep E)\<^sup>*\<^sup>* (ts, Some s) (ts(i \<mapsto> (h, Modify (Finishing req k n (info_qp_num m)))), Some s')"
proof -
  let ?s = "s\<lparr>dst_qp_map := apply_info m (dst_qp_map s), world := snd (e_close E fd (world s))\<rparr>"
  have "handle_remote_router E fd 24 m s = (Done (), ?s)"
    by (rule handle_remote_router_step) (use assms(2) in simp_all)
  then have m1: "tstep E (ts, Some s) (ts, Some ?s)" by (rule tstep.peer)
  have m2: "tstep E (ts, Some ?s) (ts(i \<mapsto> (h, Modify (Finishing req k n (info_qp_num m)))), Some ?s)"
    by (rule waiting_goes_on) (use assms in \<open>simp_all add: apply_info_def\<close>)
  show ?thesis by (rule exI, rule converse_rtranclp_into_rtranclp [OF m1 r_into_rtranclp [where r = "tstep E", OF m2]])
qed

section \<open>The gap between attaching and making the queue pair\<close>

text \<open>
  Two threads attach to the same host pair, which has no connection yet. If the second one
  reaches the end of its second part before the first has made the queue pair, it reads the
  number of a queue pair that does not exist.
\<close>

lemma race_crashes:
  assumes inv: "pool_inv s" and free: "held s = {}"
    and key: "take 16 (mq_dst_gid r1) = take 16 (mq_dst_gid r2)" and none: "host_map s (modify_key s r1) = None"
    and ts: "ts i = Some (h1, Modify (Start r1))" "ts j = Some (h2, Modify (Start r2))" "i \<noteq> j"
  shows "\<exists>ts'. (tstep E)\<^sup>*\<^sup>* (ts, Some s) (ts', None)"
proof -
  let ?k = "modify_key s r1" and ?p = "next_ptr s"
  let ?c = "zero_conn\<lparr>cr_ref_cnt := 1\<rparr>"
  let ?s1 = "s\<lparr>next_ptr := Suc ?p, conn_heap := (conn_heap s)(?p \<mapsto> ?c),
     host_map := (host_map s)(?k \<mapsto> ?p), held := {ConnL ?p}\<rparr>"
  let ?s2 = "?s1\<lparr>next_ptr := Suc (Suc ?p), held := {ConnL (Suc ?p), ConnL ?p},
     conn_heap := (conn_heap s)(Suc ?p \<mapsto> ?c, ?p \<mapsto> ?c\<lparr>cr_ref_cnt := 2\<rparr>)\<rparr>"
  have k2: "modify_key s r2 = ?k" using key by (simp add: modify_key_def)
  have p0: "?p \<noteq> 0" "qp_heap s 0 = None" using pool_next_ptr [OF inv] by auto
  have a1: "advance E h1 (Start r1) s = (Done (Attached r1 ?k (True, ?p, 0)), ?s1)"
    using none free
    by (simp add: modify_key_def host_attach_def acquire_def release_def write_conn_def Let_def)
  have hd: "insert (ConnL (Suc ?p)) (insert HostmapL {ConnL ?p}) - {HostmapL} = {ConnL (Suc ?p), ConnL ?p}"
    by auto
  have a2: "advance E h2 (Start r2) ?s1 = (Done (Attached r2 ?k (False, Suc ?p, ?p)), ?s2)"
    using k2 p0 hd
    by (simp add: modify_key_def host_attach_def acquire_def release_def write_conn_def read_conn_def Let_def
        fun_upd_twist insert_commute)
  have a3: "\<exists>s3. advance E h2 (Attached r2 ?k (False, Suc ?p, ?p)) ?s2 = (Fault, s3)"
    using p0
    by (simp add: host_materialise_def read_conn_def read_qp_num_def release_def resources_destroy_zero zero_conn_def)
  let ?t1 = "ts(i \<mapsto> (h1, Modify (Attached r1 ?k (True, ?p, 0))))"
  let ?t2 = "?t1(j \<mapsto> (h2, Modify (Attached r2 ?k (False, Suc ?p, ?p))))"
  have m1: "tstep E (ts, Some s) (?t1, Some ?s1)" by (rule tstep_modify [where ts = ts and i = i, OF ts(1) a1]) simp
  have m2: "tstep E (?t1, Some ?s1) (?t2, Some ?s2)"
    by (rule tstep_modify [where ts = "?t1" and i = j, OF _ a2]) (use ts in simp_all)
  obtain s3 where pr: "proceed E h2 (Modify (Attached r2 ?k (False, Suc ?p, ?p))) ?s2 = (Fault, s3)"
    using a3 by (auto simp del: advance.simps)
  have m3: "tstep E (?t2, Some ?s2) (?t2, None)"
    by (rule tstep.crash [where ts = ?t2 and i = j, OF _ pr]) simp
  show ?thesis
    by (rule exI, rule converse_rtranclp_into_rtranclp [OF m1 converse_rtranclp_into_rtranclp
        [where r = "tstep E", OF m2 r_into_rtranclp [where r = "tstep E", OF m3]]])
qed

section \<open>A connection is used after it was freed\<close>

text \<open>A thread that takes several steps in a row.\<close>

lemma finish_treach:
  assumes "finish n E h a s = (Done a', s')" and "ts i = Some (h, a)"
  shows "(tstep E)\<^sup>*\<^sup>* (ts, Some s) (ts(i \<mapsto> (h, a')), Some s')"
  using assms
proof (induction n arbitrary: a s ts)
  case 0
  then show ?case by (simp add: fun_upd_idem)
next
  case (Suc n)
  obtain b t where b: "proceed E h a s = (Done b, t)" "finish n E h b t = (Done a', s')"
    using Suc.prems(1) by (cases "proceed E h a s" rule: outcome_cases) auto
  have 1: "tstep E (ts, Some s) (ts(i \<mapsto> (h, b)), Some t)" by (rule tstep.run [where ts = ts and i = i, OF Suc.prems(2) b(1)])
  have "(tstep E)\<^sup>*\<^sup>* (ts(i \<mapsto> (h, b)), Some t) ((ts(i \<mapsto> (h, b)))(i \<mapsto> (h, a')), Some s')"
    by (rule Suc.IH [OF b(2)]) simp
  then have 2: "(tstep E)\<^sup>*\<^sup>* (ts(i \<mapsto> (h, b)), Some t) (ts(i \<mapsto> (h, a')), Some s')" unfolding fun_upd_upd .
  show ?case by (rule converse_rtranclp_into_rtranclp [where r = "tstep E", OF 1 2])
qed

text \<open>
  A post or poll has found its connection when another thread destroys the last queue pair of
  the host pair; it then locks a mutex in freed memory.
\<close>

lemma use_after_destroy:
  assumes inv: "pool_inv s" and free: "held s = {}" and last: "attached s k = {use_handle u}"
    and ts: "ts i = Some (h1, Finding u)" "ts j = Some (h2, Destroy req)" "i \<noteq> j" and v: "dq_qp_handle req = use_handle u"
  shows "\<exists>ts'. (tstep E)\<^sup>*\<^sup>* (ts, Some s) (ts', None)"
proof -
  have h: "src_qp_map s (use_handle u) = Some k" using last by (auto simp: attached_def)
  obtain p c q where p: "host_map s k = Some p" "conn_heap s p = Some c" "qp_heap s (cr_qp c) = Some q" "0 < p"
  proof -
    obtain p where "host_map s k = Some p" using inv h unfolding pool_inv_def by blast
    then show thesis using pool_connD [OF inv] that by metis
  qed
  have f: "finish 2 E h1 (Finding u) s = (Done (Using u p), s)"
    using h p(1,4) free by (simp add: eval_nat_numeral find_key_def find_host_conn_def acquire_def release_def)
  let ?t1 = "ts(i \<mapsto> (h1, Using u p))"
  have r1: "(tstep E)\<^sup>*\<^sup>* (ts, Some s) (?t1, Some s)" by (rule finish_treach [where ts = ts and i = i, OF f ts(1)])
  obtain flags s' where d: "ibv_destroy_qp_h E req s = (Done flags, s')" and s': "conn_heap s' p = None" "held s' = {}"
    by (rule destroy_qp_last [OF inv free _ p(1-3), of req E]) (use h v last free in auto)
  have "finish 3 E h2 (Destroy req) s = (Done (Replied (Some (Flags_Rsp flags))), s')"
    unfolding finish_destroy d by (simp add: replies_def)
  from finish_treach [where ts = ?t1 and i = j, OF this]
  obtain t2 where r2: "(tstep E)\<^sup>*\<^sup>* (?t1, Some s) (t2, Some s')" and t2: "t2 i = Some (h1, Using u p)"
    using ts by auto
  have "\<exists>t. proceed E h1 (Using u p) s' = (Fault, t)"
    using s' by (cases u) (simp_all add: acquire_def read_conn_def)
  then have "tstep E (t2, Some s') (t2, None)" using t2 by (auto intro: tstep.crash [of t2 i h1])
  then show ?thesis using r1 r2 by (meson rtranclp.rtrancl_into_rtrancl rtranclp_trans)
qed

text \<open>One after the other, in either order, the same two requests do not go wrong.\<close>

lemma one_after_the_other:
  assumes inv: "pool_inv s" and free: "held s = {}" and last: "attached s k = {use_handle u}"
    and v: "dq_qp_handle req = use_handle u"
  shows "fst (ibv_destroy_qp_h E req s) \<noteq> Fault"
    and "fst (finish 3 E h (Finding u) (snd (ibv_destroy_qp_h E req s))) = Killed"
proof -
  have h: "src_qp_map s (use_handle u) = Some k" using last by (auto simp: attached_def)
  obtain p c q where p: "host_map s k = Some p" "conn_heap s p = Some c" "qp_heap s (cr_qp c) = Some q"
  proof -
    obtain p where "host_map s k = Some p" using inv h unfolding pool_inv_def by blast
    then show thesis using pool_connD [OF inv] that by metis
  qed
  obtain flags s' where d: "ibv_destroy_qp_h E req s = (Done flags, s')" and s': "src_qp_map s' (use_handle u) = None" "held s' = {}"
    by (rule destroy_qp_last [OF inv free _ p, of req E]) (use h v last free in auto)
  show "fst (ibv_destroy_qp_h E req s) \<noteq> Fault" using d by simp
  show "fst (finish 3 E h (Finding u) (snd (ibv_destroy_qp_h E req s))) = Killed"
    using d s' by (simp add: eval_nat_numeral find_key_def acquire_def)
qed

end
