(* ===== verification/Ledger.thy ===== *)
theory Ledger
  imports Router_State
begin

text \<open>
  The bookkeeping of references, by itself: who refers to which host pair (the entries of
  \<open>src_qp_map\<close> and the threads between two critical sections), what the connections count, and
  which connection a thread has for itself. One lemma per kind of change; \<open>Threads\<close> shows that
  every critical section of the handlers is one of them.
\<close>

section \<open>References\<close>

text \<open>
  \<open>pk\<close>: the host pair a thread holds a reference to; \<open>sm\<close>: that of an attached handle.
\<close>

definition holders :: "(nat \<rightharpoonup> HostKey) \<Rightarrow> (u32 \<rightharpoonup> HostKey) \<Rightarrow> HostKey \<Rightarrow> (u32 + nat) set" where
  "holders pk sm k = Inl ` {v. sm v = Some k} \<union> Inr ` {i. pk i = Some k}"

lemma holders_thread [simp]:
  "pk i = None \<Longrightarrow> holders (pk(i \<mapsto> k)) sm k' = (if k' = k then insert (Inr i) (holders pk sm k) else holders pk sm k')"
  "pk i = Some k \<Longrightarrow> holders (pk(i := None)) sm k' = (if k' = k then holders pk sm k - {Inr i} else holders pk sm k')"
  by (auto simp: holders_def split: if_splits)

lemma holders_handle [simp]:
  "sm v = None \<Longrightarrow> holders pk (sm(v \<mapsto> k)) k' = (if k' = k then insert (Inl v) (holders pk sm k) else holders pk sm k')"
  "sm v = Some k \<Longrightarrow> holders pk (sm(v := None)) k' = (if k' = k then holders pk sm k - {Inl v} else holders pk sm k')"
  by (auto simp: holders_def split: if_splits)

lemma in_holders [simp]:
  "Inl v \<in> holders pk sm k \<longleftrightarrow> sm v = Some k" "Inr i \<in> holders pk sm k \<longleftrightarrow> pk i = Some k"
  by (auto simp: holders_def)

section \<open>The ledger\<close>

text \<open>
  \<open>cl\<close>: the handle a thread will attach, \<open>ow\<close>: the connection it has for itself, \<open>ln\<close>: the one
  it found for its host pair; \<open>n\<close>: the next address, \<open>hm\<close>: \<open>host_map\<close>, \<open>rc\<close>: the reference counts
  of the allocated connections. \<open>U\<close> bounds the handles and \<open>T\<close> the threads.
\<close>

definition sized :: "u32 set \<Rightarrow> nat set \<Rightarrow> (nat \<rightharpoonup> HostKey) \<Rightarrow> (nat \<rightharpoonup> u32) \<Rightarrow> (u32 \<rightharpoonup> HostKey) \<Rightarrow> bool" where
  "sized U T pk cl sm \<longleftrightarrow> finite T \<and> card U + card T < 2 ^ 32 \<and> dom pk \<subseteq> T \<and> dom sm \<union> ran cl \<subseteq> U"

definition counted :: "(nat \<rightharpoonup> HostKey) \<Rightarrow> (HostKey \<rightharpoonup> ptr) \<Rightarrow> (u32 \<rightharpoonup> HostKey) \<Rightarrow> (ptr \<rightharpoonup> nat) \<Rightarrow> bool" where
  "counted pk hm sm rc \<longleftrightarrow>
     (\<forall>k. case hm k of None \<Rightarrow> holders pk sm k = {}
       | Some p \<Rightarrow> holders pk sm k \<noteq> {} \<and> rc p = Some (card (holders pk sm k)))"

definition placed :: "ptr \<Rightarrow> (HostKey \<rightharpoonup> ptr) \<Rightarrow> (nat \<rightharpoonup> ptr) \<Rightarrow> (ptr \<rightharpoonup> nat) \<Rightarrow> bool" where
  "placed n hm ow rc \<longleftrightarrow> 0 < n
     \<and> (\<forall>k p. hm k = Some p \<longrightarrow> 0 < p \<and> p < n) \<and> (\<forall>k k' p. hm k = Some p \<longrightarrow> hm k' = Some p \<longrightarrow> k = k')
     \<and> (\<forall>i p. ow i = Some p \<longrightarrow> 0 < p \<and> p < n \<and> p \<in> dom rc) \<and> (\<forall>i j p. ow i = Some p \<longrightarrow> ow j = Some p \<longrightarrow> i = j)
     \<and> (\<forall>i k p. ow i = Some p \<longrightarrow> hm k \<noteq> Some p)"

definition linked :: "(nat \<rightharpoonup> HostKey) \<Rightarrow> (nat \<rightharpoonup> HostKey \<times> ptr) \<Rightarrow> (HostKey \<rightharpoonup> ptr) \<Rightarrow> bool" where
  "linked pk ln hm \<longleftrightarrow> (\<forall>i k p. ln i = Some (k, p) \<longrightarrow> pk i = Some k \<and> hm k = Some p)"

definition claimed :: "(nat \<rightharpoonup> u32) \<Rightarrow> (u32 \<rightharpoonup> HostKey) \<Rightarrow> bool" where
  "claimed cl sm \<longleftrightarrow> (\<forall>i v. cl i = Some v \<longrightarrow> sm v = None) \<and> (\<forall>i j v. cl i = Some v \<longrightarrow> cl j = Some v \<longrightarrow> i = j)"

definition ledger ::
  "u32 set \<Rightarrow> nat set \<Rightarrow> (nat \<rightharpoonup> HostKey) \<Rightarrow> (nat \<rightharpoonup> u32) \<Rightarrow> (nat \<rightharpoonup> ptr) \<Rightarrow> (nat \<rightharpoonup> HostKey \<times> ptr)
     \<Rightarrow> ptr \<Rightarrow> (HostKey \<rightharpoonup> ptr) \<Rightarrow> (u32 \<rightharpoonup> HostKey) \<Rightarrow> (ptr \<rightharpoonup> nat) \<Rightarrow> bool" where
  "ledger U T pk cl ow ln n hm sm rc \<longleftrightarrow>
     sized U T pk cl sm \<and> counted pk hm sm rc \<and> placed n hm ow rc \<and> linked pk ln hm \<and> claimed cl sm"

lemma finite_holders: "sized U T pk cl sm \<Longrightarrow> finite (holders pk sm k)"
  unfolding holders_def sized_def
  by (rule finite_UnI; rule finite_imageI) (auto intro: rev_finite_subset)

lemma holders_room:
  assumes "sized U T pk cl sm" and "i \<in> T" "pk i \<noteq> Some k"
  shows "Suc (card (holders pk sm k)) < 2 ^ 32"
proof -
  have l: "finite T" "card U + card T < 2 ^ 32" "dom pk \<subseteq> T" "dom sm \<subseteq> U" using assms(1) by (auto simp: sized_def)
  have f: "finite U" by (rule finite)
  have "holders pk sm k \<subseteq> Inl ` U \<union> Inr ` (T - {i})" using l assms(3) by (auto simp: holders_def)
  then have "card (holders pk sm k) \<le> card (Inl ` U \<union> Inr ` (T - {i}) :: (u32 + nat) set)"
    by (rule card_mono [rotated]) (use l f in auto)
  also have "\<dots> \<le> card U + card (T - {i})"
    by (rule order_trans [OF card_Un_le]) (simp add: card_image)
  also have "Suc \<dots> = card U + card T" using card_Suc_Diff1 [OF l(1) assms(2)] by simp
  finally show ?thesis using l by simp
qed

lemma counted_hm: "counted pk hm sm rc \<Longrightarrow> hm k = None \<longleftrightarrow> holders pk sm k = {}"
  unfolding counted_def by (drule spec [of _ k]) (simp split: option.splits)

lemma counted_rc: "counted pk hm sm rc \<Longrightarrow> hm k = Some p \<Longrightarrow> rc p = Some (card (holders pk sm k))"
  unfolding counted_def by (drule spec [of _ k]) simp

subsection \<open>Its changes\<close>

text \<open>A thread gives up what it claims, owns or has found; addresses are handed out.\<close>

lemma drop_simps:
  "claimed cl sm \<Longrightarrow> claimed (cl(i := None)) sm"
  "linked pk ln hm \<Longrightarrow> linked pk (ln(i := None)) hm"
  "placed n hm ow rc \<Longrightarrow> placed n hm (ow(i := None)) rc"
  "sized U T pk cl sm \<Longrightarrow> sized U T pk (cl(i := None)) sm"
  by (simp_all add: claimed_def linked_def placed_def sized_def) (auto simp: ran_def split: if_splits)

lemma ledger_drop:
  assumes "ledger U T pk cl ow ln n hm sm rc"
  shows "ledger U T pk (cl(i := None)) ow ln n hm sm rc" "ledger U T pk cl (ow(i := None)) ln n hm sm rc"
    "ledger U T pk cl ow (ln(i := None)) n hm sm rc"
  using assms drop_simps unfolding ledger_def by blast+

lemma ledger_next:
  assumes "ledger U T pk cl ow ln n hm sm rc" and "n \<le> n'"
  shows "ledger U T pk cl ow ln n' hm sm rc"
proof -
  have "p < n \<Longrightarrow> p < n'" for p using assms(2) by simp
  then show ?thesis using assms(1) unfolding ledger_def placed_def by blast
qed

text \<open>A connection that is in no table changes its count, or is freed by the thread that owns it.\<close>

lemma ledger_free:
  assumes l: "ledger U T pk cl ow ln n hm sm rc" and "ow i = Some p"
  shows "ledger U T pk cl (ow(i := None)) ln n hm sm (rc(p := None))"
proof -
  have p: "hm k \<noteq> Some p" "ow j = Some p \<Longrightarrow> j = i" for k j using assms by (auto simp: ledger_def placed_def)
  have d: "counted pk hm sm rc" using l by (simp add: ledger_def)
  have "counted pk hm sm (rc(p := None))"
    unfolding counted_def using p(1) counted_hm [OF d, symmetric] counted_rc [OF d] by (simp split: option.split)
  moreover have "placed n hm (ow(i := None)) (rc(p := None))"
    using l p unfolding ledger_def placed_def by (auto split: if_splits)
  ultimately show ?thesis using l by (simp add: ledger_def)
qed

text \<open>Attaching: a thread refers to a host pair that has a connection, and has a spare one.\<close>

lemma ledger_attach_old:
  assumes l: "ledger U T pk cl ow ln n hm sm rc" and i: "i \<in> T" "pk i = None" "ln i = None" "ow i = None"
    and p: "hm k = Some p" "rc p = Some m"
  shows "ledger U T (pk(i \<mapsto> k)) cl (ow(i \<mapsto> n)) (ln(i \<mapsto> (k, p))) (Suc n) hm sm (rc(n \<mapsto> x, p \<mapsto> Suc m))"
    and "Suc m < 2 ^ 32"
proof -
  have d: "sized U T pk cl sm" "counted pk hm sm rc" "placed n hm ow rc" "linked pk ln hm" "claimed cl sm"
    using l by (simp_all add: ledger_def)
  have m: "m = card (holders pk sm k)" using counted_rc [OF d(2) p(1)] p(2) by simp
  show "Suc m < 2 ^ 32" using holders_room [OF d(1) i(1), of k] i(2) m by simp
  have pn: "p < n" "p \<noteq> n" using d(3) p(1) by (auto simp: placed_def)
  have "counted (pk(i \<mapsto> k)) hm sm (rc(n \<mapsto> x, p \<mapsto> Suc m))"
    unfolding counted_def
  proof
    fix k'
    show "case hm k' of None \<Rightarrow> holders (pk(i \<mapsto> k)) sm k' = {}
      | Some q \<Rightarrow> holders (pk(i \<mapsto> k)) sm k' \<noteq> {} \<and> (rc(n \<mapsto> x, p \<mapsto> Suc m)) q = Some (card (holders (pk(i \<mapsto> k)) sm k'))"
    proof (cases "k' = k")
      case True
      then show ?thesis using p m i(2) finite_holders [OF d(1)] by simp
    next
      case False
      have "q \<noteq> p \<and> q \<noteq> n" if "hm k' = Some q" for q using d(3) p(1) that False by (auto simp: placed_def)
      then show ?thesis using d(2) False i(2) counted_hm [OF d(2), of k'] counted_rc [OF d(2), of k']
        by (auto split: option.split)
    qed
  qed
  moreover have "placed (Suc n) hm (ow(i \<mapsto> n)) (rc(n \<mapsto> x, p \<mapsto> Suc m))"
    using d(3) unfolding placed_def by (auto split: if_splits intro: less_SucI)
  moreover have "linked (pk(i \<mapsto> k)) (ln(i \<mapsto> (k, p))) hm"
    using d(4) p(1) i(2) unfolding linked_def by auto
  ultimately show "ledger U T (pk(i \<mapsto> k)) cl (ow(i \<mapsto> n)) (ln(i \<mapsto> (k, p))) (Suc n) hm sm (rc(n \<mapsto> x, p \<mapsto> Suc m))"
    using d i(1) by (auto simp: ledger_def sized_def)
qed

lemma ledger_attach_new:
  assumes l: "ledger U T pk cl ow ln n hm sm rc" and i: "i \<in> T" "pk i = None" "ln i = None" "ow i = None"
    and k: "hm k = None"
  shows "ledger U T (pk(i \<mapsto> k)) cl ow (ln(i \<mapsto> (k, n))) (Suc n) (hm(k \<mapsto> n)) sm (rc(n \<mapsto> 1))"
proof -
  have d: "sized U T pk cl sm" "counted pk hm sm rc" "placed n hm ow rc" "linked pk ln hm" "claimed cl sm"
    using l by (simp_all add: ledger_def)
  have none: "holders pk sm k = {}" using counted_hm [OF d(2)] k by blast
  have "counted (pk(i \<mapsto> k)) (hm(k \<mapsto> n)) sm (rc(n \<mapsto> 1))"
    unfolding counted_def
  proof
    fix k'
    have "q \<noteq> n" if "hm k' = Some q" for q using d(3) that by (auto simp: placed_def)
    then show "case (hm(k \<mapsto> n)) k' of None \<Rightarrow> holders (pk(i \<mapsto> k)) sm k' = {}
      | Some q \<Rightarrow> holders (pk(i \<mapsto> k)) sm k' \<noteq> {} \<and> (rc(n \<mapsto> 1)) q = Some (card (holders (pk(i \<mapsto> k)) sm k'))"
      using i(2) none counted_hm [OF d(2), of k'] counted_rc [OF d(2), of k'] by (auto split: option.split)
  qed
  moreover have "placed (Suc n) (hm(k \<mapsto> n)) ow (rc(n \<mapsto> 1))"
    using d(3) k unfolding placed_def by (auto split: if_splits intro: less_SucI)
  moreover have "linked (pk(i \<mapsto> k)) (ln(i \<mapsto> (k, n))) (hm(k \<mapsto> n))"
    using d(4) k i(2) unfolding linked_def by auto
  ultimately show ?thesis using d i(1) by (auto simp: ledger_def sized_def)
qed

text \<open>Announcing: the reference passes from the thread to the handle; destroying: the other way round.\<close>

lemma card_swap: "finite A \<Longrightarrow> a \<in> A \<Longrightarrow> b \<notin> A \<Longrightarrow> card (insert b (A - {a})) = card A"
  by (simp only: card_insert_disjoint finite_Diff Diff_iff simp_thms card_Suc_Diff1)

lemma ledger_announce:
  assumes l: "ledger U T pk cl ow ln n hm sm rc" and i: "pk i = Some k" "cl i = Some v" "ln i = None"
  shows "ledger U T (pk(i := None)) (cl(i := None)) ow ln n hm (sm(v \<mapsto> k)) rc"
proof -
  have d: "sized U T pk cl sm" "counted pk hm sm rc" "placed n hm ow rc" "linked pk ln hm" "claimed cl sm"
    using l by (simp_all add: ledger_def)
  have v: "sm v = None" "cl j = Some v \<Longrightarrow> j = i" for j using d(5) i(2) by (auto simp: claimed_def)
  let ?h = "holders (pk(i := None)) (sm(v \<mapsto> k))"
  have h: "?h k' = (if k' = k then insert (Inl v) (holders pk sm k - {Inr i}) else holders pk sm k')" for k'
    using i(1) v(1) by simp
  have ne: "holders pk sm k \<noteq> {}" using i(1) by (auto simp: holders_def)
  have c: "card (?h k') = card (holders pk sm k')" "?h k' = {} \<longleftrightarrow> holders pk sm k' = {}" for k'
    using h card_swap [OF finite_holders [OF d(1)], of "Inr i" k "Inl v"] i(1) v(1) ne by auto
  have "counted (pk(i := None)) hm (sm(v \<mapsto> k)) rc"
    unfolding counted_def c using d(2) unfolding counted_def .
  moreover have "claimed (cl(i := None)) (sm(v \<mapsto> k))"
    using d(5) v unfolding claimed_def by (auto split: if_splits)
  moreover have "sized U T (pk(i := None)) (cl(i := None)) (sm(v \<mapsto> k))"
    using d(1) i(2) by (auto simp: sized_def ran_def split: if_splits)
  moreover have "linked (pk(i := None)) ln hm" using d(4) i(3) unfolding linked_def by auto
  ultimately show ?thesis using d by (simp add: ledger_def)
qed

lemma ledger_detach:
  assumes l: "ledger U T pk cl ow ln n hm sm rc" and i: "i \<in> T" "pk i = None" "sm v = Some k"
  shows "ledger U T (pk(i \<mapsto> k)) cl ow ln n hm (sm(v := None)) rc"
proof -
  have d: "sized U T pk cl sm" "counted pk hm sm rc" "placed n hm ow rc" "linked pk ln hm" "claimed cl sm"
    using l by (simp_all add: ledger_def)
  let ?h = "holders (pk(i \<mapsto> k)) (sm(v := None))"
  have h: "?h k' = (if k' = k then insert (Inr i) (holders pk sm k - {Inl v}) else holders pk sm k')" for k'
    using i by auto
  have ne: "holders pk sm k \<noteq> {}" using i(3) by (auto simp: holders_def)
  have c: "card (?h k') = card (holders pk sm k')" "?h k' = {} \<longleftrightarrow> holders pk sm k' = {}" for k'
    using h card_swap [OF finite_holders [OF d(1)], of "Inl v" k "Inr i"] i(2,3) ne by auto
  have "counted (pk(i \<mapsto> k)) hm (sm(v := None)) rc"
    unfolding counted_def c using d(2) unfolding counted_def .
  moreover have "claimed cl (sm(v := None))" using d(5) unfolding claimed_def by auto
  moreover have "sized U T (pk(i \<mapsto> k)) cl (sm(v := None))" using d(1) i(1) by (auto simp: sized_def)
  moreover have "linked (pk(i \<mapsto> k)) ln hm" using d(4) i(2) unfolding linked_def by auto
  ultimately show ?thesis using d by (simp add: ledger_def)
qed

text \<open>Counting down: the reference of the thread goes; with the last one, the host pair.\<close>

lemma ledger_unlink:
  assumes l: "ledger U T pk cl ow ln n hm sm rc" and i: "pk i = Some k" "ln i = None" "ow i = None"
  obtains p m where "hm k = Some p" "0 < p" "rc p = Some (Suc m)"
    "m \<noteq> 0 \<Longrightarrow> ledger U T (pk(i := None)) cl ow ln n hm sm (rc(p \<mapsto> m))"
    "m = 0 \<Longrightarrow> ledger U T (pk(i := None)) cl (ow(i \<mapsto> p)) ln n (hm(k := None)) sm (rc(p \<mapsto> m))"
proof -
  have d: "sized U T pk cl sm" "counted pk hm sm rc" "placed n hm ow rc" "linked pk ln hm" "claimed cl sm"
    using l by (simp_all add: ledger_def)
  have mem: "Inr i \<in> holders pk sm k" using i(1) by simp
  then obtain p where p: "hm k = Some p" using counted_hm [OF d(2), of k] by (cases "hm k") blast+
  let ?A = "holders pk sm k - {Inr i}"
  have rc: "rc p = Some (Suc (card ?A))"
    using counted_rc [OF d(2) p] card_Suc_Diff1 [OF finite_holders [OF d(1)] mem] by simp
  have other: "q \<noteq> p" if "hm k' = Some q" "k' \<noteq> k" for k' q using d(3) p that by (auto simp: placed_def)
  have same: "case hm k' of None \<Rightarrow> holders (pk(i := None)) sm k' = {}
      | Some q \<Rightarrow> holders (pk(i := None)) sm k' \<noteq> {} \<and> (rc(p \<mapsto> x)) q = Some (card (holders (pk(i := None)) sm k'))"
    if "k' \<noteq> k" for k' x
    using i(1) that other counted_hm [OF d(2), of k'] counted_rc [OF d(2), of k'] by (auto split: option.split)
  have lk: "linked (pk(i := None)) ln hm" using d(4) i(2) unfolding linked_def by auto
  have sz: "sized U T (pk(i := None)) cl sm" using d(1) by (auto simp: sized_def)
  show thesis
  proof (rule that [OF p _ rc])
    show "0 < p" using d(3) p by (auto simp: placed_def)
    assume ne: "card ?A \<noteq> 0"
    then have "?A \<noteq> {}" by (metis card.empty)
    have "counted (pk(i := None)) hm sm (rc(p \<mapsto> card ?A))"
      unfolding counted_def
    proof
      fix k'
      show "case hm k' of None \<Rightarrow> holders (pk(i := None)) sm k' = {} | Some q \<Rightarrow>
          holders (pk(i := None)) sm k' \<noteq> {} \<and> (rc(p \<mapsto> card ?A)) q = Some (card (holders (pk(i := None)) sm k'))"
      proof (cases "k' = k")
        case True
        then show ?thesis using p i(1) \<open>?A \<noteq> {}\<close> by simp
      qed (rule same)
    qed
    moreover have "placed n hm ow (rc(p \<mapsto> card ?A))" using d(3) by (auto simp: placed_def)
    ultimately show "ledger U T (pk(i := None)) cl ow ln n hm sm (rc(p \<mapsto> card ?A))"
      using lk sz d by (simp add: ledger_def)
  next
    assume "card ?A = 0"
    then have z: "?A = {}" using finite_holders [OF d(1), of k] by simp
    have "counted (pk(i := None)) (hm(k := None)) sm (rc(p \<mapsto> card ?A))"
      unfolding counted_def using same z i(1) by simp
    moreover have "placed n (hm(k := None)) (ow(i \<mapsto> p)) (rc(p \<mapsto> card ?A))"
      using d(3) p i(3) unfolding placed_def by (auto split: if_splits)
    moreover have "linked (pk(i := None)) ln (hm(k := None))"
      unfolding linked_def
    proof (intro allI impI)
      fix j k' q assume "ln j = Some (k', q)"
      then have j: "pk j = Some k'" "hm k' = Some q" "j \<noteq> i" using d(4) i(2) by (auto simp: linked_def)
      have "k' \<noteq> k"
      proof
        assume "k' = k"
        then have "Inr j \<in> ?A" using j by auto
        then show False using z by simp
      qed
      then show "(pk(i := None)) j = Some k' \<and> (hm(k := None)) k' = Some q" using j by simp
    qed
    ultimately show "ledger U T (pk(i := None)) cl (ow(i \<mapsto> p)) ln n (hm(k := None)) sm (rc(p \<mapsto> card ?A))"
      using sz d by (simp add: ledger_def)
  qed
qed

end
