(* ===== verification/Thread_Inv.thy ===== *)
theory Thread_Inv
  imports Threads Ledger
begin

text \<open>
  The invariant of the threads: in every reachable state of \<open>Threads\<close> the reference counts are
  exact, and no part of \<open>IBV_DESTROY_QP\<close> goes through a bad pointer. Each critical section is
  one change of \<open>Ledger\<close>.
\<close>

section \<open>What a thread refers to\<close>

fun pending :: "activity \<Rightarrow> HostKey option" where
  "pending (Modify (Attached req k a)) = Some k"
| "pending (Modify (Materialised req k n)) = Some k"
| "pending (Detached req k) = Some k"
| "pending _ = None"

fun claim :: "activity \<Rightarrow> u32 option" where
  "claim (Modify (Start req)) = Some (mq_src_v_qp_handle req)"
| "claim (Modify (Attached req k a)) = Some (mq_src_v_qp_handle req)"
| "claim (Modify (Materialised req k n)) = Some (mq_src_v_qp_handle req)"
| "claim _ = None"

fun owned :: "activity \<Rightarrow> ptr option" where
  "owned (Modify (Attached req k a)) = (if fst a then None else Some (fst (snd a)))"
| "owned (Unlinked req p) = Some p"
| "owned _ = None"

fun linkage :: "activity \<Rightarrow> (HostKey \<times> ptr) option" where
  "linkage (Modify (Attached req k a)) = Some (k, if fst a then fst (snd a) else snd (snd a))"
| "linkage _ = None"

text \<open>The requests that run in one step leave the pool alone.\<close>

fun aside_ok :: "request \<Rightarrow> bool" where
  "aside_ok (Ibv_Create_Qp _) = True" | "aside_ok (Ibv_Destroy_Cq _) = True"
| "aside_ok (Ibv_Reg_Mr _) = True" | "aside_ok (Ibv_Dereg_Mr _) = True"
| "aside_ok Ibv_Alloc_Pd = True" | "aside_ok Ibv_Query_Gid = True" | "aside_ok Ibv_Query_Port = True"
| "aside_ok Ibv_Get_Device_List = True" | "aside_ok Other = True"
| "aside_ok _ = False"

definition of_thread :: "(activity \<Rightarrow> 'b option) \<Rightarrow> (nat \<rightharpoonup> ScaleReqHeader \<times> activity) \<Rightarrow> nat \<rightharpoonup> 'b" where
  "of_thread f ts i = (case ts i of None \<Rightarrow> None | Some (h, a) \<Rightarrow> f a)"

lemma of_thread_simps [simp]:
  "of_thread f (ts(i \<mapsto> (h, a))) = (of_thread f ts)(i := f a)"
  "of_thread f (ts(i := None)) = (of_thread f ts)(i := None)"
  by (auto simp: of_thread_def fun_eq_iff)

lemma of_thread_at: "ts i = Some (h, a) \<Longrightarrow> of_thread f ts i = f a"
  by (simp add: of_thread_def)

lemma of_thread_idem: "ts i = Some (h, a) \<Longrightarrow> f a = x \<Longrightarrow> (of_thread f ts)(i := x) = of_thread f ts"
  by (auto simp: of_thread_def fun_eq_iff)

definition refs :: "'w router \<Rightarrow> ptr \<rightharpoonup> nat" where
  "refs s p = map_option (\<lambda>c. unat (cr_ref_cnt c)) (conn_heap s p)"

definition has_qp :: "'w router \<Rightarrow> ptr \<Rightarrow> bool" where
  "has_qp s p \<longleftrightarrow> (\<exists>c. conn_heap s p = Some c \<and> qp_heap s (cr_qp c) \<noteq> None)"

definition threads_inv :: "u32 set \<Rightarrow> nat set \<Rightarrow> (nat \<rightharpoonup> ScaleReqHeader \<times> activity) \<Rightarrow> 'w router \<Rightarrow> bool" where
  "threads_inv U T ts s \<longleftrightarrow> dom ts \<subseteq> T
     \<and> ledger U T (of_thread pending ts) (of_thread claim ts) (of_thread owned ts) (of_thread linkage ts)
         (next_ptr s) (host_map s) (src_qp_map s) (refs s)
     \<and> (\<forall>k p. host_map s k = Some p \<longrightarrow> has_qp s p
           \<or> (\<exists>i. of_thread linkage ts i = Some (k, p) \<and> of_thread owned ts i = None))
     \<and> (\<forall>i h req p. ts i = Some (h, Unlinked req p) \<longrightarrow> has_qp s p)
     \<and> (\<forall>i h t. ts i = Some (h, Aside t) \<longrightarrow> aside_ok (t_request t))"

text \<open>The steps that can go through a bad pointer.\<close>

fun may_fault :: "activity \<Rightarrow> bool" where
  "may_fault (Modify (Attached req k a)) = True"
| "may_fault (Modify (Readying req n m p)) = True"
| "may_fault (Sending req) = True"
| "may_fault (Using u p) = True"
| "may_fault (Aside t) = True"
| "may_fault _ = False"

fun kept ::
  "u32 set \<Rightarrow> nat set \<Rightarrow> (nat \<rightharpoonup> ScaleReqHeader \<times> activity) \<Rightarrow> nat \<Rightarrow> ScaleReqHeader \<Rightarrow> activity
     \<Rightarrow> activity outcome \<times> 'w router \<Rightarrow> bool" where
  "kept U T ts i h a (Done a', s') = threads_inv U T (ts(i \<mapsto> (h, a'))) s'"
| "kept U T ts i h a (Killed, s') = threads_inv U T (ts(i := None)) s'"
| "kept U T ts i h a (Blocked l, s') = True"
| "kept U T ts i h a (Fault, s') = may_fault a"

section \<open>Steps the ledger does not see\<close>

definition quiet :: "'w router \<Rightarrow> 'w router \<Rightarrow> bool" where
  "quiet s s' \<longleftrightarrow> next_ptr s \<le> next_ptr s' \<and> host_map s' = host_map s \<and> src_qp_map s' = src_qp_map s
     \<and> refs s' = refs s \<and> (\<forall>p. has_qp s p \<longrightarrow> has_qp s' p)"

lemma quiet_refl [simp]: "quiet s s" by (simp add: quiet_def)

lemma quiet_trans: "quiet s t \<Longrightarrow> quiet t u \<Longrightarrow> quiet s u" by (auto simp: quiet_def)

lemma refs_frame [simp]:
  "refs (s\<lparr>held := x\<rparr>) = refs s" "refs (s\<lparr>world := w\<rparr>) = refs s" "refs (s\<lparr>next_ptr := n\<rparr>) = refs s"
  "refs (s\<lparr>host_map := hm\<rparr>) = refs s" "refs (s\<lparr>src_qp_map := sm\<rparr>) = refs s" "refs (s\<lparr>dst_qp_map := d\<rparr>) = refs s"
  "refs (s\<lparr>qp_heap := q\<rparr>) = refs s" "refs (s\<lparr>freed_reads := fr\<rparr>) = refs s" "refs (release l s) = refs s"
  "refs (s\<lparr>conn_heap := (conn_heap s)(p \<mapsto> c)\<rparr>) = (refs s)(p \<mapsto> unat (cr_ref_cnt c))"
  "refs (s\<lparr>conn_heap := (conn_heap s)(p := None)\<rparr>) = (refs s)(p := None)"
  by (auto simp: refs_def fun_eq_iff release_def)

lemma has_qp_frame [simp]:
  "has_qp (s\<lparr>held := x\<rparr>) p = has_qp s p" "has_qp (s\<lparr>world := w\<rparr>) p = has_qp s p" "has_qp (s\<lparr>next_ptr := n\<rparr>) p = has_qp s p"
  "has_qp (s\<lparr>host_map := hm\<rparr>) p = has_qp s p" "has_qp (s\<lparr>src_qp_map := sm\<rparr>) p = has_qp s p"
  "has_qp (s\<lparr>dst_qp_map := d\<rparr>) p = has_qp s p"
  "has_qp (s\<lparr>freed_reads := fr\<rparr>) p = has_qp s p" "has_qp (release l s) p = has_qp s p"
  by (auto simp: has_qp_def release_def)

lemma quiet_frame [simp]:
  "quiet s (t\<lparr>held := x\<rparr>) = quiet s t" "quiet s (t\<lparr>world := w\<rparr>) = quiet s t" "quiet s (t\<lparr>dst_qp_map := d\<rparr>) = quiet s t"
  "quiet s (t\<lparr>freed_reads := fr\<rparr>) = quiet s t" "quiet s (release l t) = quiet s t"
  by (simp_all add: quiet_def release_def)

lemma quiet_pool_same: "pool_same s s' \<Longrightarrow> quiet s s'"
  by (auto simp: pool_same_def quiet_def refs_def has_qp_def)

lemma threads_inv_quiet: "threads_inv U T ts s \<Longrightarrow> quiet s s' \<Longrightarrow> threads_inv U T ts s'"
  unfolding threads_inv_def quiet_def by (auto intro: ledger_next) (metis option.distinct(1))

text \<open>A thread goes on without taking or giving up a reference or a connection.\<close>

lemma threads_inv_idle:
  assumes inv: "threads_inv U T ts s" and i: "ts i = Some (h, a)"
    and a: "owned a = None" "linkage a = None" "owned a' = None" "linkage a' = None" "pending a' = pending a"
      "claim a' = claim a \<or> claim a' = None" "\<And>t. a' \<noteq> Aside t"
  shows "threads_inv U T (ts(i \<mapsto> (h, a'))) s"
proof -
  note at = of_thread_at [where ts = ts and i = i, OF i]
  have same: "(of_thread pending ts)(i := pending a') = of_thread pending ts"
    "(of_thread owned ts)(i := None) = of_thread owned ts" "(of_thread linkage ts)(i := None) = of_thread linkage ts"
    by (rule of_thread_idem [where ts = ts and i = i, OF i]; use a in simp)+
  have "ledger U T (of_thread pending ts) ((of_thread claim ts)(i := claim a')) (of_thread owned ts) (of_thread linkage ts)
      (next_ptr s) (host_map s) (src_qp_map s) (refs s)"
    using inv a(6) at [of claim] ledger_drop(1) [where i = i] by (auto simp: threads_inv_def fun_upd_idem)
  moreover have "a' \<noteq> Unlinked req p" for req p using a(3) by auto
  moreover have "i \<in> T" using inv i by (auto simp: threads_inv_def)
  ultimately show ?thesis
    using inv a at same unfolding threads_inv_def by (auto split: if_splits)
qed

lemma threads_inv_killed:
  assumes inv: "threads_inv U T ts s" and i: "ts i = Some (h, a)"
    and a: "owned a = None" "linkage a = None" "pending a = None"
  shows "threads_inv U T (ts(i := None)) s"
proof -
  note at = of_thread_at [where ts = ts and i = i, OF i]
  have same: "(of_thread pending ts)(i := None) = of_thread pending ts"
    "(of_thread owned ts)(i := None) = of_thread owned ts" "(of_thread linkage ts)(i := None) = of_thread linkage ts"
    by (rule of_thread_idem [where ts = ts and i = i, OF i]; use a in simp)+
  have "ledger U T (of_thread pending ts) ((of_thread claim ts)(i := None)) (of_thread owned ts) (of_thread linkage ts)
      (next_ptr s) (host_map s) (src_qp_map s) (refs s)"
    using inv ledger_drop(1) [where i = i] by (auto simp: threads_inv_def)
  then show ?thesis
    using inv a at same unfolding threads_inv_def by (auto split: if_splits)
qed

text \<open>\<open>post\<close> for a thread that may have to wait: then it does not move.\<close>

fun wpost :: "('a \<Rightarrow> 's \<Rightarrow> bool) \<Rightarrow> ('s \<Rightarrow> bool) \<Rightarrow> ('s \<Rightarrow> bool) \<Rightarrow> 'a outcome \<times> 's \<Rightarrow> bool" where
  "wpost Q K F (Done a, s) = Q a s"
| "wpost Q K F (Killed, s) = K s"
| "wpost Q K F (Blocked l, s) = True"
| "wpost Q K F (Fault, s) = F s"

lemma wpost_andthen [simp]: "wpost Q K F (andthen r k) \<longleftrightarrow> wpost (\<lambda>a s. wpost Q K F (k a s)) K F r"
  by (cases r rule: outcome_cases) auto

lemma wpost_acquire [simp]: "wpost Q K F (acquire l s) \<longleftrightarrow> l \<in> held s \<or> Q () (s\<lparr>held := insert l (held s)\<rparr>)"
  by (simp add: acquire_def)

lemma wpost_read_conn [simp]:
  "wpost Q K F (read_conn p s) = (case conn_heap s p of None \<Rightarrow> F s | Some c \<Rightarrow> Q c s)"
  by (simp add: read_conn_def split: option.split)

lemma wpost_read_qp_num:
  "wpost Q K F (read_qp_num p s) = (case qp_heap s p of None \<Rightarrow> F s
     | Some q \<Rightarrow> Q (qp_num q) (if qp_live q then s else s\<lparr>freed_reads := Suc (freed_reads s)\<rparr>))"
  by (simp add: read_qp_num_def split: option.split)

lemma wpost_mono:
  "wpost Q K F r \<Longrightarrow> (\<And>a s. Q a s \<Longrightarrow> Q' a s) \<Longrightarrow> (\<And>s. K s \<Longrightarrow> K' s) \<Longrightarrow> (\<And>s. F s \<Longrightarrow> F' s) \<Longrightarrow> wpost Q' K' F' r"
  by (cases r rule: outcome_cases) auto

lemma wpost_of_post: "post Q K F r \<Longrightarrow> wpost Q K F r"
  by (cases r rule: outcome_cases) auto

lemma kept_wpost:
  "kept U T ts i h a r \<longleftrightarrow> wpost (\<lambda>a' s'. threads_inv U T (ts(i \<mapsto> (h, a'))) s') (threads_inv U T (ts(i := None)))
     (\<lambda>_. may_fault a) r"
  by (cases r rule: outcome_cases) simp_all

text \<open>Both together, for a part that leaves the ledger as it is.\<close>

definition calm :: "activity \<Rightarrow> 'w router \<Rightarrow> activity outcome \<times> 'w router \<Rightarrow> bool" where
  "calm a s r \<longleftrightarrow> wpost (\<lambda>a' s'. quiet s s' \<and> owned a' = None \<and> linkage a' = None \<and> pending a' = None
     \<and> claim a' = None \<and> (\<forall>t. a' \<noteq> Aside t)) (quiet s) (\<lambda>_. may_fault a) r"

lemma kept_calm:
  assumes inv: "threads_inv U T ts s" and i: "ts i = Some (h, a)"
    and a: "owned a = None" "linkage a = None" "pending a = None" and r: "calm a s r"
  shows "kept U T ts i h a r"
  unfolding kept_wpost
proof (rule wpost_mono [OF r [unfolded calm_def]])
  fix a' s'
  assume *: "quiet s s' \<and> owned a' = None \<and> linkage a' = None \<and> pending a' = None \<and> claim a' = None
      \<and> (\<forall>t. a' \<noteq> Aside t)"
  show "threads_inv U T (ts(i \<mapsto> (h, a'))) s'"
    by (rule threads_inv_idle [OF threads_inv_quiet [OF inv] i]) (use a * in auto)
next
  fix s' assume "quiet s s'"
  then show "threads_inv U T (ts(i := None)) s'" using threads_inv_killed [OF threads_inv_quiet [OF inv] i] a by simp
qed

lemma quiet_write_conn:
  "conn_heap s p = Some c \<Longrightarrow> cr_ref_cnt c' = cr_ref_cnt c \<Longrightarrow> cr_qp c' = cr_qp c \<Longrightarrow> quiet s (s\<lparr>conn_heap := (conn_heap s)(p \<mapsto> c')\<rparr>)"
  by (auto simp: quiet_def refs_def has_qp_def fun_eq_iff)

lemma calm_modify:
  "calm (Modify (Waiting req k n)) s (proceed E h (Modify (Waiting req k n)) s)"
  "calm (Modify (Finishing req k n m)) s (proceed E h (Modify (Finishing req k n m)) s)"
  "calm (Modify (Answered flag)) s (proceed E h (Modify (Answered flag)) s)"
  by (auto simp: calm_def dst_lookup_def finish_find_def split: option.split)

lemma calm_ready: "calm (Modify (Readying req n m p)) s (proceed E h (Modify (Readying req n m p)) s)"
proof (cases "conn_heap s p")
  case (Some c)
  obtain rc w where r: "modify_qp_to_ready E (config s) (qp_conninfo s h req n m) c (world s) = (rc, w)" by fastforce
  have "quiet s (s\<lparr>held := x, world := w, conn_heap := (conn_heap s)(p \<mapsto> c\<lparr>cr_status := 4\<rparr>)\<rparr>)" for x
    using Some by (auto simp: quiet_def refs_def has_qp_def fun_eq_iff)
  then show ?thesis
    using Some r by (simp add: calm_def finish_ready_def write_conn_def Let_def)
qed (simp add: calm_def finish_ready_def)

lemma calm_use_conn: "wpost (\<lambda>_ s'. quiet s s') (\<lambda>s'. quiet s s') (\<lambda>_. True) (use_conn E h u p s)"
proof (cases "conn_heap s p")
  case None
  then show ?thesis by (cases u) simp_all
next
  case (Some c)
  have poll: "wpost (\<lambda>_. quiet s) (quiet s) (\<lambda>_. True) (check_wcs pid n wc, t)" if "quiet s t" for pid n wc t
    using that by (cases "check_wcs pid n wc") simp_all
  show ?thesis
  proof (cases u)
    case (Use_Poll req)
    obtain pr wcs w where e: "e_poll_cq E (cr_cq c) (pc_num_entries req) (world s) = ((pr, wcs), w)" by (metis prod_cases3 surj_pair)
    show ?thesis
      using Use_Poll Some e poll by (auto simp: Let_def split: list.split intro!: wpost_mono [OF poll])
  qed (use Some in \<open>auto simp: Let_def split: prod.split\<close>)
qed

lemma calm_use:
  "calm (Sending sreq) s (proceed E h (Sending sreq) s)" "calm (Receiving rreq) s (proceed E h (Receiving rreq) s)"
  "calm (Finding u) s (proceed E h (Finding u) s)" "calm (Found u k) s (proceed E h (Found u k) s)"
  "calm (Replied r) s (proceed E h (Replied r) s)"
  by (auto simp: calm_def translate_addr_def find_key_def find_host_conn_def Let_def split: option.split)

lemma calm_using: "calm (Using u p) s (proceed E h (Using u p) s)"
  using calm_use_conn [of s E h u p] by (simp add: calm_def)

lemma pool_same_aside:
  assumes "aside_ok (t_request t)" shows "pool_same s (snd (handle_case E t s))"
proof -
  have rep: "pool_same s (snd (replies f r))" if "pool_same s (snd r)" for f :: "'b \<Rightarrow> reply" and r
    unfolding replies_def by (rule pool_same_andthen [OF that]) simp
  show ?thesis
    using assms
    by (cases "t_request t")
      (auto simp: handle_case_def ibv_alloc_pd_h_def ibv_query_gid_h_def ibv_query_port_h_def ibv_get_device_list_h_def Let_def
        intro!: rep pool_same_reg_mr pool_same_dereg_mr pool_same_create_qp pool_same_destroy_cq split: option.split)
qed

lemma calm_aside:
  assumes "aside_ok (t_request t)"
  shows "calm (Aside t) s (proceed E h (Aside t) s)"
  using quiet_pool_same [OF pool_same_aside [OF assms, of s E]]
  by (cases "handle_case E t s" rule: outcome_cases) (simp_all add: calm_def)

section \<open>Steps that change the ledger\<close>

lemma has_qp_conn [simp]:
  "has_qp (s\<lparr>conn_heap := (conn_heap s)(q \<mapsto> c)\<rparr>) p = (if p = q then qp_heap s (cr_qp c) \<noteq> None else has_qp s p)"
  "has_qp (s\<lparr>conn_heap := (conn_heap s)(q := None)\<rparr>) p = (p \<noteq> q \<and> has_qp s p)"
  by (auto simp: has_qp_def)

lemma threads_invI:
  assumes inv: "threads_inv U T ts s" and i: "ts i = Some (h, a)"
    and led: "ledger U T ((of_thread pending ts)(i := pending a')) ((of_thread claim ts)(i := claim a'))
      ((of_thread owned ts)(i := owned a')) ((of_thread linkage ts)(i := linkage a'))
      (next_ptr s') (host_map s') (src_qp_map s') (refs s')"
    and hm: "\<And>k p. host_map s' k = Some p \<Longrightarrow> p \<noteq> q \<Longrightarrow> host_map s k = Some p"
    and qp: "\<And>p. p \<noteq> q \<Longrightarrow> has_qp s p \<Longrightarrow> has_qp s' p"
    and made: "\<And>k. host_map s' k = Some q \<Longrightarrow> has_qp s' q \<or> linkage a' = Some (k, q) \<and> owned a' = None"
    and creator: "\<And>k p. linkage a = Some (k, p) \<Longrightarrow> owned a = None \<Longrightarrow> p = q"
    and unl: "\<And>j h' req. ts j = Some (h', Unlinked req q) \<Longrightarrow> j \<noteq> i \<Longrightarrow> has_qp s' q"
    and own: "\<And>req p. a' = Unlinked req p \<Longrightarrow> has_qp s' p" and aside: "\<And>t. a' \<noteq> Aside t"
  shows "threads_inv U T (ts(i \<mapsto> (h, a'))) s'"
proof -
  have "i \<in> T" "dom ts \<subseteq> T" using inv i by (auto simp: threads_inv_def)
  moreover have "has_qp s' p \<or> (\<exists>j. ((of_thread linkage ts)(i := linkage a')) j = Some (k, p)
      \<and> ((of_thread owned ts)(i := owned a')) j = None)" if "host_map s' k = Some p" for k p
  proof (cases "p = q")
    case True
    then show ?thesis using made that by (metis fun_upd_same)
  next
    case False
    then have "has_qp s p \<or> (\<exists>j. of_thread linkage ts j = Some (k, p) \<and> of_thread owned ts j = None)"
      using inv hm [OF that] by (simp add: threads_inv_def)
    moreover have "j \<noteq> i" if "of_thread linkage ts j = Some (k, p)" "of_thread owned ts j = None" for j
      using that False creator i by (auto simp: of_thread_def)
    ultimately show ?thesis using qp [OF False] by (metis fun_upd_other)
  qed
  moreover have "has_qp s' p" if "(ts(i \<mapsto> (h, a'))) j = Some (h', Unlinked req p)" for j h' req p
    using that own unl qp inv by (cases "j = i"; cases "p = q") (auto simp: threads_inv_def)
  ultimately show ?thesis using inv led aside unfolding threads_inv_def by (auto split: if_splits)
qed

text \<open>The case where no connection loses its queue pair.\<close>

lemma threads_invI_keep:
  assumes inv: "threads_inv U T ts s" and i: "ts i = Some (h, a)" and led: "ledger U T ((of_thread pending ts)(i := pending a'))
      ((of_thread claim ts)(i := claim a')) ((of_thread owned ts)(i := owned a')) ((of_thread linkage ts)(i := linkage a'))
      (next_ptr s') (host_map s') (src_qp_map s') (refs s')"
    and hm: "\<And>k p. host_map s' k = Some p \<Longrightarrow> host_map s k = Some p"
    and qp: "\<And>p. has_qp s p \<Longrightarrow> has_qp s' p" and ln: "linkage a = None"
    and own: "\<And>req p. a' = Unlinked req p \<Longrightarrow> has_qp s' p" and aside: "\<And>t. a' \<noteq> Aside t"
  shows "threads_inv U T (ts(i \<mapsto> (h, a'))) s'"
proof (rule threads_invI [where q = 0, OF inv i led])
  have pl: "placed (next_ptr s) (host_map s) (of_thread owned ts) (refs s)" using inv by (simp add: threads_inv_def ledger_def)
  show "has_qp s' 0 \<or> R" if "host_map s' k = Some 0" for k R
    using hm [OF that] pl unfolding placed_def by blast
  show "has_qp s' 0" if "ts j = Some (h', Unlinked req 0)" for j h' req
  proof -
    have "of_thread owned ts j = Some 0" using that by (simp add: of_thread_def)
    then have "(0 :: ptr) < 0" using pl unfolding placed_def by blast
    then show ?thesis by simp
  qed
  show "host_map s k = Some p" if "host_map s' k = Some p" for k p by (rule hm [OF that])
  show "has_qp s' p" if "has_qp s p" for p by (rule qp [OF that])
qed (use ln own aside in simp_all)

text \<open>What the ledger says of a host pair and its connection.\<close>

lemma threads_conn:
  assumes "threads_inv U T ts s" and "host_map s k = Some p"
  obtains c where "conn_heap s p = Some c" "0 < p" "p < next_ptr s"
    "unat (cr_ref_cnt c) = card (holders (of_thread pending ts) (src_qp_map s) k)"
proof -
  have l: "counted (of_thread pending ts) (host_map s) (src_qp_map s) (refs s)"
    "placed (next_ptr s) (host_map s) (of_thread owned ts) (refs s)"
    using assms(1) by (auto simp: threads_inv_def ledger_def)
  have "refs s p = Some (card (holders (of_thread pending ts) (src_qp_map s) k))" by (rule counted_rc [OF l(1) assms(2)])
  then show thesis using l(2) assms(2) that by (auto simp: refs_def placed_def)
qed

lemma kept_attach:
  assumes inv: "threads_inv U T ts s" and i: "ts i = Some (h, Modify (Start req))"
  shows "kept U T ts i h (Modify (Start req)) (proceed E h (Modify (Start req)) s)"
proof -
  let ?k = "\<lparr>src_gid = g_src_gid s, dst_gid = take 16 (mq_dst_gid req)\<rparr>" and ?n = "next_ptr s"
  let ?a = "\<lambda>x. Modify (Attached req ?k x)"
  let ?pk = "of_thread pending ts" and ?ow = "of_thread owned ts" and ?ln = "of_thread linkage ts"
  have l: "ledger U T ?pk (of_thread claim ts) ?ow ?ln ?n (host_map s) (src_qp_map s) (refs s)" and iT: "i \<in> T"
    using inv i by (auto simp: threads_inv_def)
  have at: "?pk i = None" "?ow i = None" "?ln i = None" using i by (simp_all add: of_thread_def)
  have same: "(of_thread claim ts)(i := claim (?a x)) = of_thread claim ts" "?ow(i := None) = ?ow" for x
    by (rule of_thread_idem [where ts = ts and i = i, OF i]; simp)+
  have pl: "placed ?n (host_map s) ?ow (refs s)" using l by (simp add: ledger_def)
  have low: "host_map s k = Some p \<Longrightarrow> p \<noteq> ?n" "?ow j = Some p \<Longrightarrow> p \<noteq> ?n" for k p j
    using pl by (auto simp: placed_def)
  have unl: "ts j \<noteq> Some (h', Unlinked r ?n)" for j h' r
    using low(2) [of j ?n] by (auto simp: of_thread_def)
  show ?thesis
  proof (cases "ConnL ?n \<in> held s \<or> HostmapL \<in> held s")
    case True
    then show ?thesis by (auto simp: host_attach_def acquire_def write_conn_def Let_def)
  next
    case False
    show ?thesis
    proof (cases "host_map s ?k")
      case None
      let ?s = "s\<lparr>next_ptr := Suc ?n, conn_heap := (conn_heap s)(?n \<mapsto> zero_conn\<lparr>cr_ref_cnt := 1\<rparr>),
        held := insert (ConnL ?n) (held s), host_map := (host_map s)(?k \<mapsto> ?n)\<rparr>"
      have p: "proceed E h (Modify (Start req)) s = (Done (?a (True, ?n, 0)), ?s)"
        using False None by (simp add: host_attach_def acquire_def release_def write_conn_def Let_def insert_Diff_if)
      have rs: "refs ?s = (refs s)(?n \<mapsto> 1)" by (auto simp: refs_def fun_eq_iff zero_conn_def)
      have qp: "has_qp s x \<Longrightarrow> x \<noteq> ?n \<Longrightarrow> has_qp ?s x" for x by (auto simp: has_qp_def)
      have "threads_inv U T (ts(i \<mapsto> (h, ?a (True, ?n, 0)))) ?s"
        by (rule threads_invI [where q = ?n, OF inv i])
          (use ledger_attach_new [OF l iT at(1,3,2) None] same low unl qp in
            \<open>auto simp: rs simp del: refs_frame has_qp_frame has_qp_conn split: if_splits\<close>)
      then show ?thesis using p by simp
    next
      case (Some p)
      obtain c where c: "conn_heap s p = Some c" "0 < p" using threads_conn [OF inv Some] by blast
      let ?c = "c\<lparr>cr_ref_cnt := cr_ref_cnt c + 1\<rparr>"
      let ?s = "s\<lparr>next_ptr := Suc ?n, conn_heap := (conn_heap s)(?n \<mapsto> zero_conn\<lparr>cr_ref_cnt := 1\<rparr>, p \<mapsto> ?c),
        held := insert (ConnL ?n) (held s)\<rparr>"
      have pr: "proceed E h (Modify (Start req)) s = (Done (?a (False, ?n, p)), ?s)"
        using False Some c low(1) [OF Some]
        by (simp add: host_attach_def acquire_def release_def read_conn_def write_conn_def Let_def insert_Diff_if)
      have m: "refs s p = Some (unat (cr_ref_cnt c))" using c by (simp add: refs_def)
      have led: "ledger U T (?pk(i \<mapsto> ?k)) (of_thread claim ts) (?ow(i \<mapsto> ?n)) (?ln(i \<mapsto> (?k, p))) (Suc ?n) (host_map s)
          (src_qp_map s) ((refs s)(?n \<mapsto> 1, p \<mapsto> Suc (unat (cr_ref_cnt c))))" and "Suc (unat (cr_ref_cnt c)) < 2 ^ 32"
        using ledger_attach_old [OF l iT at(1,3,2) Some m] by blast+
      then have "unat (cr_ref_cnt c + 1) = Suc (unat (cr_ref_cnt c))" by (simp add: unat_word_ariths)
      then have rs: "refs ?s = (refs s)(?n \<mapsto> 1, p \<mapsto> Suc (unat (cr_ref_cnt c)))"
        using c by (auto simp: refs_def fun_eq_iff)
      have qp: "has_qp s x \<Longrightarrow> x \<noteq> ?n \<Longrightarrow> has_qp ?s x" for x using c by (auto simp: has_qp_def)
      have "threads_inv U T (ts(i \<mapsto> (h, ?a (False, ?n, p)))) ?s"
        by (rule threads_invI [where q = ?n, OF inv i])
          (use led same low unl qp in \<open>auto simp: rs simp del: refs_frame has_qp_frame has_qp_conn\<close>)
      then show ?thesis using pr by simp
    qed
  qed
qed

text \<open>Making the queue pair: the connection keeps its count, and gets a queue pair or the router crashes.\<close>

lemma resources_destroy_quiet:
  assumes "resources_destroy E res s = (rc, res', s')"
  shows "quiet s s' \<and> conn_heap s' = conn_heap s \<and> cr_ref_cnt res' = cr_ref_cnt res \<and> cr_qp res' = cr_qp res
    \<and> next_ptr s' = next_ptr s \<and> (\<forall>p. qp_heap s p \<noteq> None \<longrightarrow> qp_heap s' p \<noteq> None)"
proof -
  obtain w q where s': "s' = s\<lparr>qp_heap := q, world := w\<rparr>" "\<forall>p. p \<noteq> cr_qp res \<longrightarrow> q p = qp_heap s p"
    "map_option qp_num (q (cr_qp res)) = map_option qp_num (qp_heap s (cr_qp res))"
    "cr_qp res' = cr_qp res" "cr_ref_cnt res' = cr_ref_cnt res"
    using resources_destroy_frame [OF assms] by blast
  have "q p \<noteq> None \<longleftrightarrow> qp_heap s p \<noteq> None" for p using s'(2,3) by (metis map_option_is_None)
  then show ?thesis using s' by (auto simp: quiet_def refs_def has_qp_def fun_eq_iff)
qed

lemma resources_create_quiet:
  assumes "resources_create E res s = (rc, res', s')"
  shows "quiet s s' \<and> conn_heap s' = conn_heap s \<and> cr_ref_cnt res' = cr_ref_cnt res"
proof -
  obtain ok w1 where c: "e_create_cq E (next_ptr s) MAX_CQ_SIZE (world s) = (ok, w1)" by fastforce
  show ?thesis
  proof (cases ok)
    case False
    obtain rc1 r1 s1 where d: "resources_destroy E (res\<lparr>cr_cq := 0\<rparr>) (s\<lparr>world := w1\<rparr>) = (rc1, r1, s1)" by (metis prod_cases3)
    show ?thesis using assms c False d resources_destroy_quiet [OF d]
      by (auto simp: resources_create_def quiet_def)
  next
    case True
    obtain qpn w2 where q: "e_create_qp E (Suc (next_ptr s)) (qp_init_attr_of (next_ptr s)) w1 = (qpn, w2)" by fastforce
    obtain rc1 r1 s1 where d: "resources_destroy E (res\<lparr>cr_cq := next_ptr s, cr_qp := 0\<rparr>) (s\<lparr>next_ptr := Suc (next_ptr s), world := w2\<rparr>) = (rc1, r1, s1)"
      by (metis prod_cases3)
    show ?thesis
    proof (cases qpn)
      case None
      then show ?thesis using assms c q True d resources_destroy_quiet [OF d]
        by (auto simp: resources_create_def quiet_def Let_def)
    next
      case (Some m)
      then show ?thesis using assms c q True
        by (auto simp: resources_create_def quiet_def Let_def refs_def has_qp_def fun_eq_iff)
    qed
  qed
qed

lemma quiet_freed [simp]: "quiet s (if b then t else t\<lparr>freed_reads := fr\<rparr>) = quiet s t" by simp

lemma kept_materialise_new:
  assumes inv: "threads_inv U T ts s" and i: "ts i = Some (h, Modify (Attached req k (True, new, old)))"
  shows "kept U T ts i h (Modify (Attached req k (True, new, old))) (proceed E h (Modify (Attached req k (True, new, old))) s)"
proof -
  let ?pk = "of_thread pending ts" and ?cl = "of_thread claim ts" and ?ow = "of_thread owned ts" and ?ln = "of_thread linkage ts"
  have l: "ledger U T ?pk ?cl ?ow ?ln (next_ptr s) (host_map s) (src_qp_map s) (refs s)"
    using inv by (simp add: threads_inv_def)
  have ln: "?ln i = Some (k, new)" using i by (simp add: of_thread_def)
  have hm: "host_map s k = Some new" and pl: "placed (next_ptr s) (host_map s) ?ow (refs s)"
    using l ln by (auto simp: ledger_def linked_def)
  have same: "?pk(i \<mapsto> k) = ?pk" "?cl(i \<mapsto> mq_src_v_qp_handle req) = ?cl" "?ow(i := None) = ?ow"
    by (rule of_thread_idem [where ts = ts and i = i, OF i]; simp)+
  have unl: "ts j \<noteq> Some (h', Unlinked r new)" for j h' r
    using pl hm of_thread_at [where ts = ts and i = j and f = owned] by (force simp: placed_def)
  obtain c where c: "conn_heap s new = Some c" using threads_conn [OF inv hm] by blast
  obtain rc res s1 where cr: "resources_create E c s = (rc, res, s1)" by (metis prod_cases3)
  have q: "quiet s s1" "conn_heap s1 = conn_heap s" "cr_ref_cnt res = cr_ref_cnt c"
    using resources_create_quiet [OF cr] by simp_all
  show ?thesis
  proof (cases "qp_heap s1 (cr_qp res)")
    case None
    then show ?thesis using c cr by (simp add: host_materialise_def read_conn_def write_conn_def read_qp_num_def)
  next
    case (Some qp)
    let ?s2 = "s1\<lparr>conn_heap := (conn_heap s1)(new \<mapsto> res)\<rparr>"
    let ?s3 = "release (ConnL new) (if qp_live qp then ?s2 else ?s2\<lparr>freed_reads := Suc (freed_reads s1)\<rparr>)"
    have pr: "proceed E h (Modify (Attached req k (True, new, old))) s = (Done (Modify (Materialised req k (qp_num qp))), ?s3)"
      using Some c cr by (simp add: host_materialise_def read_conn_def write_conn_def read_qp_num_def Let_def)
    have s3: "next_ptr ?s3 = next_ptr s1" "host_map ?s3 = host_map s1" "src_qp_map ?s3 = src_qp_map s1"
      "refs ?s3 = refs ?s2" "has_qp ?s3 x = has_qp ?s2 x" for x by simp_all
    have "refs ?s2 = refs s" using q c by (auto simp: refs_def fun_eq_iff quiet_def)
    then have led: "ledger U T ?pk ?cl ?ow (?ln(i := None)) (next_ptr ?s3) (host_map ?s3) (src_qp_map ?s3) (refs ?s3)"
      using ledger_next [OF ledger_drop(3) [OF l, of i], of "next_ptr s1"] q(1) s3 by (simp add: quiet_def)
    have "threads_inv U T (ts(i \<mapsto> (h, Modify (Materialised req k (qp_num qp))))) ?s3"
    proof (rule threads_invI [where q = new, OF inv i])
      show "has_qp s p \<Longrightarrow> has_qp ?s3 p" if "p \<noteq> new" for p using q(1) that unfolding s3 by (simp add: quiet_def)
      show "has_qp ?s3 new \<or> R" for R unfolding s3 using Some by simp
      show "host_map ?s3 k' = Some p \<Longrightarrow> host_map s k' = Some p" for k' p unfolding s3 using q(1) by (simp add: quiet_def)
    qed (use led same unl in \<open>simp_all del: refs_frame has_qp_frame has_qp_conn\<close>)
    then show ?thesis using pr by simp
  qed
qed

lemma kept_materialise_old:
  assumes inv: "threads_inv U T ts s" and i: "ts i = Some (h, Modify (Attached req k (False, new, old)))"
  shows "kept U T ts i h (Modify (Attached req k (False, new, old))) (proceed E h (Modify (Attached req k (False, new, old))) s)"
proof -
  let ?pk = "of_thread pending ts" and ?cl = "of_thread claim ts" and ?ow = "of_thread owned ts" and ?ln = "of_thread linkage ts"
  have l: "ledger U T ?pk ?cl ?ow ?ln (next_ptr s) (host_map s) (src_qp_map s) (refs s)"
    using inv by (simp add: threads_inv_def)
  have ln: "?ln i = Some (k, old)" "?ow i = Some new" using i by (simp_all add: of_thread_def)
  have hm: "host_map s k = Some old" and pl: "placed (next_ptr s) (host_map s) ?ow (refs s)"
    using l ln by (auto simp: ledger_def linked_def)
  have no: "host_map s k' \<noteq> Some new" "old \<noteq> new" "new \<in> dom (refs s)" for k' using pl ln hm unfolding placed_def by blast+
  have same: "?pk(i \<mapsto> k) = ?pk" "?cl(i \<mapsto> mq_src_v_qp_handle req) = ?cl"
    by (rule of_thread_idem [where ts = ts and i = i, OF i]; simp)+
  have unl: "ts j \<noteq> Some (h', Unlinked r new)" if "j \<noteq> i" for j h' r
    using pl ln(2) that of_thread_at [where ts = ts and i = j and f = owned] by (force simp: placed_def)
  obtain c where c: "conn_heap s new = Some c" using no(3) by (auto simp: refs_def)
  obtain c2 where c2: "conn_heap s old = Some c2" using threads_conn [OF inv hm] by blast
  obtain rc res s1 where cr: "resources_destroy E c s = (rc, res, s1)" by (metis prod_cases3)
  have q: "quiet s s1" "conn_heap s1 = conn_heap s" using resources_destroy_quiet [OF cr] by simp_all
  let ?s2 = "s1\<lparr>held := held s1 - {ConnL new}, conn_heap := (conn_heap s1)(new := None)\<rparr>"
  show ?thesis
  proof (cases "qp_heap s1 (cr_qp c2)")
    case None
    then show ?thesis using c cr q(2) c2 no(2)
      by (simp add: host_materialise_def read_conn_def read_qp_num_def release_def)
  next
    case (Some qp)
    let ?s3 = "if qp_live qp then ?s2 else ?s2\<lparr>freed_reads := Suc (freed_reads s1)\<rparr>"
    have pr: "proceed E h (Modify (Attached req k (False, new, old))) s = (Done (Modify (Materialised req k (qp_num qp))), ?s3)"
      using Some c cr q(2) c2 no(2) by (simp add: host_materialise_def read_conn_def read_qp_num_def release_def Let_def)
    have s3: "next_ptr ?s3 = next_ptr s1" "host_map ?s3 = host_map s1" "src_qp_map ?s3 = src_qp_map s1"
      "refs ?s3 = refs ?s2" "has_qp ?s3 x = has_qp ?s2 x" for x by simp_all
    have rs: "refs ?s2 = (refs s)(new := None)" using q by (auto simp: refs_def fun_eq_iff)
    have qp2: "has_qp s x \<Longrightarrow> x \<noteq> new \<Longrightarrow> has_qp ?s2 x" for x using q by (auto simp: has_qp_def quiet_def)
    have led: "ledger U T ?pk ?cl (?ow(i := None)) (?ln(i := None)) (next_ptr ?s3) (host_map ?s3) (src_qp_map ?s3) (refs ?s3)"
      using ledger_next [OF ledger_drop(3) [OF ledger_free [OF l ln(2)], of i], of "next_ptr s1"] q(1) rs unfolding s3
      by (simp add: quiet_def)
    have "threads_inv U T (ts(i \<mapsto> (h, Modify (Materialised req k (qp_num qp))))) ?s3"
    proof (rule threads_invI [where q = new, OF inv i])
      show "has_qp s p \<Longrightarrow> has_qp ?s3 p" if "p \<noteq> new" for p unfolding s3 by (rule qp2 [OF _ that])
      show "host_map ?s3 k' = Some p \<Longrightarrow> host_map s k' = Some p" for k' p unfolding s3 using q(1) by (simp add: quiet_def)
      show "host_map ?s3 k' = Some new \<Longrightarrow> R" for k' R unfolding s3 using q(1) no(1) by (simp add: quiet_def)
    qed (use led same unl in \<open>simp_all del: refs_frame has_qp_frame has_qp_conn\<close>)
    then show ?thesis using pr by simp
  qed
qed

text \<open>Announcing: the reference of the thread becomes the one of the handle.\<close>

lemma kept_announce:
  assumes inv: "threads_inv U T ts s" and i: "ts i = Some (h, Modify (Materialised req k n))"
  shows "kept U T ts i h (Modify (Materialised req k n)) (proceed E h (Modify (Materialised req k n)) s)"
proof (cases "SrcQpL \<in> held s")
  case True
  then show ?thesis by (simp add: modify_qp_announce_def acquire_def)
next
  case False
  let ?pk = "of_thread pending ts" and ?cl = "of_thread claim ts" and ?ow = "of_thread owned ts" and ?ln = "of_thread linkage ts"
  let ?v = "mq_src_v_qp_handle req"
  have l: "ledger U T ?pk ?cl ?ow ?ln (next_ptr s) (host_map s) (src_qp_map s) (refs s)"
    using inv by (simp add: threads_inv_def)
  have at: "?pk i = Some k" "?cl i = Some ?v" "?ln i = None" using i by (simp_all add: of_thread_def)
  have same: "?ow(i := None) = ?ow" "?ln(i := None) = ?ln"
    by (rule of_thread_idem [where ts = ts and i = i, OF i]; simp)+
  obtain rc w where u: "update_dst_router E INSERT (g_src_gid s) (mq_dst_v_qp_num req) n (world s) = (rc, w)" by fastforce
  let ?s = "s\<lparr>src_qp_map := (src_qp_map s)(?v \<mapsto> k), world := w\<rparr>"
  let ?a = "Modify (Waiting req k n)"
  have pr: "proceed E h (Modify (Materialised req k n)) s = (if rc = -1 then Killed else Done ?a, ?s)"
    using False u by (simp add: modify_qp_announce_def acquire_def release_def)
  have "threads_inv U T (ts(i \<mapsto> (h, ?a))) ?s"
    by (rule threads_invI_keep [OF inv i]) (use ledger_announce [OF l at] same in simp_all)
  moreover from this have "threads_inv U T (ts(i := None)) ?s"
    using threads_inv_killed [where i = i and a = ?a and h = h and ts = "ts(i \<mapsto> (h, ?a))"] by simp
  ultimately show ?thesis using pr by simp
qed

text \<open>Destroying: the reference of the handle becomes the one of the thread, and goes.\<close>

lemma kept_detach:
  assumes inv: "threads_inv U T ts s" and i: "ts i = Some (h, Destroy req)"
  shows "kept U T ts i h (Destroy req) (proceed E h (Destroy req) s)"
proof (cases "SrcQpL \<in> held s")
  case True
  then show ?thesis by (simp add: destroy_detach_def acquire_def)
next
  case False
  show ?thesis
  proof (cases "src_qp_map s (dq_qp_handle req)")
    case None
    show ?thesis
      by (rule kept_calm [OF inv i]) (use False None in \<open>simp_all add: calm_def destroy_detach_def\<close>)
  next
    case (Some k)
    let ?pk = "of_thread pending ts" and ?cl = "of_thread claim ts" and ?ow = "of_thread owned ts" and ?ln = "of_thread linkage ts"
    let ?v = "dq_qp_handle req"
    have l: "ledger U T ?pk ?cl ?ow ?ln (next_ptr s) (host_map s) (src_qp_map s) (refs s)" and iT: "i \<in> T"
      using inv i by (auto simp: threads_inv_def)
    have at: "?pk i = None" using i by (simp add: of_thread_def)
    have same: "?ow(i := None) = ?ow" "?ln(i := None) = ?ln" "?cl(i := None) = ?cl"
      by (rule of_thread_idem [where ts = ts and i = i, OF i]; simp)+
    let ?s = "s\<lparr>src_qp_map := (src_qp_map s)(?v := None)\<rparr>"
    have pr: "proceed E h (Destroy req) s = (Done (Detached req k), ?s)"
      using False Some by (simp add: destroy_detach_def acquire_def release_def)
    have "threads_inv U T (ts(i \<mapsto> (h, Detached req k))) ?s"
      by (rule threads_invI_keep [OF inv i]) (use ledger_detach [OF l iT at Some] same in simp_all)
    then show ?thesis using pr by simp
  qed
qed

lemma kept_unlink:
  assumes inv: "threads_inv U T ts s" and i: "ts i = Some (h, Detached req k)"
  shows "kept U T ts i h (Detached req k) (proceed E h (Detached req k) s)"
proof (cases "HostmapL \<in> held s")
  case True
  then show ?thesis by (simp add: destroy_unlink_def acquire_def)
next
  case False
  let ?pk = "of_thread pending ts" and ?cl = "of_thread claim ts" and ?ow = "of_thread owned ts" and ?ln = "of_thread linkage ts"
  have l: "ledger U T ?pk ?cl ?ow ?ln (next_ptr s) (host_map s) (src_qp_map s) (refs s)"
    using inv by (simp add: threads_inv_def)
  have at: "?pk i = Some k" "?ow i = None" "?ln i = None" using i by (simp_all add: of_thread_def)
  have same: "?ow(i := None) = ?ow" "?ln(i := None) = ?ln" "?cl(i := None) = ?cl"
    by (rule of_thread_idem [where ts = ts and i = i, OF i]; simp)+
  show ?thesis
  proof (rule ledger_unlink [OF l at(1,3,2)])
    fix p m
    assume p: "host_map s k = Some p" "0 < p" "refs s p = Some (Suc m)"
      and more: "m \<noteq> 0 \<Longrightarrow> ledger U T (?pk(i := None)) ?cl ?ow ?ln (next_ptr s) (host_map s) (src_qp_map s) ((refs s)(p \<mapsto> m))"
      and last: "m = 0 \<Longrightarrow> ledger U T (?pk(i := None)) ?cl (?ow(i \<mapsto> p)) ?ln (next_ptr s) ((host_map s)(k := None)) (src_qp_map s) ((refs s)(p \<mapsto> m))"
    obtain c where c: "conn_heap s p = Some c" "unat (cr_ref_cnt c) = Suc m" using p(3) by (auto simp: refs_def)
    have m: "unat (cr_ref_cnt c - 1) = m" using c(2) by (metis diff_Suc_1 unat_minus_one unat_0 nat.distinct(1))
    let ?s = "s\<lparr>conn_heap := (conn_heap s)(p \<mapsto> c\<lparr>cr_ref_cnt := cr_ref_cnt c - 1\<rparr>)\<rparr>"
    have rs: "refs ?s = (refs s)(p \<mapsto> m)" using m by simp
    have qp: "has_qp ?s x = has_qp s x" for x using c(1) by (auto simp: has_qp_def)
    show ?thesis
    proof (cases "m = 0")
      case False
      have pr: "proceed E h (Detached req k) s = (Done (Replied (Some (Flags_Rsp 1))), ?s)"
        using \<open>HostmapL \<notin> held s\<close> p c m False
        by (simp add: destroy_unlink_def acquire_def release_def read_conn_def write_conn_def Let_def unat_eq_0 [symmetric])
      have "threads_inv U T (ts(i \<mapsto> (h, Replied (Some (Flags_Rsp 1))))) ?s"
        by (rule threads_invI_keep [OF inv i])
          (use more [OF False] same rs qp in \<open>simp_all del: has_qp_conn refs_frame\<close>)
      then show ?thesis using pr by simp
    next
      case True
      let ?t = "s\<lparr>conn_heap := (conn_heap s)(p \<mapsto> c\<lparr>cr_ref_cnt := cr_ref_cnt c - 1\<rparr>), host_map := (host_map s)(k := None)\<rparr>"
      have pr: "proceed E h (Detached req k) s = (Done (Unlinked req p), ?t)"
        using \<open>HostmapL \<notin> held s\<close> p c m True
        by (simp add: destroy_unlink_def acquire_def release_def read_conn_def write_conn_def Let_def unat_eq_0 [symmetric])
      have t: "host_map ?t = (host_map s)(k := None)" "next_ptr ?t = next_ptr s" "src_qp_map ?t = src_qp_map s"
        "refs ?t = (refs s)(p \<mapsto> m)" "has_qp ?t x = has_qp s x" for x using rs qp by (auto simp: refs_def has_qp_def)
      have "?ln j \<noteq> Some (k, p)" for j
      proof
        assume "?ln j = Some (k, p)"
        then have "((host_map s)(k := None)) k = Some p" using last [OF True] unfolding ledger_def linked_def by blast
        then show False by simp
      qed
      then have made: "has_qp s p" using inv p(1) unfolding threads_inv_def by blast
      have "threads_inv U T (ts(i \<mapsto> (h, Unlinked req p))) ?t"
        by (rule threads_invI_keep [OF inv i])
          (use last [OF True] same made in \<open>simp_all add: t split: if_splits del: has_qp_frame has_qp_conn refs_frame\<close>)
      then show ?thesis using pr by simp
    qed
  qed
qed

lemma kept_release:
  assumes inv: "threads_inv U T ts s" and i: "ts i = Some (h, Unlinked req p)"
  shows "kept U T ts i h (Unlinked req p) (proceed E h (Unlinked req p) s)"
proof (cases "ConnL p \<in> held s")
  case True
  then show ?thesis by (simp add: release_conn_def acquire_def)
next
  case False
  let ?pk = "of_thread pending ts" and ?cl = "of_thread claim ts" and ?ow = "of_thread owned ts" and ?ln = "of_thread linkage ts"
  have l: "ledger U T ?pk ?cl ?ow ?ln (next_ptr s) (host_map s) (src_qp_map s) (refs s)" and hq: "has_qp s p"
    using inv i by (auto simp: threads_inv_def)
  have at: "?ow i = Some p" using i by (simp add: of_thread_def)
  have same: "?pk(i := None) = ?pk" "?ln(i := None) = ?ln" "?cl(i := None) = ?cl"
    by (rule of_thread_idem [where ts = ts and i = i, OF i]; simp)+
  have pl: "placed (next_ptr s) (host_map s) ?ow (refs s)" using l by (simp add: ledger_def)
  have no: "host_map s k \<noteq> Some p" for k using pl at unfolding placed_def by blast
  have unl: "ts j \<noteq> Some (h', Unlinked r p)" if "j \<noteq> i" for j h' r
    using pl at that of_thread_at [where ts = ts and i = j and f = owned] by (force simp: placed_def)
  obtain c where c: "conn_heap s p = Some c" "qp_heap s (cr_qp c) \<noteq> None" using hq by (auto simp: has_qp_def)
  let ?s0 = "s\<lparr>held := insert (ConnL p) (held s)\<rparr>"
  obtain rc res s1 where cr: "resources_destroy E c ?s0 = (rc, res, s1)" by (metis prod_cases3)
  note q = resources_destroy_quiet [OF cr]
  obtain qp where qp: "qp_heap s1 (cr_qp res) = Some qp" using q c(2) by fastforce
  have g: "quiet s s1" "conn_heap s1 = conn_heap s" using q by (simp_all add: quiet_def)
  obtain rcu w where u: "update_dst_router E DELETE (g_src_gid s1) (dq_dst_v_qp_num req) (qp_num qp) (world s1) = (rcu, w)"
    by fastforce
  obtain fr where pr: "proceed E h (Unlinked req p) s = (Done (Replied (Some (Flags_Rsp (if rc \<noteq> 0 then 0 else 1)))),
      s1\<lparr>held := held s1 - {ConnL p}, freed_reads := fr, world := w, conn_heap := (conn_heap s)(p := None)\<rparr>)"
  proof (cases "qp_live qp")
    case True
    show thesis by (rule that [of "freed_reads s1"])
      (use False c(1) cr qp u True g(2) in \<open>simp add: release_conn_def acquire_def read_conn_def write_conn_def read_qp_num_def release_def Let_def\<close>)
  next
    case dead: False
    show thesis by (rule that [of "Suc (freed_reads s1)"])
      (use False c(1) cr qp u dead g(2) in \<open>simp add: release_conn_def acquire_def read_conn_def write_conn_def read_qp_num_def release_def Let_def\<close>)
  qed
  let ?flags = "if rc \<noteq> 0 then 0 else 1 :: u8"
  let ?t = "s1\<lparr>held := held s1 - {ConnL p}, freed_reads := fr, world := w, conn_heap := (conn_heap s)(p := None)\<rparr>"
  have t: "next_ptr ?t = next_ptr s1" "host_map ?t = host_map s1" "src_qp_map ?t = src_qp_map s1"
    "refs ?t = (refs s)(p := None)" "qp_heap ?t = qp_heap s1" "conn_heap ?t = (conn_heap s)(p := None)"
    using g by (auto simp: refs_def fun_eq_iff)
  have mono: "has_qp ?t x" if "x \<noteq> p" "has_qp s x" for x
    using that g unfolding quiet_def has_qp_def t by auto
  have "threads_inv U T (ts(i \<mapsto> (h, Replied (Some (Flags_Rsp ?flags))))) ?t"
  proof (rule threads_invI [where q = p, OF inv i])
    show "has_qp s x \<Longrightarrow> has_qp ?t x" if "x \<noteq> p" for x by (rule mono [OF that])
  qed (use ledger_next [OF ledger_free [OF l at], of "next_ptr s1"] same g no unl in \<open>simp_all add: t quiet_def
      del: has_qp_frame has_qp_conn refs_frame\<close>)
  then show ?thesis using pr by simp
qed

section \<open>Every interleaving\<close>

lemma kept_any:
  assumes inv: "threads_inv U T ts s" and i: "ts i = Some (h, a)"
  shows "kept U T ts i h a (proceed E h a s)"
proof (cases a)
  case (Modify st)
  show ?thesis
  proof (cases st)
    case (Attached req k x)
    obtain f new old where "x = (f, new, old)" by (metis prod_cases3)
    then show ?thesis using Modify Attached i kept_materialise_new [OF inv, of i h] kept_materialise_old [OF inv, of i h]
      by (cases f) (simp_all del: proceed.simps)
  next
    case (Start req)
    then show ?thesis using Modify i kept_attach [OF inv, of i h] by (simp del: proceed.simps)
  next
    case (Materialised req k n)
    then show ?thesis using Modify i kept_announce [OF inv, of i h] by (simp del: proceed.simps)
  qed (use Modify i kept_calm [OF inv i] in \<open>simp_all add: calm_modify calm_ready del: proceed.simps\<close>)
next
  case (Aside t)
  then have "aside_ok (t_request t)" using inv i by (auto simp: threads_inv_def)
  then show ?thesis using Aside kept_calm [OF inv i] by (simp add: calm_aside del: proceed.simps)
qed (use i kept_calm [OF inv i] kept_detach [OF inv] kept_unlink [OF inv] kept_release [OF inv] in
    \<open>simp_all add: calm_use calm_using del: proceed.simps\<close>)

lemma tstep_inv:
  assumes "tstep E (ts, Some s) (ts', Some s')" and inv: "threads_inv U T ts s"
  shows "threads_inv U T ts' s'"
  using assms(1)
proof cases
  case (run i h a a')
  then show ?thesis using kept_any [OF inv, of i h a E] by simp
next
  case (kill i h a)
  then show ?thesis using kept_any [OF inv, of i h a E] by simp
next
  case (peer fd n m)
  have "wpost (\<lambda>_. quiet s) (quiet s) (\<lambda>_. True) (handle_remote_router E fd n m s)"
    by (auto simp: handle_remote_router_def Let_def split: OPERATION.split option.split)
  then have "quiet s s'" using peer by simp
  then show ?thesis using threads_inv_quiet [OF inv] peer by simp
qed

interpretation threads: thread_system "tstep E" "threads_inv U T" for E U T
  by unfold_locales (auto elim: tstep_crashedE intro: tstep_inv)

text \<open>The start: threads at the beginning of their requests, no two of which attach the same handle.\<close>

fun begins :: "activity \<Rightarrow> bool" where
  "begins (Modify (Start req)) = True" | "begins (Destroy req) = True" | "begins (Sending req) = True"
| "begins (Receiving req) = True" | "begins (Finding (Use_Poll req)) = True" | "begins (Aside t) = aside_ok (t_request t)"
| "begins _ = False"

lemma beginsD: "begins a \<Longrightarrow> pending a = None \<and> owned a = None \<and> linkage a = None \<and> (\<forall>req p. a \<noteq> Unlinked req p)
    \<and> (\<forall>t. a = Aside t \<longrightarrow> aside_ok (t_request t))"
  by (cases a rule: begins.cases) simp_all

definition start_ok :: "(nat \<rightharpoonup> ScaleReqHeader \<times> activity) \<Rightarrow> 'w router \<Rightarrow> bool" where
  "start_ok ts s \<longleftrightarrow> pool_inv s \<and> finite (dom ts) \<and> (\<forall>i h a. ts i = Some (h, a) \<longrightarrow> begins a)
     \<and> (\<forall>i v. of_thread claim ts i = Some v \<longrightarrow> src_qp_map s v = None)
     \<and> (\<forall>i j v. of_thread claim ts i = Some v \<longrightarrow> of_thread claim ts j = Some v \<longrightarrow> i = j)
     \<and> card (dom (src_qp_map s) \<union> ran (of_thread claim ts)) + card (dom ts) < 2 ^ 32"

lemma start_threads_inv:
  assumes "start_ok ts s"
  shows "threads_inv (dom (src_qp_map s) \<union> ran (of_thread claim ts)) (dom ts) ts s"
proof -
  have inv: "pool_inv s" and fin: "finite (dom ts)" using assms by (simp_all add: start_ok_def)
  have b: "ts i = Some (h, a) \<Longrightarrow> begins a" for i h a using assms by (simp add: start_ok_def)
  have none: "of_thread pending ts = Map.empty" "of_thread owned ts = Map.empty" "of_thread linkage ts = Map.empty"
    by (rule ext, case_tac "ts x"; use b beginsD in \<open>fastforce simp: of_thread_def\<close>)+
  have unl: "ts i \<noteq> Some (h, Unlinked req p)" for i h req p using b [of i h "Unlinked req p"] by auto
  have as: "ts i = Some (h, Aside t) \<Longrightarrow> aside_ok (t_request t)" for i h t using b [of i h "Aside t"] by simp
  have h: "holders Map.empty (src_qp_map s) k = Inl ` attached s k" for k by (simp add: holders_def attached_def)
  have "counted Map.empty (host_map s) (src_qp_map s) (refs s)"
    unfolding counted_def h
  proof
    fix k
    show "case host_map s k of None \<Rightarrow> Inl ` attached s k = ({} :: (u32 + nat) set)
      | Some p \<Rightarrow> Inl ` attached s k \<noteq> ({} :: (u32 + nat) set) \<and> refs s p = Some (card (Inl ` attached s k :: (u32 + nat) set))"
    proof (cases "host_map s k")
      case None
      then have "attached s k = {}" using inv by (force simp: pool_inv_def attached_def)
      then show ?thesis using None by simp
    next
      case (Some p)
      obtain c where "conn_heap s p = Some c" "unat (cr_ref_cnt c) = card (attached s k)" "attached s k \<noteq> {}"
        using pool_connD [OF inv Some] by blast
      then show ?thesis using Some by (simp add: refs_def card_image)
    qed
  qed
  moreover have "placed (next_ptr s) (host_map s) Map.empty (refs s)"
  proof -
    have "0 < p \<and> p < next_ptr s" if "host_map s k = Some p" for k p
      by (rule pool_connD [OF inv that]) simp
    moreover have "k = k'" if hk: "host_map s k = Some p" "host_map s k' = Some p" for k k' p
    proof -
      obtain c where "conn_heap s p = Some c" using pool_connD [OF inv hk(1)] by metis
      then show ?thesis using inv hk unfolding pool_inv_def no_sharing_def by blast
    qed
    ultimately show ?thesis using pool_next_ptr(1) [OF inv] unfolding placed_def by simp
  qed
  moreover have "has_qp s p" if "host_map s k = Some p" for k p
    by (rule pool_connD [OF inv that]) (simp add: has_qp_def)
  ultimately show ?thesis
    using assms fin unl as none by (auto simp: threads_inv_def ledger_def sized_def linked_def claimed_def start_ok_def)
qed

text \<open>
  The count of every connection is exact in every reachable state: the attached handles and the
  threads that are about to attach or have just detached one.
\<close>

lemma ref_count_interleaved:
  assumes "start_ok ts s" and "(tstep E)\<^sup>*\<^sup>* (ts, Some s) (ts', Some s')"
  shows "case host_map s' k of
      None \<Rightarrow> attached s' k = {} \<and> {i. of_thread pending ts' i = Some k} = {}
    | Some p \<Rightarrow> \<exists>c. conn_heap s' p = Some c
        \<and> unat (cr_ref_cnt c) = card (attached s' k) + card {i. of_thread pending ts' i = Some k} \<and> 0 < cr_ref_cnt c"
proof -
  let ?U = "dom (src_qp_map s) \<union> ran (of_thread claim ts)" and ?pk = "of_thread pending ts'"
  have inv: "threads_inv ?U (dom ts) ts' s'" by (rule threads.reach_keeps [OF assms(2) start_threads_inv [OF assms(1)]])
  then have l: "sized ?U (dom ts) ?pk (of_thread claim ts') (src_qp_map s')" "counted ?pk (host_map s') (src_qp_map s') (refs s')"
    by (simp_all add: threads_inv_def ledger_def)
  let ?P = "{i. ?pk i = Some k}"
  have h: "holders ?pk (src_qp_map s') k = Inl ` attached s' k \<union> Inr ` ?P" by (simp add: holders_def attached_def)
  have "finite ?P" using l(1) by (auto simp: sized_def intro: rev_finite_subset)
  then have card: "card (holders ?pk (src_qp_map s') k) = card (attached s' k) + card ?P"
    unfolding h by (subst card_Un_disjoint) (auto simp: card_image)
  show ?thesis
  proof (cases "host_map s' k")
    case None
    then show ?thesis using counted_hm [OF l(2), of k] h by simp
  next
    case (Some p)
    obtain c where c: "conn_heap s' p = Some c" "unat (cr_ref_cnt c) = card (holders ?pk (src_qp_map s') k)"
      using threads_conn [OF inv Some] by blast
    have "holders ?pk (src_qp_map s') k \<noteq> {}" using counted_hm [OF l(2), of k] Some by auto
    then have "unat (cr_ref_cnt c) \<noteq> 0" using c(2) finite_holders [OF l(1), of k] by simp
    then have "0 < cr_ref_cnt c" by (metis unat_0 word_neq_0_conv)
    then show ?thesis using Some c card by simp
  qed
qed

text \<open>Only some steps can crash the router; destroying a queue pair is not one of them.\<close>

lemma crash_steps:
  assumes "start_ok ts s" and "(tstep E)\<^sup>*\<^sup>* (ts, Some s) (ts', Some s')" and "ts' i = Some (h, a)"
    and "fst (proceed E h a s') = Fault"
  shows "may_fault a"
proof -
  have "threads_inv (dom (src_qp_map s) \<union> ran (of_thread claim ts)) (dom ts) ts' s'"
    by (rule threads.reach_keeps [OF assms(2) start_threads_inv [OF assms(1)]])
  from kept_any [OF this assms(3), of E] show ?thesis
    using assms(4) by (cases "proceed E h a s'" rule: outcome_cases) simp_all
qed

end
