(* ===== verification/Locks.thy ===== *)
theory Locks
  imports Thread_Inv
begin

text \<open>
  Which mutexes are locked between two critical sections, and by whom: only a thread that has
  attached to its host pair has one, that of the connection it allocated. So no set of threads
  waits for each other. The exception is \<open>hostmap_lock\<close>, which \<open>IBV_MODIFY_QP\<close> leaves locked when
  its host pair was removed meanwhile; then it is locked for good.
\<close>

section \<open>The mutexes of a thread\<close>

fun holds :: "activity \<Rightarrow> lock set" where
  "holds (Modify (Attached req k a)) = {ConnL (fst (snd a))}"
| "holds _ = {}"

fun looks_again :: "activity \<Rightarrow> bool" where
  "looks_again (Modify (Finishing req k n m)) = True"
| "looks_again _ = False"

text \<open>A part that waits does so for a mutex that was locked before it.\<close>

fun lpost :: "lock set \<Rightarrow> ('a \<Rightarrow> 'w router \<Rightarrow> bool) \<Rightarrow> ('w router \<Rightarrow> bool) \<Rightarrow> 'a outcome \<times> 'w router \<Rightarrow> bool" where
  "lpost L Q K (Done a, s) = Q a s"
| "lpost L Q K (Killed, s) = K s"
| "lpost L Q K (Blocked l, s) = (l \<in> L)"
| "lpost L Q K (Fault, s) = True"

lemma lpost_andthen [simp]: "lpost L Q K (andthen r k) \<longleftrightarrow> lpost L (\<lambda>a s. lpost L Q K (k a s)) K r"
  by (cases r rule: outcome_cases) simp_all

lemma lpost_acquire [simp]:
  "lpost L Q K (acquire l s) \<longleftrightarrow> (if l \<in> held s then l \<in> L else Q () (s\<lparr>held := insert l (held s)\<rparr>))"
  by (simp add: acquire_def)

lemma lpost_read_conn [simp]:
  "lpost L Q K (read_conn p s) \<longleftrightarrow> (case conn_heap s p of None \<Rightarrow> True | Some c \<Rightarrow> Q c s)"
  by (simp add: read_conn_def split: option.split)

lemma lpost_read_qp_num [simp]:
  "lpost L Q K (read_qp_num p s) \<longleftrightarrow> (case qp_heap s p of None \<Rightarrow> True
     | Some q \<Rightarrow> Q (qp_num q) (if qp_live q then s else s\<lparr>freed_reads := Suc (freed_reads s)\<rparr>))"
  by (simp add: read_qp_num_def split: option.split)

lemma lpost_check_wcs [simp]:
  "(\<And>a. Q a s) \<Longrightarrow> K s \<Longrightarrow> lpost L Q K (check_wcs pid n wc, s)"
  by (induction pid n wc rule: check_wcs.induct) simp_all

lemma held_simps [simp]:
  "held (release l s) = held s - {l}" "held (write_conn p c s) = held s"
  by (simp_all add: release_def write_conn_def)

lemma held_resources:
  "resources_destroy E res s = (rc, res', s') \<Longrightarrow> held s' = held s"
  "resources_create E res s = (rc, res', s') \<Longrightarrow> held s' = held s"
proof -
  have d: "held s' = held s" if r: "resources_destroy E res s = (rc, res', s')" for res :: conn_resources and s :: "'a router" and rc res' s'
  proof -
    obtain w q where "s' = s\<lparr>qp_heap := q, world := w\<rparr>" using resources_destroy_frame [OF r] by blast
    then show ?thesis by simp
  qed
  then show "resources_destroy E res s = (rc, res', s') \<Longrightarrow> held s' = held s" .
  assume c: "resources_create E res s = (rc, res', s')"
  obtain ok w1 where 1: "e_create_cq E (next_ptr s) MAX_CQ_SIZE (world s) = (ok, w1)" by fastforce
  obtain qpn w2 where 2: "e_create_qp E (Suc (next_ptr s)) (qp_init_attr_of (next_ptr s)) w1 = (qpn, w2)" by fastforce
  obtain rc1 r1 s1 where 3: "resources_destroy E (res\<lparr>cr_cq := 0\<rparr>) (s\<lparr>world := w1\<rparr>) = (rc1, r1, s1)" by (metis prod_cases3)
  obtain rc2 r2 s2 where 4: "resources_destroy E (res\<lparr>cr_cq := next_ptr s, cr_qp := 0\<rparr>) (s\<lparr>next_ptr := Suc (next_ptr s), world := w2\<rparr>) = (rc2, r2, s2)"
    by (metis prod_cases3)
  show "held s' = held s"
    using c 1 2 3 4 d [OF 3] d [OF 4] by (cases ok; cases qpn) (auto simp: resources_create_def Let_def)
qed

lemma freed_held [simp]: "held (if b then s else s\<lparr>freed_reads := n\<rparr>) = held s"
  by simp

section \<open>What each part does to them\<close>

abbreviation keeps :: "'w router \<Rightarrow> 'a outcome \<times> 'w router \<Rightarrow> bool" where
  "keeps s r \<equiv> lpost (held s) (\<lambda>_ t. held t = held s) (\<lambda>t. held t = held s) r"

lemma keeps_aside:
  assumes "aside_ok (t_request t)" shows "keeps s (handle_case E t s)"
  using assms
  by (cases "t_request t")
   (auto simp: handle_case_def replies_def ibv_create_qp_h_def ibv_destroy_cq_h_def ibv_reg_mr_h_def ibv_dereg_mr_h_def
     addShmPiece_def ibv_alloc_pd_h_def ibv_query_gid_h_def ibv_query_port_h_def ibv_get_device_list_h_def Let_def
     split: option.split prod.split)

lemma keeps_use: "keeps s (use_conn E h u p s)"
  by (cases u) (auto simp: Let_def split: option.split prod.split list.split)

lemma keeps_find:
  "keeps s (translate_addr lk addr s)" "keeps s (find_key v s)" "keeps s (find_host_conn k s)" "keeps s (dst_lookup g s)"
  "keeps s (destroy_detach dreq s)" "keeps s (destroy_unlink k s)" "keeps s (modify_qp_announce E req k n s)"
  "keeps s (finish_ready E ci p s)" "keeps s (handle_remote_router E fd m buf s)"
  by (auto simp: translate_addr_def find_key_def find_host_conn_def dst_lookup_def destroy_detach_def destroy_unlink_def
      modify_qp_announce_def finish_ready_def handle_remote_router_def Let_def
      split: option.split prod.split OPERATION.split)

lemma keeps_release: "keeps s (release_conn E p v s)"
proof (cases "conn_heap s p")
  case (Some c)
  obtain rc res s1 where d: "resources_destroy E c (s\<lparr>held := insert (ConnL p) (held s)\<rparr>) = (rc, res, s1)" by (metis prod_cases3)
  show ?thesis
    using Some d held_resources(1) [OF d]
    by (auto simp: release_conn_def Let_def split: option.split prod.split)
qed (simp add: release_conn_def)

lemma locks_attach:
  "lpost (held s) (\<lambda>a t. held t = insert (ConnL (fst (snd a))) (held s)) (\<lambda>_. False) (host_attach k s)"
  by (auto simp: host_attach_def Let_def split: option.split)

lemma locks_materialise:
  "lpost L (\<lambda>_ t. held t = held s - {ConnL (fst (snd a))}) (\<lambda>_. False) (host_materialise E a s)"
  by (auto simp: host_materialise_def Let_def dest!: held_resources split: option.split prod.split)

lemma locks_find:
  "lpost (held s) (\<lambda>_ t. held t = held s) (\<lambda>t. held t = insert HostmapL (held s)) (finish_find k s)"
  by (auto simp: finish_find_def split: option.split)

lemma lpost_mono:
  "lpost L Q K r \<Longrightarrow> (\<And>a s. Q a s \<Longrightarrow> Q' a s) \<Longrightarrow> (\<And>s. K s \<Longrightarrow> K' s) \<Longrightarrow> lpost L Q' K' r"
  by (cases r rule: outcome_cases) auto

lemma proceed_locks:
  assumes "\<And>t. a = Aside t \<Longrightarrow> aside_ok (t_request t)"
  shows "lpost (held s) (\<lambda>a' t. held t = held s - holds a \<union> holds a')
    (\<lambda>t. held t = held s \<or> looks_again a \<and> held t = insert HostmapL (held s)) (proceed E h a s)"
proof (cases a)
  case (Modify st)
  show ?thesis
  proof (cases st)
    case (Start req)
    then show ?thesis using Modify by (auto simp: Let_def intro!: lpost_mono [OF locks_attach])
  next
    case (Attached req k x)
    then show ?thesis using Modify by (auto intro!: lpost_mono [OF locks_materialise])
  next
    case (Materialised req k n)
    then show ?thesis using Modify by (auto intro!: lpost_mono [OF keeps_find(7)])
  next
    case (Waiting req k n)
    show ?thesis
      unfolding Modify Waiting by (simp, rule lpost_mono [OF keeps_find(4)]) (simp_all split: option.split)
  next
    case (Finishing req k n m)
    then show ?thesis using Modify by (auto intro!: lpost_mono [OF locks_find])
  next
    case (Readying req n m p)
    then show ?thesis using Modify by (auto intro!: lpost_mono [OF keeps_find(8)])
  qed (use Modify in simp)
next
  case (Destroy req)
  show ?thesis unfolding Destroy by (simp, rule lpost_mono [OF keeps_find(5)]) (simp_all split: option.split)
next
  case (Detached req k)
  show ?thesis unfolding Detached by (simp, rule lpost_mono [OF keeps_find(6)]) (simp_all split: sum.split)
next
  case (Unlinked req p)
  then show ?thesis by (auto intro!: lpost_mono [OF keeps_release])
next
  case (Sending req)
  then show ?thesis by (auto intro!: lpost_mono [OF keeps_find(1)])
next
  case (Receiving req)
  then show ?thesis by (auto intro!: lpost_mono [OF keeps_find(1)])
next
  case (Finding u)
  then show ?thesis by (auto intro!: lpost_mono [OF keeps_find(2)])
next
  case (Found u k)
  then show ?thesis by (auto intro!: lpost_mono [OF keeps_find(3)])
next
  case (Using u p)
  then show ?thesis by (auto intro!: lpost_mono [OF keeps_use])
next
  case (Aside t)
  then show ?thesis using assms by (auto intro!: lpost_mono [OF keeps_aside])
qed simp

section \<open>Between the critical sections\<close>

text \<open>Every mutex that is locked belongs to a thread, but for a forgotten \<open>hostmap_lock\<close>.\<close>

definition all_aside :: "(nat \<rightharpoonup> ScaleReqHeader \<times> activity) \<Rightarrow> bool" where
  "all_aside ts \<longleftrightarrow> (\<forall>i h t. ts i = Some (h, Aside t) \<longrightarrow> aside_ok (t_request t))"

definition locks_inv :: "(nat \<rightharpoonup> ScaleReqHeader \<times> activity) \<Rightarrow> 'w router \<Rightarrow> bool" where
  "locks_inv ts s \<longleftrightarrow> all_aside ts \<and> (\<forall>l \<in> held s. l = HostmapL \<or> (\<exists>i h a. ts i = Some (h, a) \<and> l \<in> holds a))"

lemma proceed_held:
  assumes "locks_inv ts s" and "ts i = Some (h, a)"
  shows "proceed E h a s = (Done a', s') \<Longrightarrow> held s' = held s - holds a \<union> holds a'"
    and "proceed E h a s = (Killed, s') \<Longrightarrow> held s' = held s \<or> held s' = insert HostmapL (held s)"
    and "proceed E h a s = (Blocked l, s') \<Longrightarrow> l \<in> held s"
proof -
  have "lpost (held s) (\<lambda>a' t. held t = held s - holds a \<union> holds a')
    (\<lambda>t. held t = held s \<or> looks_again a \<and> held t = insert HostmapL (held s)) (proceed E h a s)"
    by (rule proceed_locks) (use assms in \<open>auto simp: locks_inv_def all_aside_def\<close>)
  then show "proceed E h a s = (Done a', s') \<Longrightarrow> held s' = held s - holds a \<union> holds a'"
    "proceed E h a s = (Killed, s') \<Longrightarrow> held s' = held s \<or> held s' = insert HostmapL (held s)"
    "proceed E h a s = (Blocked l, s') \<Longrightarrow> l \<in> held s" by auto
qed

text \<open>At the start no mutex is locked.\<close>

lemma start_locks: "start_ok ts s \<Longrightarrow> held s = {} \<Longrightarrow> locks_inv ts s"
  by (fastforce simp: start_ok_def locks_inv_def all_aside_def)

lemma wpost_all: "(\<And>a s. Q a s) \<Longrightarrow> wpost Q (\<lambda>_. True) (\<lambda>_. True) r"
  by (cases r rule: outcome_cases) simp_all

lemma proceed_never_aside: "proceed E h a s = (Done (Aside t), s') \<Longrightarrow> False"
proof -
  have "wpost (\<lambda>a' _. \<forall>t. a' \<noteq> Aside t) (\<lambda>_. True) (\<lambda>_. True) (proceed E h a s)"
  proof (cases a)
    case (Modify st)
    then show ?thesis by (cases st) (auto simp: Let_def intro!: wpost_all split: option.splits)
  qed (auto intro!: wpost_all split: option.splits sum.splits)
  then show "proceed E h a s = (Done (Aside t), s') \<Longrightarrow> False" by simp
qed

lemma locks_inv_next:
  assumes inv: "locks_inv ts s" and i: "ts i = Some (h, a)"
    and h: "held s' \<subseteq> held s - holds a \<union> holds a' \<union> {HostmapL}" and a': "\<And>t. a' \<noteq> Aside t"
  shows "locks_inv (ts(i \<mapsto> (h, a'))) s'"
proof -
  have "\<exists>j h' b. (ts(i \<mapsto> (h, a'))) j = Some (h', b) \<and> l \<in> holds b" if l: "l \<in> held s'" "l \<noteq> HostmapL" for l
  proof (cases "l \<in> holds a'")
    case False
    then have "l \<in> held s" "l \<notin> holds a" using l h by auto
    then obtain j h' b where j: "ts j = Some (h', b)" "l \<in> holds b" using inv l(2) unfolding locks_inv_def by blast
    then have "j \<noteq> i" using i \<open>l \<notin> holds a\<close> by auto
    then show ?thesis using j by (metis fun_upd_other)
  qed (metis fun_upd_same)
  moreover have "all_aside (ts(i \<mapsto> (h, a')))" using inv a' by (simp add: locks_inv_def all_aside_def)
  ultimately show ?thesis unfolding locks_inv_def by blast
qed

lemma locks_inv_end:
  assumes inv: "locks_inv ts s" and i: "ts i = Some (h, a)" and a: "holds a = {}" and h: "held s' \<subseteq> insert HostmapL (held s)"
  shows "locks_inv (ts(i := None)) s'"
proof -
  have "\<exists>j h' b. (ts(i := None)) j = Some (h', b) \<and> l \<in> holds b" if l: "l \<in> held s'" "l \<noteq> HostmapL" for l
  proof -
    obtain j h' b where j: "ts j = Some (h', b)" "l \<in> holds b" using inv l h unfolding locks_inv_def by blast
    then have "j \<noteq> i" using i a by auto
    then show ?thesis using j by (metis fun_upd_other)
  qed
  moreover have "all_aside (ts(i := None))" using inv by (simp add: locks_inv_def all_aside_def)
  ultimately show ?thesis unfolding locks_inv_def by blast
qed

lemma holdsD: "l \<in> holds a \<Longrightarrow> \<exists>req k x. a = Modify (Attached req k x) \<and> l = ConnL (fst (snd x))"
  by (cases a rule: holds.cases) simp_all

lemma holds_hostmap [simp]: "HostmapL \<notin> holds a"
  by (cases a rule: holds.cases) simp_all

lemma killed_holds_nothing: "proceed E h a s = (Killed, s') \<Longrightarrow> holds a = {}"
proof (cases a rule: holds.cases)
  case (1 req k x)
  assume "proceed E h a s = (Killed, s')"
  then show ?thesis
    using 1 locks_materialise [of "{}" s x E] by (cases "host_materialise E x s" rule: outcome_cases) simp_all
qed simp_all

lemma tstep_locks:
  assumes "tstep E (ts, Some s) (ts', Some s')" and inv: "locks_inv ts s"
  shows "locks_inv ts' s' \<and> (HostmapL \<in> held s \<longrightarrow> HostmapL \<in> held s')"
  using assms(1)
proof cases
  case (run i h a a')
  note * = proceed_held(1) [OF inv run(2,3)]
  have "locks_inv (ts(i \<mapsto> (h, a'))) s'"
    by (rule locks_inv_next [OF inv run(2)]) (use * run(3) proceed_never_aside [of E h a s _ s'] in auto)
  then show ?thesis using run(1) * by simp
next
  case (kill i h a)
  note * = proceed_held(2) [OF inv kill(2,3)]
  have "locks_inv (ts(i := None)) s'"
    by (rule locks_inv_end [OF inv kill(2) killed_holds_nothing [OF kill(3)]]) (use * in auto)
  then show ?thesis using kill(1) * by auto
next
  case (peer fd n m)
  then show ?thesis using inv keeps_find(9) [of s E fd n m] by (auto simp: locks_inv_def)
qed

interpretation locks: thread_system "tstep E" locks_inv for E
  by unfold_locales (auto elim: tstep_crashedE dest: tstep_locks)

interpretation leaked: thread_system "tstep E" "\<lambda>ts s. locks_inv ts s \<and> HostmapL \<in> held s" for E
  by unfold_locales (auto elim: tstep_crashedE dest: tstep_locks)

section \<open>No deadlock\<close>

text \<open>
  A thread that waits does so for the mutex of a connection that another thread allocated, and
  that thread can go on and unlocks it.
\<close>

lemma waits_for:
  assumes "locks_inv ts s" and "HostmapL \<notin> held s" and "ts i = Some (h, a)" and "fst (proceed E h a s) = Blocked l"
  obtains j h' req k x where "ts j = Some (h', Modify (Attached req k x))" "l = ConnL (fst (snd x))"
    "fst (proceed E h' (Modify (Attached req k x)) s) = Fault
      \<or> (\<exists>b s'. proceed E h' (Modify (Attached req k x)) s = (Done b, s') \<and> l \<notin> held s')"
proof -
  have "l \<in> held s" using proceed_held(3) [OF assms(1,3)] assms(4) by (metis prod.collapse)
  moreover from this have "l \<noteq> HostmapL" using assms(2) by metis
  ultimately obtain j h' b where j: "ts j = Some (h', b)" "l \<in> holds b" using assms(1) by (auto simp: locks_inv_def)
  obtain req k x where b: "b = Modify (Attached req k x)" "l = ConnL (fst (snd x))" using holdsD [OF j(2)] by blast
  have "fst (proceed E h' b s) = Fault \<or> (\<exists>b' s'. proceed E h' b s = (Done b', s') \<and> l \<notin> held s')"
    using locks_materialise [of "{}" s x E] unfolding b by (cases "host_materialise E x s" rule: outcome_cases) simp_all
  then show thesis by (rule that [OF j(1) [unfolded b(1)] b(2), folded b(1)])
qed

section \<open>A mutex that is never unlocked\<close>

lemma hostmap_blocks:
  assumes "HostmapL \<in> held s"
  shows "\<exists>l. fst (proceed E h (Modify (Start req)) s) = Blocked l"
  using assms by (auto simp: host_attach_def acquire_def write_conn_def Let_def)

text \<open>
  The virtual queue pair of a thread that waits for the other router is destroyed: when the
  number arrives the thread finds no host pair, and its socket is closed with \<open>hostmap_lock\<close>
  locked. No thread that attaches gets on after that.
\<close>

lemma destroyed_while_waiting:
  assumes inv: "pool_inv s" and free: "held s = {}" and last: "attached s k = {dq_qp_handle req}"
    and ts: "ts i = Some (h1, Modify (Waiting r k n))" "ts j = Some (h2, Destroy req)" "i \<noteq> j" "all_aside ts"
    and m: "dst_qp_map s (take 16 (mq_dst_gid r)) = Some m"
  shows "\<exists>ts1 s1. (tstep E)\<^sup>*\<^sup>* (ts, Some s) (ts1, Some s1) \<and> ts1 i = None
    \<and> (\<forall>ts2 s2. (tstep E)\<^sup>*\<^sup>* (ts1, Some s1) (ts2, Some s2) \<longrightarrow> HostmapL \<in> held s2
        \<and> (\<forall>x h r. ts2 x = Some (h, Modify (Start r)) \<longrightarrow> (\<exists>l. fst (proceed E h (Modify (Start r)) s2) = Blocked l)))"
proof -
  have h: "src_qp_map s (dq_qp_handle req) = Some k" using last by (auto simp: attached_def)
  obtain p c q where p: "host_map s k = Some p" "conn_heap s p = Some c" "qp_heap s (cr_qp c) = Some q"
  proof -
    obtain p where "host_map s k = Some p" using inv h unfolding pool_inv_def by blast
    then show thesis using pool_connD [OF inv] that by metis
  qed
  obtain flags s' where d: "ibv_destroy_qp_h E req s = (Done flags, s')"
    and s': "host_map s' k = None" "held s' = {}" "dst_qp_map s' = dst_qp_map s"
    by (rule destroy_qp_last [OF inv free h p last, of E]) (use free in auto)
  have "finish 3 E h2 (Destroy req) s = (Done (Replied (Some (Flags_Rsp flags))), s')"
    unfolding finish_destroy d by (simp add: replies_def)
  from finish_treach [OF this, where ts = ts and i = j] ts
  obtain t1 where r1: "(tstep E)\<^sup>*\<^sup>* (ts, Some s) (t1, Some s')" and t1: "t1 = ts(j \<mapsto> (h2, Replied (Some (Flags_Rsp flags))))"
    by blast
  let ?t2 = "t1(i \<mapsto> (h1, Modify (Finishing r k n m)))" and ?s1 = "s'\<lparr>held := {HostmapL}\<rparr>"
  have "proceed E h1 (Modify (Waiting r k n)) s' = (Done (Modify (Finishing r k n m)), s'\<lparr>held := {}\<rparr>)"
    using s' m by (simp add: dst_lookup_def acquire_def release_def)
  then have f: "finish 1 E h1 (Modify (Waiting r k n)) s' = (Done (Modify (Finishing r k n m)), s')"
    using s'(2) by simp
  have "t1 i = Some (h1, Modify (Waiting r k n))" using t1 ts by simp
  from finish_treach [where ts = t1 and i = i, OF f this] have r2: "(tstep E)\<^sup>*\<^sup>* (t1, Some s') (?t2, Some s')" .
  have "proceed E h1 (Modify (Finishing r k n m)) s' = (Killed, ?s1)"
    using s' by (simp add: finish_find_def acquire_def)
  then have r3: "tstep E (?t2, Some s') (?t2(i := None), Some ?s1)"
    by (intro tstep.kill [where h = h1 and a = "Modify (Finishing r k n m)"]) simp_all
  have r: "(tstep E)\<^sup>*\<^sup>* (ts, Some s) (?t2(i := None), Some ?s1)"
    using r1 r2 r3 by (meson rtranclp.rtrancl_into_rtrancl rtranclp_trans)
  have "locks_inv (?t2(i := None)) ?s1" using ts(4) t1 by (auto simp: locks_inv_def all_aside_def)
  then have "HostmapL \<in> held s2" if "(tstep E)\<^sup>*\<^sup>* (?t2(i := None), Some ?s1) (ts2, Some s2)" for ts2 s2
    using leaked.reach_keeps [OF that] by simp
  then show ?thesis using r hostmap_blocks by (metis fun_upd_same)
qed

end
