(* ===== verification/Sample.thy ===== *)
theory Sample
  imports Client_Transport Client_Session Verbs_Header End_To_End Startup Locks
begin

text \<open>
  Concrete inputs for the witnesses: a library in which every call succeeds, one in which
  queue pairs cannot be created, the router before its first request and with one or two
  virtual queue pairs attached. Nothing in the other theories depends on them.
\<close>

section \<open>Libraries\<close>

text \<open>The world counts the work requests that were accepted.\<close>

definition good_env :: "nat env" where
  "good_env = \<lparr>
     e_create_cq = (\<lambda>_ _ w. (True, w)),
     e_destroy_cq = (\<lambda>_ w. (0, w)),
     e_create_qp = (\<lambda>_ _ w. (Some 7, w)),
     e_destroy_qp = (\<lambda>_ w. (0, w)),
     e_destroy_comp_channel = (\<lambda>_ w. (0, w)),
     e_modify_qp = (\<lambda>_ _ _ w. (0, w)),
     e_post_send = (\<lambda>_ _ w. (0, Suc w)),
     e_post_recv = (\<lambda>_ _ w. (0, Suc w)),
     e_poll_cq = (\<lambda>_ _ w. ((1, [\<lparr>wc_wr_id = 42, wc_status = 0, wc_opcode = 0, wc_vendor_err = 0\<rparr>]), w)),
     e_reg_mr = (\<lambda>_ _ _ _ w. (Some \<lparr>mr_handle = 1, mr_lkey = 5, mr_rkey = 6\<rparr>, w)),
     e_dereg_mr = (\<lambda>_ w. (0, w)),
     e_readable = (\<lambda>_ _. True),
     e_shm_open = (\<lambda>_ w. (3, w)),
     e_ftruncate = (\<lambda>_ _ w. (0, w)),
     e_mmap = (\<lambda>_ _ w. (0x7000, w)),
     e_close = (\<lambda>_ w. (0, w)),
     e_munmap = (\<lambda>_ _ w. (0, w)),
     e_shm_unlink = (\<lambda>_ w. (0, w)),
     e_getaddrinfo = (\<lambda>_ _ w. ((0, [1]), w)),
     e_socket = (\<lambda>_ w. (4, w)),
     e_connect = (\<lambda>_ _ w. (0, w)),
     e_send = (\<lambda>_ _ w. (24, w)),
     e_iface_addr = (\<lambda>_ w. (0x0100000A, w))\<rparr>"

definition no_qp_env :: "nat env" where
  "no_qp_env = good_env\<lparr>e_create_qp := (\<lambda>_ _ w. (None, w))\<rparr>"

definition refusing_env :: "nat env" where
  "refusing_env = good_env\<lparr>e_post_send := (\<lambda>_ _ w. (22, w)), e_modify_qp := (\<lambda>_ _ _ w. (22, w))\<rparr>"

lemmas env_defs = good_env_def no_qp_env_def refusing_env_def

section \<open>Routers\<close>

definition sample_config :: config_t where
  "sample_config = \<lparr>cf_ib_port = 1, cf_gid_idx = 3, cf_disable_rdma = 1\<rparr>"

definition sample_device :: ibv_device where
  "sample_device = \<lparr>dv_node_type = 1, dv_transport_type = 0, dv_name = [109, 108], dv_dev_name = [117],
     dv_dev_path = [47], dv_ibdev_path = [47, 47]\<rparr>"

definition sample_port :: ibv_port_attr where
  "sample_port = \<lparr>pa_state = 4, pa_max_mtu = 5, pa_active_mtu = 3, pa_gid_tbl_len = 8, pa_port_cap_flags = 0,
     pa_max_msg_sz = 0x40000000, pa_bad_pkey_cntr = 0, pa_qkey_viol_cntr = 0, pa_pkey_tbl_len = 1, pa_lid = 0,
     pa_sm_lid = 0, pa_lmc = 0, pa_max_vl_num = 1, pa_sm_sl = 0, pa_subnet_timeout = 0, pa_init_type_reply = 0,
     pa_active_width = 2, pa_active_speed = 4, pa_phys_state = 5, pa_link_layer = 2\<rparr>"

definition gid_a :: gid where "gid_a = replicate 16 1"
definition gid_b :: gid where "gid_b = replicate 16 2"

definition key_ab :: HostKey where "key_ab = \<lparr>src_gid = gid_a, dst_gid = gid_b\<rparr>"

definition router0 :: "nat router" where
  "router0 = empty_router sample_config sample_device sample_port gid_a 9 0"

text \<open>One connection at address 1, its completion queue and queue pair at 2 and 3.\<close>

definition conn1 :: conn_resources where
  "conn1 = zero_conn\<lparr>cr_ref_cnt := 1, cr_cq := 2, cr_qp := 3\<rparr>"

definition router1 :: "nat router" where
  "router1 = router0\<lparr>next_ptr := 4, host_map := [key_ab \<mapsto> 1], conn_heap := [1 \<mapsto> conn1],
     qp_heap := [3 \<mapsto> \<lparr>qp_num = 7, qp_live = True\<rparr>], src_qp_map := [11 \<mapsto> key_ab],
     lkey_offset_map := [5 \<mapsto> 0x3000]\<rparr>"

definition router2 :: "nat router" where
  "router2 = router1\<lparr>conn_heap := [1 \<mapsto> conn1\<lparr>cr_ref_cnt := 2\<rparr>], src_qp_map := [11 \<mapsto> key_ab, 12 \<mapsto> key_ab]\<rparr>"

lemmas router_defs = router0_def router1_def router2_def empty_router_def conn1_def zero_conn_def

lemma router0_inv: "router_inv router0"
  by (simp add: router0_def empty_router_inv)

lemma router0_pool: "pool_inv router0"
  using router0_inv by (simp add: router_inv_def)

lemma router1_attached: "attached router1 k = (if k = key_ab then {11} else {})"
  by (auto simp: attached_def router1_def split: if_splits)

lemma router2_attached: "attached router2 k = (if k = key_ab then {11, 12} else {})"
  by (auto simp: attached_def router2_def split: if_splits)

lemma router1_pool: "pool_inv router1"
  unfolding pool_inv_def conn_ok_def router1_attached
  by (auto simp: heap_ok_def no_sharing_def router_defs split: if_splits)

lemma router2_pool: "pool_inv router2"
  unfolding pool_inv_def conn_ok_def router2_attached
  by (auto simp: heap_ok_def no_sharing_def router_defs split: if_splits)

lemma router_world0: "world router0 = 0" by (simp add: router_defs)

lemma router_held [simp]: "held router0 = {}" "held router1 = {}" "held router2 = {}"
  by (simp_all add: router_defs)

lemma router_shm: "shm_inv router0" "shm_inv router1" "shm_inv router2"
  by (simp_all add: shm_inv_def shm_slot_def router_defs)

lemma router1_inv: "router_inv router1"
  by (simp add: router_inv_def router1_pool router_shm)

section \<open>Requests\<close>

definition header42 :: ScaleReqHeader where
  "header42 = \<lparr>rh_process_id = 42, rh_func = 0, rh_body_size = 0\<rparr>"

definition modify_req :: "u32 \<Rightarrow> modify_qp_req" where
  "modify_req h = \<lparr>mq_dst_gid = gid_b, mq_dst_lid = 0, mq_dst_v_qp_num = 0x0200000A,
     mq_src_v_qp_num = 0x0100000A, mq_src_v_qp_handle = h, mq_qp_state = 2\<rparr>"

definition zero_port_rsp :: QUERY_PORT_RSP where
  "zero_port_rsp = \<lparr>qr_state = 0, qr_max_mtu = 0, qr_active_mtu = 0, qr_gid_tbl_len = 0, qr_port_cap_flags = 0,
     qr_max_msg_sz = 0, qr_bad_pkey_cntr = 0, qr_qkey_viol_cntr = 0, qr_pkey_tbl_len = 0, qr_lid = 0,
     qr_sm_lid = 0, qr_lmc = 0, qr_max_vl_num = 0, qr_sm_sl = 0, qr_subnet_timeout = 0, qr_init_type_reply = 0,
     qr_active_width = 0, qr_active_speed = 0, qr_phys_state = 0, qr_link_layer = 0\<rparr>"

definition thread_of :: "request \<Rightarrow> thread" where
  "thread_of r = \<lparr>t_header = request_header 42 r, t_n = 12, t_m = 300, t_w = of_nat (rsp_size_of r),
     t_request = r, t_arrivals = [], t_rsp = replicate 255 0, t_port = zero_port_rsp\<rparr>"

text \<open>The only queue pair of the first router is destroyed.\<close>

definition destroy_11 :: destroy_qp_req where
  "destroy_11 = \<lparr>dq_qp_handle = 11, dq_dst_v_qp_num = 0x0200000A\<rparr>"

definition poll_11 :: poll_cq_req where
  "poll_11 = \<lparr>pc_cq_handle = 0, pc_qp_handle = 11, pc_num_entries = 1\<rparr>"

text \<open>
  A poll has found the host pair when its connection is destroyed and another thread attaches
  anew: the poll waits for the new connection, which has no queue pair yet.
\<close>

lemma sample_wait:
  "\<exists>ts s. (tstep good_env)\<^sup>*\<^sup>* ([0 \<mapsto> (header42, Finding (Use_Poll poll_11)), 1 \<mapsto> (header42, Destroy destroy_11),
       2 \<mapsto> (header42, Modify (Start (modify_req 12)))], Some router1) (ts, Some s)
     \<and> ts 0 = Some (header42, Using (Use_Poll poll_11) 4) \<and> held s = {ConnL 4}"
proof -
  let ?u = "Use_Poll poll_11"
  let ?t0 = "[0 \<mapsto> (header42, Finding ?u), 1 \<mapsto> (header42, Destroy destroy_11), 2 \<mapsto> (header42, Modify (Start (modify_req 12)))]"
  have f0: "finish 1 good_env header42 (Finding ?u) router1 = (Done (Found ?u key_ab), router1)"
    by (simp add: find_key_def acquire_def release_def poll_11_def router_defs)
  let ?t1 = "?t0(0 \<mapsto> (header42, Found ?u key_ab))"
  have r1: "(tstep good_env)\<^sup>*\<^sup>* (?t0, Some router1) (?t1, Some router1)"
    by (rule finish_treach [where ts = ?t0 and i = 0, OF f0]) simp
  have last: "attached router1 key_ab = {dq_qp_handle destroy_11}" by (simp add: router1_attached destroy_11_def)
  have m: "src_qp_map router1 (dq_qp_handle destroy_11) = Some key_ab" "host_map router1 key_ab = Some 1"
    "conn_heap router1 1 = Some conn1" "qp_heap router1 (cr_qp conn1) = Some \<lparr>qp_num = 7, qp_live = True\<rparr>"
    by (simp_all add: router_defs destroy_11_def)
  obtain fl s1 where d: "ibv_destroy_qp_h good_env destroy_11 router1 = (Done fl, s1)"
    and s1: "host_map s1 key_ab = None" "held s1 = {}" "next_ptr s1 = 4" "g_src_gid s1 = gid_a"
    by (rule destroy_qp_last [OF router1_pool router_held(2) m last, of good_env]) (auto simp: router_defs)
  have f1: "finish 3 good_env header42 (Destroy destroy_11) router1 = (Done (Replied (Some (Flags_Rsp fl))), s1)"
    unfolding finish_destroy d by (simp add: replies_def)
  let ?t2 = "?t1(1 \<mapsto> (header42, Replied (Some (Flags_Rsp fl))))"
  have r2: "(tstep good_env)\<^sup>*\<^sup>* (?t1, Some router1) (?t2, Some s1)"
    by (rule finish_treach [where ts = ?t1 and i = 1, OF f1]) simp
  let ?s2 = "s1\<lparr>next_ptr := 5, conn_heap := (conn_heap s1)(4 \<mapsto> zero_conn\<lparr>cr_ref_cnt := 1\<rparr>), held := {ConnL 4},
    host_map := (host_map s1)(key_ab \<mapsto> 4)\<rparr>"
  have k: "\<lparr>src_gid = g_src_gid s1, dst_gid = take 16 (mq_dst_gid (modify_req 12))\<rparr> = key_ab"
    using s1 by (simp add: key_ab_def modify_req_def gid_b_def)
  have f2: "finish 1 good_env header42 (Modify (Start (modify_req 12))) s1
      = (Done (Modify (Attached (modify_req 12) key_ab (True, 4, 0))), ?s2)"
    using s1 k by (simp add: host_attach_def acquire_def release_def write_conn_def Let_def)
  let ?t3 = "?t2(2 \<mapsto> (header42, Modify (Attached (modify_req 12) key_ab (True, 4, 0))))"
  have r3: "(tstep good_env)\<^sup>*\<^sup>* (?t2, Some s1) (?t3, Some ?s2)"
    by (rule finish_treach [where ts = ?t2 and i = 2, OF f2]) simp
  have f3: "finish 1 good_env header42 (Found ?u key_ab) ?s2 = (Done (Using ?u 4), ?s2)"
    by (simp add: find_host_conn_def acquire_def release_def)
  have r4: "(tstep good_env)\<^sup>*\<^sup>* (?t3, Some ?s2) (?t3(0 \<mapsto> (header42, Using ?u 4)), Some ?s2)"
    by (rule finish_treach [where ts = ?t3 and i = 0, OF f3]) simp
  have "(tstep good_env)\<^sup>*\<^sup>* (?t0, Some router1) (?t3(0 \<mapsto> (header42, Using ?u 4)), Some ?s2)"
    using r1 r2 r3 r4 by (meson rtranclp_trans)
  then show ?thesis by (intro exI conjI, assumption) simp_all
qed

lemma sample_start:
  "start_ok [0 \<mapsto> (header42, Finding (Use_Poll poll_11)), 1 \<mapsto> (header42, Destroy destroy_11),
     2 \<mapsto> (header42, Modify (Start (modify_req 12)))] router1"
proof -
  let ?t0 = "[0 \<mapsto> (header42, Finding (Use_Poll poll_11)), 1 \<mapsto> (header42, Destroy destroy_11),
    2 \<mapsto> (header42, Modify (Start (modify_req 12)))] :: nat \<rightharpoonup> ScaleReqHeader \<times> activity"
  have cl: "of_thread claim ?t0 = [2 \<mapsto> 12]"
    by (auto simp: of_thread_def fun_eq_iff modify_req_def)
  have dom: "dom ?t0 = {0, 1, 2}" by auto
  have b: "begins a" if "?t0 i = Some (h, a)" for i h a using that by (auto split: if_splits)
  have sm: "src_qp_map router1 = [11 \<mapsto> key_ab]" by (simp add: router1_def)
  show ?thesis
    unfolding start_ok_def cl dom sm using router1_pool b by (auto split: if_splits)
qed

section \<open>One event\<close>

lemma body_sizes: "router_body_size IBV_MODIFY_QP = 36"
  by code_simp

lemma reg_body_size: "router_body_size IBV_REG_MR = 24"
  by code_simp

lemmas run_defs = step_def handle_process_def header_size body_short_def thread_of_def write_rsp_def int_lt_int_def
  int_lt_size_def ssize_lt_size_def handle_case_def ibv_modify_qp_h_def modify_qp_begin_def host_attach_def
  host_materialise_def modify_qp_announce_def update_dst_router_def dst_lookup_def acquire_def release_def
  read_conn_def write_conn_def read_qp_num_def resources_create_def resources_destroy_def destroy_qp_step_def
  modify_req_def env_defs router_defs

abbreviation attach_11 :: event where
  "attach_11 \<equiv> Local (thread_of (Ibv_Modify_Qp (modify_req 11)))"

text \<open>The first virtual queue pair, still waiting for the other router.\<close>

lemma sample_modify_step:
  "\<exists>s. step good_env attach_11 (Some router0) = Some s \<and> host_map s key_ab = Some 1"
  by (simp add: run_defs body_sizes Let_def key_ab_def gid_b_def)

lemma sample_modify_ok: "event_ok attach_11 (Some router0)"
  by (simp add: event_ok_def request_ok_def request_sizes_c_def thread_of_def modify_req_def router_defs)

section \<open>Memory\<close>

text \<open>The second router without its translation.\<close>

definition router1b :: "nat router" where
  "router1b = router1\<lparr>lkey_offset_map := Map.empty\<rparr>"

lemma router1b_inv: "router_inv router1b"
  using router1_pool router_shm(2)
  by (simp add: router_inv_def router1b_def shm_inv_def shm_slot_def slot_ok_def)

definition sample_reg :: reg_mr_req where
  "sample_reg = \<lparr>rm_access_flag = 7, rm_length = 4096, rm_client_addr = 0x10000\<rparr>"

definition sample_reg_rsp :: reg_mr_rsp where
  "sample_reg_rsp = \<lparr>rs_handle = 1, rs_lkey = 5, rs_rkey = 6, rs_shm_name = ''client-42-memsize-4096-index-0'',
     rs_router_mr = 5, rs_router_addr = 0x7000, rs_router_shm_fd = 3\<rparr>"

lemma sample_piece_name: "piece_name 42 4096 0 = ''client-42-memsize-4096-index-0''"
  by (simp add: piece_name_def show_int_def show_nat.simps digit_def char_of_def bit_0)

definition router_reg :: "nat router" where
  "router_reg = router1b\<lparr>next_ptr := 6, shm_map := [42 \<mapsto> [4]], lkey_offset_map := [5 \<mapsto> 0x7000 - 0x10000],
     piece_heap := [4 \<mapsto> \<lparr>sp_name = ''client-42-memsize-4096-index-0'', sp_size = 4096, sp_shm_fd = 3,
       sp_ptr = 0x7000\<rparr>]\<rparr>"

section \<open>Clients\<close>

definition sample_client :: client where
  "sample_client = \<lparr>cl_pid = 42, cl_cq_refcnt = 1, cl_qp_refcnt = 1, cl_cq_qp_map = replicate 1024 0\<rparr>"

definition sample_cq :: ibv_cq where
  "sample_cq = \<lparr>cq_handle = 0x2A0000, cq_cqe = 16\<rparr>"

definition sample_qp :: "u32 \<Rightarrow> scale_qp" where
  "sample_qp h = \<lparr>q_handle = h, q_qp_num = 0x0100000A, q_state = IBV_QPS_INIT, q_send_cq = sample_cq,
     q_recv_cq = sample_cq, q_type = 2, q_dst_v_qp_num = 0\<rparr>"

definition sample_wr :: send_wr where
  "sample_wr = \<lparr>sw_wr_id = 42, sw_opcode = 0, sw_addr = 0x10010, sw_length = 64, sw_lkey = 5,
     sw_remote_addr = 0, sw_rkey = 0\<rparr>"

definition sample_attr :: ibv_qp_attr where
  "sample_attr = zero_qp_attr\<lparr>qa_qp_state := IBV_QPS_RTR, qa_dest_qp_num := 0x0200000A, grh_dgid := gid_b\<rparr>"

text \<open>The first router after the queue pair of \<open>sample_client\<close> was attached, and with the other router's number.\<close>

definition router_poll :: "nat router" where
  "router_poll = router1\<lparr>src_qp_map := [0x2A0000 \<mapsto> key_ab]\<rparr>"

definition router_told :: "nat router" where
  "router_told = router1\<lparr>dst_qp_map := [gid_b \<mapsto> 9]\<rparr>"

lemma router_told_pool: "pool_inv router_told"
proof -
  have "attached router_told k = attached router1 k" for k by (simp add: attached_def router_told_def)
  then show ?thesis
    using router1_pool unfolding pool_inv_def conn_ok_def
    by (simp add: heap_ok_def no_sharing_def router_told_def)
qed

lemma router_poll_pool: "pool_inv router_poll"
proof -
  have "attached router_poll k = (if k = key_ab then {0x2A0000} else {})" for k
    by (auto simp: attached_def router_poll_def split: if_splits)
  then show ?thesis
    unfolding pool_inv_def conn_ok_def
    by (auto simp: heap_ok_def no_sharing_def router_poll_def router_defs split: if_splits)
qed

lemma router_poll_handle: "pc_qp_handle (poll_req_of sample_client sample_cq 1) = 0x2A0000"
  by (simp add: poll_req_of_def sample_client_def sample_cq_def low_word_def make_handle_def)

lemma router_poll_fields [simp]:
  "held router_poll = {}" "world router_poll = 0" "src_qp_map router_poll = [0x2A0000 \<mapsto> key_ab]"
  "host_map router_poll = [key_ab \<mapsto> 1]" "conn_heap router_poll = [1 \<mapsto> conn1]"
  by (simp_all add: router_poll_def router_defs)

section \<open>Sockets of a client\<close>

text \<open>
  Complete writes, and a stream that gives at most ten bytes a time, none at all, or a
  \<open>write\<close> that fails.
\<close>

definition pieces_cenv :: "nat cenv" where
  "pieces_cenv = \<lparr>c_socket = (\<lambda>w. (3, w)), c_connect = (\<lambda>_ w. (0, w)),
     c_write = (\<lambda>_ bs w. (of_nat (length bs), w)), c_read = (\<lambda>_ n w. (Some (replicate (min n 10) 7), w)),
     c_close = (\<lambda>_ w. (0, w)), c_getpid = 42\<rparr>"

definition eof_cenv :: "nat cenv" where
  "eof_cenv = pieces_cenv\<lparr>c_read := (\<lambda>_ _ w. (Some [], w))\<rparr>"

definition broken_cenv :: "nat cenv" where
  "broken_cenv = pieces_cenv\<lparr>c_write := (\<lambda>_ _ w. (-1, w))\<rparr>"

lemmas cenv_defs = pieces_cenv_def eof_cenv_def broken_cenv_def

section \<open>Starts\<close>

text \<open>One device, with \<open>epoll_create\<close> giving a descriptor or failing.\<close>

definition sample_lenv :: "nat lenv" where
  "sample_lenv = \<lparr>l_get_device_list = (\<lambda>w. (Some [''mlx5_0''], w)), l_open_device = (\<lambda>_ w. (True, w)),
     l_query_port = (\<lambda>_ w. ((0, sample_port), w)), l_query_gid = (\<lambda>_ _ w. ((0, gid_a), w)),
     l_alloc_pd = (\<lambda>w. (True, w)), l_epoll_create = (\<lambda>w. (6, w)), l_dealloc_pd = (\<lambda>w. (0, w)),
     l_close_device = (\<lambda>w. (0, w)), l_close = (\<lambda>_ w. (0, w))\<rparr>"

definition no_epoll_lenv :: "nat lenv" where
  "no_epoll_lenv = sample_lenv\<lparr>l_epoll_create := (\<lambda>w. (-1, w))\<rparr>"

definition sample_global :: global_resources where
  "sample_global = \<lparr>gr_ib_list = True, gr_dev = Some 0, gr_ctx = True, gr_pd = True, gr_epoll_fd = 6,
     gr_port_attr = sample_port, gr_src_lid = 0, gr_src_gid = gid_a\<rparr>"

lemma sample_init:
  "init_global_res sample_lenv default_options 0 []
     = (0, default_options\<lparr>o_dev_name := Some ''mlx5_0''\<rparr>, sample_global, 0, [])"
  by (simp add: init_global_res_def init_device_def sample_lenv_def default_options_def sample_global_def sample_port_def
      zero_global_def)

text \<open>Sockets that open, and threads that are created with the results of \<open>r\<close>.\<close>

definition sample_penv :: "nat lenv \<Rightarrow> (listener \<Rightarrow> int) \<Rightarrow> nat penv" where
  "sample_penv L r = \<lparr>p_lib = L,
     p_unix = \<lparr>u_socket = (\<lambda>w. (3, w)), u_unlink = (\<lambda>w. w), u_bind = (\<lambda>_ w. (0, w)), u_listen = (\<lambda>_ w. (0, w)),
       u_close = (\<lambda>_ w. w)\<rparr>,
     p_inet = \<lparr>s_getaddrinfo = (\<lambda>w. (Inr [1], w)), s_socket = (\<lambda>_ w. (4, w)), s_setsockopt = (\<lambda>_ w. (0, w)),
       s_bind = (\<lambda>_ _ w. (0, w)), s_listen = (\<lambda>_ w. (0, w))\<rparr>,
     p_create = (\<lambda>l w. (r l, w))\<rparr>"

lemma sample_create: "p_create (sample_penv L r) l w = (r l, w)"
  by (simp add: sample_penv_def)

lemma sample_open_local: "open_local (p_unix (sample_penv L r)) w = (Some 3, w)"
  by (simp add: sample_penv_def open_local_def)

lemma sample_open_remote: "open_remote (p_inet (sample_penv L r)) w = (Done (Some 4), w)"
  by (simp add: sample_penv_def open_remote_def)

lemma router_reg_shm: "shm_inv router_reg"
  by (auto simp: shm_inv_def shm_slot_def slot_ok_def router_reg_def router1b_def router_defs
      split: if_splits option.splits intro!: exI [of _ 4096] sample_piece_name [symmetric])

section \<open>A registration\<close>

text \<open>A registration of the sample client, the kernel granting every call.\<close>

definition sample_csys :: "nat csys" where
  "sample_csys = \<lparr>k_shm_open = (\<lambda>name w. (4, w + 1)), k_ftruncate = (\<lambda>fd len w. (0, w + 1)),
     k_mmap_fixed = (\<lambda>addr len fd w. (addr, w + 1))\<rparr>"

definition sample_mr :: scale_mr where
  "sample_mr = \<lparr>sm_addr = 0x10000, sm_length = 4096, sm_handle = 1, sm_lkey = 5, sm_rkey = 6,
     sm_shm_name = ''client-42-memsize-4096-index-0'', sm_router_mr = 5, sm_router_addr = 0x7000,
     sm_router_shm_fd = 3\<rparr>"

lemma sample_client_reg:
  "client_reg_mr (on_host sample_csys) (router_call good_env 42 [] [] zero_port_rsp) 0x10000 4096 7 router1b
     = (Ret (Some sample_mr), router_reg\<lparr>world := 3\<rparr>)"
proof -
  let ?h = "request_header 42 (Ibv_Reg_Mr sample_reg)"
  have r: "ibv_reg_mr_h good_env ?h sample_reg router1b = (Done sample_reg_rsp, router_reg)"
    by (simp add: ibv_reg_mr_h_def addShmPiece_def ShmPiece_open_def new_ShmPiece_def acquire_def release_def Let_def
        lkey_insert_def lkey_find_def sample_reg_def sample_reg_rsp_def router_reg_def router1b_def router_defs
        good_env_def sample_piece_name MAP_FAILED_def)
  have "router_call good_env 42 [] [] zero_port_rsp (Ibv_Reg_Mr sample_reg) router1b = Some (Some (Mr_Rsp sample_reg_rsp), router_reg)"
    by (simp add: router_call_case handle_case_def replies_def r)
  then show ?thesis
    by (simp add: client_reg_mr_def sample_reg_def sample_reg_rsp_def on_host_def sample_csys_def sample_mr_def Let_def
        MAP_FAILED_def router_reg_def router1b_def router_defs)
qed

text \<open>Then a second virtual queue pair is attached to the host pair.\<close>

abbreviation attach_12 :: event where
  "attach_12 \<equiv> Local (thread_of (Ibv_Modify_Qp (modify_req 12)))"

lemma sample_attach_12:
  "\<exists>s. run_steps (step good_env) [attach_12] (Some (router_reg\<lparr>world := 3\<rparr>)) = Some s"
  by (simp add: run_defs body_sizes Let_def key_ab_def gid_b_def router_reg_def router1b_def)

lemma sample_attach_ok: "run_ok (step good_env) event_ok [attach_12] (Some (router_reg\<lparr>world := 3\<rparr>))"
  by (simp add: event_ok_def request_ok_def request_sizes_c_def thread_of_def modify_req_def router_reg_def router1b_def
      router_defs)

lemma sample_attach_host:
  "fold pool_spec [attach_12] (pool_of (Some (router_reg\<lparr>world := 3\<rparr>))) (q_handle (sample_qp 12)) = Some gid_b"
  by (simp add: pool_spec_def thread_of_def int_lt_size_def ssize_lt_size_def body_short_def body_sizes modify_req_def sample_qp_def
      gid_b_def)

end
