(* ===== verification/Spec2Isabelle.thy ===== *)
theory Spec2Isabelle
  imports Sample
begin

text \<open>
  A verification library for scalerouter and libscale: RDMA queue pairs for many processes over
  few connections of the host.

  \<^bold>\<open>The program.\<close> A process that links libscale (\<open>src/libscale\<close>)
  calls the verbs of \<open>verbs.c\<close>, an imitation of libibverbs. Each call becomes one
  request over a new UNIX socket (\<open>request_router\<close> in \<open>scale.c\<close>) to the
  router of the host (\<open>src/scalerouter\<close>), which serves each connection in a thread of
  its own (\<open>handle_process\<close> in \<open>scalerouter.cpp\<close>) and holds the real RDMA
  objects. Virtual queue pairs that lead to the same pair of hosts share one physical queue pair, a
  \<open>conn_resources\<close> that is found through \<open>src_qp_map\<close> and
  \<open>host_map\<close> and is freed with its last reference. Routers tell each other the numbers
  of their physical queue pairs over TCP (\<open>update_dst_router\<close>,
  \<open>handle_remote_router\<close>). The memory of a client is a segment of shared memory that
  the router maps too; an address of the client becomes one of the router by an offset that is
  looked up by \<open>lkey\<close>.

  \<^bold>\<open>The theories.\<close>

  \<^item> \<open>Prelude\<close>: C integers as words, comparisons of signed counts with unsigned sizes, decimal
    printing, the locales \<open>invariant_system\<close> and \<open>thread_system\<close> of what runs of events and
    steps of threads keep.
  \<^item> \<open>Wire\<close>, \<open>Wire_Structs\<close>, \<open>Protocol\<close>: the structs of \<open>scale_type.h\<close> (suffix \<open>_c\<close>) and of
    \<open>common.h\<close> (suffix \<open>_r\<close>) with size, alignment and offsets, the call numbers, and the sizes
    and buffers of both sides.
  \<^item> \<open>Keys\<close>: the keys of the hash tables with their equality and hash functions.
  \<^item> \<open>Router_State\<close>: the router as a record (its tables, the mutexes that are locked, the heap),
    the library calls as a record of functions \<open>env\<close> over a world, and the results of a handler:
    \<open>Done\<close>, \<open>Killed\<close> (the label \<open>kill\<close>: the socket is closed without an answer), \<open>Blocked\<close> (it
    waits for a mutex that nobody will release), \<open>Fault\<close> (it goes through a bad pointer).
  \<^item> \<open>Conn_Res\<close>, \<open>Remote\<close>, \<open>Shm\<close>: physical connections and the way of a queue pair to RTS; the
    messages between routers; the segments of shared memory and their names.
  \<^item> \<open>Qp_Handlers\<close>, \<open>Qp_Pool\<close>, \<open>Qp_Props\<close>, \<open>Qp_Destroy\<close>: the cases \<open>IBV_CREATE_QP\<close>,
    \<open>IBV_MODIFY_QP\<close>, \<open>IBV_DESTROY_QP\<close> and \<open>IBV_DESTROY_CQ\<close>, the invariant of the pool of
    connections and that every branch keeps it.
  \<^item> \<open>Mr_Handlers\<close>, \<open>Data_Path\<close>, \<open>Queries\<close>, \<open>Legacy\<close>: the other cases. The table of offsets is the
    locale \<open>offset_table\<close>, interpreted on the router's map.
  \<^item> \<open>Frames\<close>, \<open>Dispatch\<close>, \<open>Refinement\<close>: what handlers leave alone; \<open>handle_process\<close> and the
    router as a system of events (interpretation \<open>router\<close> of \<open>invariant_system\<close>); the abstract
    pool, a map from handles to hosts, which the router implements (locale \<open>simulation\<close>,
    interpretation \<open>pool\<close>).
  \<^item> \<open>Interleave\<close>, \<open>Threads\<close>: the critical sections of \<open>IBV_MODIFY_QP\<close> and of the other requests on
    queue pairs, and any number of threads as a step relation, \<open>tstep\<close>; a thread that runs alone is
    the handler. A message of another router can arrive between any two sections.
  \<^item> \<open>Ledger\<close>, \<open>Thread_Inv\<close>: who refers to which connection, as a bookkeeping of its own with one
    lemma per kind of change, and the proof that every critical section is one of these changes,
    so that reference counts are exact in every reachable state.
  \<^item> \<open>Locks\<close>: which mutexes are locked between two critical sections, and that no threads wait for
    each other.
  \<^item> \<open>Client_Transport\<close>, \<open>Client_Verbs\<close>, \<open>Client_Session\<close>, \<open>End_To_End\<close>: \<open>request_router\<close> on
    bytes, the verbs over a transport of typed requests, a client that makes many queue pairs, and
    the verbs with the router behind them.
  \<^item> \<open>Verbs_Header\<close>: the contexts of \<open>verbs.h\<close> and its inline functions, and what they do with a
    context that libscale opened.
  \<^item> \<open>Lifecycle\<close>, \<open>Startup\<close>: command line and global resources; the two listening threads with
    their sockets and accept loops, \<open>start\<close> and the destructor.
  \<^item> \<open>Sample\<close>: concrete libraries, routers and clients for the witnesses.

  \<^bold>\<open>What the properties show.\<close> For calls of libscale (\<open>request_ok\<close>:
  a queue pair is modified to RTR once, and there is room for one more reference and one more
  segment) the invariants hold over every run in which the router does not crash: reference counts
  are exact, connections in use have a live queue pair, segments are distinct and no mutex stays
  locked. The abstract pool says which queue pair is attached where. When the handlers are
  interleaved the reference counts stay exact, the mutexes do not deadlock and the destruction of a
  queue pair never goes through a bad pointer, but a post, a poll or a second attachment can. A
  buffer that libscale registers is sent from the router's mapping of it, on the live queue pair for
  the host that the sender was attached to, and a poll asks for the queue pair of its completion
  queue. The two headers agree. Further properties state what the code does where it does not do
  what it means to: crashes, requests that hang, locks that stay locked, errors that go unnoticed, a
  start that fails.

  \<^bold>\<open>Choices.\<close> C++ hash maps are partial maps: equality of keys is proved to be
  equality of their members (\<open>HostKey_eq_iff\<close>, \<open>ConnId_eq_iff\<close> in
  \<open>Keys\<close>), and \<open>HostKey_hash_stable\<close> and
  \<open>HostKey_hash_overrun\<close> say when the hash of a \<open>HostKey\<close> depends on the
  key alone, as a map needs. Requests and replies are typed inside the router; that both sides lay
  them out in the same bytes is \<open>Protocol\<close>. A GID is its 16 bytes. Handlers run from
  beginning to end in \<open>Dispatch\<close>, with messages of other routers between the turns of
  the waiting loop (\<open>arrivals\<close>); threads are interleaved in \<open>Interleave\<close>
  and \<open>Threads\<close>. The read loop of the client is a \<open>partial_function\<close>:
  \<open>None\<close> says that it does not end. The waiting loop of \<open>IBV_MODIFY_QP\<close>
  runs over the finite list of messages that arrive; \<open>Done None\<close> says that it has not
  ended with them, and \<open>dst_wait_awaited\<close> says which lists end it. No other fuel is
  used. Addresses come from a counter, so freed memory is not reused; a read of a queue pair that
  was freed is counted in \<open>freed_reads\<close>. In \<open>start\<close> a listening thread
  opens its socket as soon as it is created; its accept loop never ends, so that joining it makes
  the router \<open>Serving\<close>.

  \<^bold>\<open>What the code relies on.\<close> libibverbs, POSIX shared memory and sockets are
  parameters. Hypotheses about them are that \<open>ibv_poll_cq\<close> returns the number of
  completions it has written, at most the number it was asked for, and the results of single calls
  in the cases of a property.

  \<^bold>\<open>Not modelled.\<close> \<open>verbs.h\<close> is a copy of the header of libibverbs;
  its inline functions are here, and of its declarations the structs and constants the program uses.
  Logging and printing (\<open>log.h\<close>, \<open>print_config\<close>,
  \<open>print_conn_info\<close>, \<open>print_conn_id\<close>, \<open>usage\<close>) are output,
  \<open>worker_process\<close> and \<open>init_unix_sock\<close> are empty, and
  \<open>verbs_api_test.c\<close> needs hardware. The contents of client memory, memory that is
  leaked inside a process, and interleavings with the requests of the first interface, which
  libscale does not use, are left out. Requests that touch nothing of the pool of connections run in
  one step of \<open>Threads\<close>. \<close>

unbundle bit_operations_syntax

section \<open>Runs of the router\<close>





text \<open>
  C3. The reference counts are exact at every moment of any interleaving of requests on queue
  pairs: whatever threads were started and however their critical sections follow one another,
  a connection counts the attached virtual queue pairs of its host pair and the threads that
  are about to attach one or have just detached one, and a host pair without these has none.
\<close>

theorem ref_count_exact_interleaved:
  assumes "start_ok ts s" and "(tstep E)\<^sup>*\<^sup>* (ts, Some s) (ts', Some s')"
  shows "case host_map s' k of
      None \<Rightarrow> attached s' k = {} \<and> {i. of_thread pending ts' i = Some k} = {}
    | Some p \<Rightarrow> \<exists>c. conn_heap s' p = Some c
        \<and> unat (cr_ref_cnt c) = card (attached s' k) + card {i. of_thread pending ts' i = Some k} \<and> 0 < cr_ref_cnt c"
  by (rule ref_count_interleaved [OF assms])

theorem ref_count_exact_interleaved_witness:
  "\<exists>s c. (tstep good_env)\<^sup>*\<^sup>* ([0 \<mapsto> (header42, Destroy destroy_11)], Some router1)
       ([0 \<mapsto> (header42, Detached destroy_11 key_ab)], Some s)
     \<and> attached s key_ab = {} \<and> conn_heap s 1 = Some c \<and> unat (cr_ref_cnt c) = 1"
proof -
  let ?s = "router1\<lparr>src_qp_map := Map.empty\<rparr>"
  have "finish 1 good_env header42 (Destroy destroy_11) router1 = (Done (Detached destroy_11 key_ab), ?s)"
    by (simp add: destroy_detach_def acquire_def release_def destroy_11_def router_defs)
  from finish_treach [OF this, where ts = "[0 \<mapsto> (header42, Destroy destroy_11)]" and i = 0]
  have r: "(tstep good_env)\<^sup>*\<^sup>* ([0 \<mapsto> (header42, Destroy destroy_11)], Some router1)
      ([0 \<mapsto> (header42, Detached destroy_11 key_ab)], Some ?s)" by simp
  have st: "start_ok [0 \<mapsto> (header42, Destroy destroy_11)] router1"
    using router1_pool by (auto simp: start_ok_def of_thread_def router_defs ran_def split: if_splits)
  have p: "host_map ?s key_ab = Some 1" "attached ?s key_ab = {}" by (simp_all add: router1_def attached_def)
  have "{i :: nat. of_thread pending [0 \<mapsto> (header42, Detached destroy_11 key_ab)] i = Some key_ab} = {0}"
    by (auto simp: of_thread_def split: if_splits)
  then show ?thesis
    using ref_count_exact_interleaved [OF st r, of key_ab] r p by auto
qed



section \<open>The client and the router together\<close>



text \<open>
  C6. A poll of libscale that returns hands the caller only successful completions that carry
  its own process id, and as many as the library had.
\<close>

theorem client_poll_own:
  assumes inv: "pool_inv s" and free: "held s = {}"
    and lt: "unat (low_word (cq_handle cq)) < length (cl_cq_qp_map cl)"
    and h: "src_qp_map s (pc_qp_handle (poll_req_of cl cq 1)) = Some k"
    and p: "host_map s k = Some p" "conn_heap s p = Some c"
    and call: "e_poll_cq E (cr_cq c) 1 (world s) = ((int (length wcs), wcs), w)" "length wcs \<le> 1"
    and ret: "client_poll_cq (router_call E (cl_pid cl) arrivals buf port) cl cq 1 wc s = (Ret (n, wc'), s')"
  shows "n = int (length wcs) \<and> s' = s\<lparr>world := w\<rparr>
    \<and> (\<forall>e \<in> set wcs. wc_status e = IBV_WC_SUCCESS \<and> wc_wr_id e = scast (cl_pid cl) \<and> wc_wr_id wc' = wc_wr_id e)"
  by (rule client_poll_end_to_end [OF assms])

theorem client_poll_own_witness:
  "\<exists>wc' s'. client_poll_cq (router_call good_env (cl_pid sample_client) [] [] zero_port_rsp) sample_client
       sample_cq 1 zero_wc router_poll = (Ret (1, wc'), s') \<and> wc_wr_id wc' = 42"
proof -
  let ?call = "client_poll_cq (router_call good_env (cl_pid sample_client) [] [] zero_port_rsp) sample_client
       sample_cq 1 zero_wc router_poll"
  let ?wc = "\<lparr>wc_wr_id = 42, wc_status = 0, wc_opcode = 0, wc_vendor_err = 0\<rparr> :: ibv_wc"
  have h: "held router_poll = {}" "unat (low_word (cq_handle sample_cq)) < length (cl_cq_qp_map sample_client)"
    "src_qp_map router_poll (pc_qp_handle (poll_req_of sample_client sample_cq 1)) = Some key_ab"
    "host_map router_poll key_ab = Some 1" "conn_heap router_poll 1 = Some conn1"
    "e_poll_cq good_env (cr_cq conn1) 1 (world router_poll) = ((int (length [?wc]), [?wc]), 0)"
    unfolding router_poll_handle
    by (simp_all add: sample_cq_def sample_client_def low_word_def good_env_def)
  have "ibv_poll_cq_h good_env hd (poll_req_of sample_client sample_cq 1) router_poll =
     (Done \<lparr>pp_count = 1, pp_wr_id = 42, pp_opcode = 0, pp_status = 0, pp_vendor_err = 0\<rparr>, router_poll\<lparr>world := 0\<rparr>)"
    if "rh_process_id hd = 42" for hd
    by (subst ibv_poll_cq_eq [OF router_poll_pool h(1,3,4,5), where wcs = "[?wc]" and w = 0])
      (use that in \<open>simp_all add: poll_req_of_def good_env_def IBV_WC_SUCCESS_def\<close>)
  then obtain n wc' s' where r: "?call = (Ret (n, wc'), s')"
    using h(2)
    by (auto simp: client_poll_cq_def request_def router_call_case handle_case_def replies_def sample_client_def Let_def)
  have "n = int (length [?wc]) \<and> s' = router_poll\<lparr>world := 0\<rparr>
      \<and> (\<forall>e \<in> set [?wc]. wc_status e = IBV_WC_SUCCESS \<and> wc_wr_id e = scast (cl_pid sample_client) \<and> wc_wr_id wc' = wc_wr_id e)"
    by (rule client_poll_own [OF router_poll_pool h _ r]) simp
  then show ?thesis using r by simp
qed

text \<open>
  C7. A client that makes one completion queue and queue pair after the other, up to 1024, and
  the router agree: every pair is made, the queue pairs have different handles, and polling the
  completion queue of a pair asks the router for the queue pair it has entered for it.
\<close>

theorem session_polls_own_qp:
  assumes "make_pairs (router_call E (cl_pid cl) arrivals buf port) xs cl s = (ps, cl', s')"
    and "length (cl_cq_qp_map cl) = 1024" and "unat (cl_cq_refcnt cl) + length xs \<le> 1024"
    and "held s = {}" and "\<forall>i < length xs. cq_qp_map s (make_handle (cl_pid cl) (cl_cq_refcnt cl + of_nat i)) = None"
  shows "length ps = length xs \<and> distinct (map (q_handle \<circ> snd) ps)
    \<and> (\<forall>(cq, qp) \<in> set ps. cq_qp_map s' (cq_handle cq) = Some (q_handle qp)
        \<and> pc_qp_handle (poll_req_of cl' cq n) = q_handle qp)"
  using make_pairs_router [OF assms] polls_own_pair [OF assms(1-3), of n] by (auto simp: list_all_iff)

theorem session_polls_own_qp_witness:
  "\<exists>ps cl' s'. make_pairs (router_call good_env (cl_pid sample_client) [] [] zero_port_rsp) [(16, 2), (32, 2)] sample_client router0
       = (ps, cl', s') \<and> length ps = 2
     \<and> (\<forall>(cq, qp) \<in> set ps. pc_qp_handle (poll_req_of cl' cq 1) = q_handle qp)"
proof -
  obtain ps cl' s' where m: "make_pairs (router_call good_env (cl_pid sample_client) [] [] zero_port_rsp) [(16, 2), (32, 2)]
      sample_client router0 = (ps, cl', s')" by (metis prod_cases3)
  have "length ps = length [(16 :: int, 2 :: u32), (32, 2)] \<and> distinct (map (q_handle \<circ> snd) ps)
    \<and> (\<forall>(cq, qp) \<in> set ps. cq_qp_map s' (cq_handle cq) = Some (q_handle qp)
        \<and> pc_qp_handle (poll_req_of cl' cq 1) = q_handle qp)"
    by (rule session_polls_own_qp [OF m]) (simp_all add: sample_client_def router_defs)
  then show ?thesis using m by auto
qed

section \<open>The pool of connections\<close>

text \<open>
  C8. Modifying a queue pair that is not attached yet, on a router with all mutexes free:
  whether it is answered, killed or still waiting, the pool invariant holds, the handle is
  attached to its host pair and no mutex stays locked; it goes through a bad pointer only
  where the host pair had no connection.
\<close>

theorem modify_keeps_pool:
  assumes inv: "pool_inv s" and free: "held s = {}"
    and h: "src_qp_map s (mq_src_v_qp_handle req) = None"
    and room: "card (dom (src_qp_map s)) < 2 ^ 32 - 1"
  shows "post
     (\<lambda>_ s'. pool_inv s' \<and> held s' = {}
        \<and> src_qp_map s' = (src_qp_map s)(mq_src_v_qp_handle req \<mapsto> modify_key s req))
     (\<lambda>s'. pool_inv s' \<and> held s' = {}
        \<and> src_qp_map s' = (src_qp_map s)(mq_src_v_qp_handle req \<mapsto> modify_key s req))
     (\<lambda>s'. host_map s (modify_key s req) = None) (ibv_modify_qp_h E header req arrivals s)"
  by (rule ibv_modify_qp_pool [OF assms])

theorem modify_keeps_pool_witness:
  "\<exists>r s'. ibv_modify_qp_h good_env header42 (modify_req 12) [] router1 = (r, s') \<and> r \<noteq> Fault \<and> pool_inv s' \<and> held s' = {}"
proof -
  have h: "src_qp_map router1 (mq_src_v_qp_handle (modify_req 12)) = None" "card (dom (src_qp_map router1)) < 2 ^ 32 - 1"
    "host_map router1 (modify_key router1 (modify_req 12)) \<noteq> None"
    by (simp_all add: router_defs modify_req_def modify_key_def key_ab_def gid_b_def)
  show ?thesis
    using modify_keeps_pool [OF router1_pool router_held(2) h(1,2), of good_env header42 "[]"] h(3)
    by (cases "ibv_modify_qp_h good_env header42 (modify_req 12) [] router1" rule: outcome_cases) auto
qed

text \<open>
  C9. Attaching to a host pair that has a connection shares it: the reference count goes up by
  one, the number of the queue pair that is there is announced, no library object is made, and
  the connection allocated in advance is given back.
\<close>

theorem attach_shares_connection:
  assumes "pool_inv s" and "host_map s k = Some p"
    and "HostmapL \<notin> held s" "ConnL (next_ptr s) \<notin> held s"
    and "conn_heap s p = Some c" "qp_heap s (cr_qp c) = Some q"
  shows "andthen (host_attach k s) (host_materialise E) =
    (Done (qp_num q), s\<lparr>next_ptr := Suc (next_ptr s),
       conn_heap := (conn_heap s)(p \<mapsto> c\<lparr>cr_ref_cnt := cr_ref_cnt c + 1\<rparr>)\<rparr>)"
  by (rule attach_existing [OF assms])

theorem attach_shares_connection_witness:
  "andthen (host_attach key_ab router1) (host_materialise no_qp_env) =
    (Done 7, router1\<lparr>next_ptr := 5, conn_heap := (conn_heap router1)(1 \<mapsto> conn1\<lparr>cr_ref_cnt := 2\<rparr>)\<rparr>)"
proof -
  have m: "host_map router1 key_ab = Some 1" "HostmapL \<notin> held router1" "ConnL (next_ptr router1) \<notin> held router1"
    "conn_heap router1 1 = Some conn1" "qp_heap router1 (cr_qp conn1) = Some \<lparr>qp_num = 7, qp_live = True\<rparr>"
    by (simp_all add: router_defs)
  then show ?thesis
    using attach_shares_connection [OF router1_pool m, of no_qp_env] by (simp add: router_defs)
qed

text \<open>
  C10. Attaching to a host pair that has none makes a completion queue and a queue pair, enters
  the connection with one reference and answers the number of the new queue pair; when
  \<open>ibv_create_qp\<close> fails, the failure is only logged and the handler reads through \<open>NULL\<close>.
\<close>

theorem attach_makes_connection:
  assumes inv: "pool_inv s" and k: "host_map s k = None"
    and free: "HostmapL \<notin> held s" "ConnL (next_ptr s) \<notin> held s"
    and cq: "e_create_cq E (Suc (next_ptr s)) MAX_CQ_SIZE (world s) = (True, w1)"
    and qp: "e_create_qp E (Suc (Suc (next_ptr s))) (qp_init_attr_of (Suc (next_ptr s))) w1 = (qn, w2)"
  shows "case qn of
      None \<Rightarrow> fst (andthen (host_attach k s) (host_materialise E)) = Fault
    | Some n \<Rightarrow> andthen (host_attach k s) (host_materialise E) =
        (Done n, s\<lparr>next_ptr := next_ptr s + 3, host_map := (host_map s)(k \<mapsto> next_ptr s),
           conn_heap := (conn_heap s)(next_ptr s \<mapsto>
             zero_conn\<lparr>cr_ref_cnt := 1, cr_cq := next_ptr s + 1, cr_qp := next_ptr s + 2\<rparr>),
           qp_heap := (qp_heap s)(next_ptr s + 2 \<mapsto> \<lparr>qp_num = n, qp_live = True\<rparr>), world := w2\<rparr>)"
  using k free cq qp pool_next_ptr(6) [OF inv]
  by (simp add: host_attach_def host_materialise_def acquire_def release_def read_conn_def write_conn_def
      read_qp_num_def resources_create_def resources_destroy_def destroy_qp_step_def zero_conn_def Let_def
      insert_Diff_if eval_nat_numeral split: option.split prod.split)

theorem attach_makes_connection_witness:
  "fst (andthen (host_attach key_ab router0) (host_materialise good_env)) = Done 7
   \<and> fst (andthen (host_attach key_ab router0) (host_materialise no_qp_env)) = Fault"
proof -
  have m: "host_map router0 key_ab = None" "HostmapL \<notin> held router0" "ConnL (next_ptr router0) \<notin> held router0"
    by (simp_all add: router_defs)
  note attach = attach_makes_connection [OF router0_pool m]
  show ?thesis
    using attach [where E = good_env and ?w1.0 = 0 and qn = "Some 7" and ?w2.0 = 0]
      attach [where E = no_qp_env and ?w1.0 = 0 and qn = None and ?w2.0 = 0]
    by (simp add: env_defs router_defs)
qed

text \<open>
  C11. A virtual queue pair that shares its connection leaves: it is forgotten, the reference
  count goes down to the number of the others, and connection and queue pair stay.
\<close>

theorem destroy_leaves_shared:
  assumes inv: "pool_inv s" and free: "held s = {}"
    and h: "src_qp_map s (dq_qp_handle req) = Some k" and p: "host_map s k = Some p" "conn_heap s p = Some c"
    and others: "{h. src_qp_map s h = Some k} \<noteq> {dq_qp_handle req}"
  shows "ibv_destroy_qp_h E req s =
      (Done 1, s\<lparr>src_qp_map := (src_qp_map s)(dq_qp_handle req := None),
         conn_heap := (conn_heap s)(p \<mapsto> c\<lparr>cr_ref_cnt := cr_ref_cnt c - 1\<rparr>)\<rparr>)
    \<and> unat (cr_ref_cnt c - 1) = card ({h. src_qp_map s h = Some k} - {dq_qp_handle req})
    \<and> cr_ref_cnt c - 1 \<noteq> 0"
proof -
  have o: "attached s k \<noteq> {dq_qp_handle req}" using others by (simp add: attached_def)
  note sh = destroy_qp_shared [OF inv free h p o]
  have "unat (cr_ref_cnt c - 1) \<noteq> 0" using sh(2,3) by simp
  then show ?thesis using sh(1) [of E] sh(2) unfolding attached_def by auto
qed

theorem destroy_leaves_shared_witness:
  "\<exists>s'. ibv_destroy_qp_h good_env \<lparr>dq_qp_handle = 12, dq_dst_v_qp_num = 0x0200000A\<rparr> router2 = (Done 1, s')
     \<and> src_qp_map s' = [11 \<mapsto> key_ab] \<and> host_map s' key_ab = Some 1"
proof -
  let ?req = "\<lparr>dq_qp_handle = 12, dq_dst_v_qp_num = 0x0200000A\<rparr>"
  have o: "{h. src_qp_map router2 h = Some key_ab} \<noteq> {dq_qp_handle ?req}"
    using router2_attached [of key_ab] by (simp add: attached_def)
  have m: "src_qp_map router2 (dq_qp_handle ?req) = Some key_ab" "host_map router2 key_ab = Some 1"
    "conn_heap router2 1 = Some (conn1\<lparr>cr_ref_cnt := 2\<rparr>)" by (simp_all add: router_defs)
  show ?thesis
    using destroy_leaves_shared [OF router2_pool router_held(3) m o, of good_env] by (auto simp: router_defs)
qed



section \<open>Waiting and racing\<close>

text \<open>
  C13. Two threads that modify queue pairs of the same new host pair can crash the router: in
  some order of their critical sections the second one reads the number of a queue pair that
  the first has not made yet.
\<close>

theorem race_crashes_router:
  assumes "pool_inv s" and "held s = {}"
    and "take 16 (mq_dst_gid r1) = take 16 (mq_dst_gid r2)" and "host_map s (modify_key s r1) = None"
    and "ts i = Some (h1, Modify (Start r1))" "ts j = Some (h2, Modify (Start r2))" "i \<noteq> j"
  shows "\<exists>ts'. (tstep E)\<^sup>*\<^sup>* (ts, Some s) (ts', None)"
  by (rule race_crashes [OF assms])

theorem race_crashes_router_witness:
  "\<exists>ts'. (tstep good_env)\<^sup>*\<^sup>*
     ([0 \<mapsto> (header42, Modify (Start (modify_req 11))), 1 \<mapsto> (header42, Modify (Start (modify_req 12)))], Some router0) (ts', None)"
  by (rule race_crashes_router [OF router0_pool router_held(1), where i = 0 and j = 1])
    (simp_all add: modify_req_def router_defs)



text \<open>
  C15. Among any number of threads, a thread in the loop goes on with the number a message of
  the other router brings.
\<close>

theorem message_frees_waiter:
  assumes "ts i = Some (h, Modify (Waiting req k n))" and "held s = {}" and "info_op m = INSERT"
    and "info_gid (m :: info) = take 16 (mq_dst_gid req)"
  shows "\<exists>s'. (tstep E)\<^sup>*\<^sup>* (ts, Some s) (ts(i \<mapsto> (h, Modify (Finishing req k n (info_qp_num m)))), Some s')"
  by (rule peer_then_goes_on) (use assms in simp_all)

theorem message_frees_waiter_witness:
  "\<exists>s'. (tstep good_env)\<^sup>*\<^sup>* ([0 \<mapsto> (header42, Modify (Waiting (modify_req 11) key_ab 7))], Some router1)
     ([0 \<mapsto> (header42, Modify (Finishing (modify_req 11) key_ab 7 9))], Some s')"
  using message_frees_waiter [where ts = "[0 \<mapsto> (header42, Modify (Waiting (modify_req 11) key_ab 7))]" and i = 0
      and s = router1 and m = "\<lparr>info_op = INSERT, info_gid = gid_b, info_qp_num = 9\<rparr>" and E = good_env]
  by (simp add: modify_req_def gid_b_def)

section \<open>All requests on queue pairs\<close>




text \<open>
  C18. A post or a poll and the destruction of the last queue pair of its host pair can crash the
  router: the connection that was found is used without a lock on the tables, after the other
  thread has freed it. One after the other, the same two requests are answered and refused.
\<close>

theorem destroy_races_with_use:
  assumes "pool_inv s" and "held s = {}" and "{v. src_qp_map s v = Some k} = {use_handle u}"
    and "dq_qp_handle req = use_handle u"
    and "ts i = Some (h1, Finding u)" "ts j = Some (h2, Destroy req)" "i \<noteq> j"
  shows "(\<exists>ts'. (tstep E)\<^sup>*\<^sup>* (ts, Some s) (ts', None))
    \<and> fst (ibv_destroy_qp_h E req s) \<noteq> Fault
    \<and> fst (finish 3 E h1 (Finding u) (snd (ibv_destroy_qp_h E req s))) = Killed"
proof -
  have last: "attached s k = {use_handle u}" using assms(3) by (simp add: attached_def)
  show ?thesis
    using use_after_destroy [OF assms(1,2) last assms(5-7,4)] one_after_the_other [OF assms(1,2) last assms(4)] by blast
qed

theorem destroy_races_with_use_witness:
  "\<exists>ts'. (tstep good_env)\<^sup>*\<^sup>* ([0 \<mapsto> (header42, Finding (Use_Poll poll_11)),
      1 \<mapsto> (header42, Destroy destroy_11)], Some router1) (ts', None)"
proof -
  let ?u = "Use_Poll poll_11"
  have "{v. src_qp_map router1 v = Some key_ab} = {use_handle ?u}"
    using router1_attached [of key_ab] by (simp add: attached_def poll_11_def)
  from destroy_races_with_use [OF router1_pool router_held(2) this, where req = destroy_11 and i = 0 and j = 1
      and ts = "[0 \<mapsto> (header42, Finding ?u), 1 \<mapsto> (header42, Destroy destroy_11)]"]
  show ?thesis by (auto simp: destroy_11_def poll_11_def)
qed

text \<open>
  C19. The mutexes of the router do not deadlock: a thread that waits does so for the mutex of a
  connection that another thread in \<open>IBV_MODIFY_QP\<close> has allocated, and that thread can go on and
  unlocks it, unless the router crashes. This holds as long as no thread has been closed with
  \<open>hostmap_lock\<close> locked.
\<close>

theorem no_deadlock:
  assumes "start_ok ts s" and "held s = {}" and "(tstep E)\<^sup>*\<^sup>* (ts, Some s) (ts', Some s')"
    and "HostmapL \<notin> held s'" and "ts' i = Some (h, a)" and "fst (proceed E h a s') = Blocked l"
  shows "\<exists>j h' req k x. ts' j = Some (h', Modify (Attached req k x)) \<and> l = ConnL (fst (snd x))
    \<and> (fst (proceed E h' (Modify (Attached req k x)) s') = Fault
       \<or> (\<exists>b t. proceed E h' (Modify (Attached req k x)) s' = (Done b, t) \<and> l \<notin> held t))"
proof -
  have "locks_inv ts' s'" by (rule locks.reach_keeps [OF assms(3) start_locks [OF assms(1,2)]])
  from waits_for [OF this assms(4-6)] show ?thesis by metis
qed

theorem no_deadlock_witness:
  "\<exists>ts s j h req k x. (tstep good_env)\<^sup>*\<^sup>* ([0 \<mapsto> (header42, Finding (Use_Poll poll_11)), 1 \<mapsto> (header42, Destroy destroy_11),
       2 \<mapsto> (header42, Modify (Start (modify_req 12)))], Some router1) (ts, Some s)
     \<and> fst (proceed good_env header42 (Using (Use_Poll poll_11) 4) s) = Blocked (ConnL 4)
     \<and> ts j = Some (h, Modify (Attached req k x)) \<and> fst (snd x) = 4"
proof -
  let ?u = "Use_Poll poll_11"
  let ?t0 = "[0 \<mapsto> (header42, Finding ?u), 1 \<mapsto> (header42, Destroy destroy_11), 2 \<mapsto> (header42, Modify (Start (modify_req 12)))]"
  from sample_wait obtain ts s where w: "(tstep good_env)\<^sup>*\<^sup>* (?t0, Some router1) (ts, Some s)" "ts 0 = Some (header42, Using ?u 4)"
    "held s = {ConnL 4}" by blast
  have b: "fst (proceed good_env header42 (Using ?u 4) s) = Blocked (ConnL 4)"
    using w(3) by (simp add: acquire_def)
  have "HostmapL \<notin> held s" using w(3) by simp
  from no_deadlock [OF sample_start router_held(2) w(1) this w(2) b] show ?thesis using w(1) b by (metis lock.inject)
qed

text \<open>
  C20. When the virtual queue pair of a thread that waits for the other router is destroyed, the
  arrival of the number closes the thread's socket with \<open>hostmap_lock\<close> locked: in every later
  state it is locked, and every thread that attaches waits for ever.
\<close>

theorem destroy_during_modify:
  assumes "pool_inv s" and "held s = {}" and "{v. src_qp_map s v = Some k} = {dq_qp_handle req}"
    and "ts i = Some (h1, Modify (Waiting r k n))" "ts j = Some (h2, Destroy req)" "i \<noteq> j" "all_aside ts"
    and "dst_qp_map s (take 16 (mq_dst_gid r)) = Some m"
  shows "\<exists>ts1 s1. (tstep E)\<^sup>*\<^sup>* (ts, Some s) (ts1, Some s1) \<and> ts1 i = None
    \<and> (\<forall>ts2 s2. (tstep E)\<^sup>*\<^sup>* (ts1, Some s1) (ts2, Some s2) \<longrightarrow> HostmapL \<in> held s2
        \<and> (\<forall>x h r. ts2 x = Some (h, Modify (Start r)) \<longrightarrow> (\<exists>l. fst (proceed E h (Modify (Start r)) s2) = Blocked l)))"
proof -
  have "attached s k = {dq_qp_handle req}" using assms(3) by (simp add: attached_def)
  from destroyed_while_waiting [OF assms(1,2) this assms(4-8)] show ?thesis .
qed

theorem destroy_during_modify_witness:
  "\<exists>ts1 s1. (tstep good_env)\<^sup>*\<^sup>* ([0 \<mapsto> (header42, Modify (Waiting (modify_req 11) key_ab 7)), 1 \<mapsto> (header42, Destroy destroy_11)],
      Some router_told) (ts1, Some s1) \<and> HostmapL \<in> held s1"
proof -
  let ?ts = "[0 \<mapsto> (header42, Modify (Waiting (modify_req 11) key_ab 7)), 1 \<mapsto> (header42, Destroy destroy_11)]
    :: nat \<rightharpoonup> ScaleReqHeader \<times> activity"
  have last: "{v. src_qp_map router_told v = Some key_ab} = {dq_qp_handle destroy_11}"
    by (auto simp: router_told_def router1_def destroy_11_def)
  have t: "?ts 0 = Some (header42, Modify (Waiting (modify_req 11) key_ab 7))" "?ts 1 = Some (header42, Destroy destroy_11)"
    "all_aside ?ts" "(0 :: nat) \<noteq> 1" by (auto simp: all_aside_def split: if_splits)
  have r: "held router_told = {}" "dst_qp_map router_told (take 16 (mq_dst_gid (modify_req 11))) = Some 9"
    by (simp_all add: router_told_def router1_def router0_def empty_router_def modify_req_def gid_b_def)
  obtain ts1 s1 where "(tstep good_env)\<^sup>*\<^sup>* (?ts, Some router_told) (ts1, Some s1)"
    "\<And>ts2 s2. (tstep good_env)\<^sup>*\<^sup>* (ts1, Some s1) (ts2, Some s2) \<Longrightarrow> HostmapL \<in> held s2"
    using destroy_during_modify [OF router_told_pool r(1) last t(1,2,4,3) r(2), of good_env] by blast
  then show ?thesis by blast
qed

section \<open>The transport\<close>

text \<open>
  C21. However the socket cuts the response into pieces, \<open>request_router\<close> puts it together and
  returns 0 with it, and closes the socket.
\<close>

theorem response_reassembled:
  assumes "c_socket E w0 = (sock, w1)" "0 \<le> sock" "c_connect E sock w1 = (0, w2)"
    and "request_sizes_c f = Some (rsp_size, body_size)" "call_code_c f = Some func"
    and "c_write E sock (header_bytes (c_getpid E) func (of_nat body_size)) w2 = (12, w3)"
    and "if body_size = 0 then w4 = w3
       else c_write E sock (take body_size req_body) w3 = (of_nat body_size, w4)"
    and "delivers E sock rsp_size w4 cs w5"
  shows "request_router E f req_body w0 = Some (Returned 0 (concat cs), snd (c_close E sock w5))"
  by (rule request_router_ok [OF assms])

theorem response_reassembled_witness:
  "request_router pieces_cenv IBV_QUERY_GID [] 0 = Some (Returned 0 (replicate 10 7 @ replicate 6 7), 0)"
proof -
  have sz: "request_sizes_c IBV_QUERY_GID = Some (16, 0)" by code_simp
  have code: "call_code_c IBV_QUERY_GID = Some 12" by code_simp
  have d: "delivers pieces_cenv 3 16 0 [replicate 10 7, replicate 6 7] 0"
    by (auto intro!: delivers.intros simp: cenv_defs)
  have "request_router pieces_cenv IBV_QUERY_GID [] 0 =
      Some (Returned 0 (concat [replicate 10 7, replicate 6 7]), snd (c_close pieces_cenv 3 0))"
    by (rule response_reassembled [where ?w1.0 = 0 and ?w2.0 = 0 and ?w3.0 = 0, OF _ _ _ sz code _ _ d])
      (simp_all add: cenv_defs header_bytes_def le_bytes32_def)
  then show ?thesis by (simp add: cenv_defs)
qed

text \<open>
  C22. When the router closes the socket without an answer, as it does after \<open>kill\<close>,
  \<open>request_router\<close> reads the end of the stream for ever and does not return.
\<close>

theorem killed_request_hangs:
  assumes "c_socket E w0 = (sock, w1)" "0 \<le> sock" "c_connect E sock w1 = (0, w2)"
    and "request_sizes_c f = Some (rsp_size, body_size)" "call_code_c f = Some func"
    and "c_write E sock (header_bytes (c_getpid E) func (of_nat body_size)) w2 = (12, w3)"
    and "if body_size = 0 then w4 = w3
       else c_write E sock (take body_size req_body) w3 = (of_nat body_size, w4)"
    and "at_eof E sock w4"
  shows "request_router E f req_body w0 = None"
  by (rule request_router_hangs [OF assms])

theorem killed_request_hangs_witness: "request_router eof_cenv IBV_QUERY_GID [] 0 = None"
proof -
  have sz: "request_sizes_c IBV_QUERY_GID = Some (16, 0)" by code_simp
  have code: "call_code_c IBV_QUERY_GID = Some 12" by code_simp
  show ?thesis
    by (rule killed_request_hangs [where sock = 3 and ?w1.0 = 0 and ?w2.0 = 0 and ?w3.0 = 0 and ?w4.0 = 0, OF _ _ _ sz code])
      (simp_all add: cenv_defs header_bytes_def le_bytes32_def at_eof_def)
qed

text \<open>
  C23. A write of header or body that fails with -1 is not noticed, because the count is
  compared as an unsigned number: the call goes on to wait for a response.
\<close>

theorem write_errors_unnoticed:
  assumes "c_socket E w0 = (sock, w1)" "0 \<le> sock" "c_connect E sock w1 = (0, w2)"
    and "request_sizes_c f = Some (rsp_size, body_size)" "call_code_c f = Some func" "0 < body_size"
    and "c_write E sock (header_bytes (c_getpid E) func (of_nat body_size)) w2 = (n, w3)" "sint n < 0"
    and "c_write E sock (take body_size req_body) w3 = (m, w4)" "sint m < 0"
  shows "request_router E f req_body w0 = rr_receive E sock rsp_size w4"
  using request_router_write_error [OF assms(1-5,7,8)] rr_body_write_error [OF assms(4,6,9,10)] by simp

theorem write_errors_unnoticed_witness:
  "request_router broken_cenv IBV_DESTROY_QP (replicate 8 0) 0 = rr_receive broken_cenv 3 1 0"
proof -
  have sz: "request_sizes_c IBV_DESTROY_QP = Some (1, 8)" by code_simp
  have code: "call_code_c IBV_DESTROY_QP = Some 20" by code_simp
  show ?thesis
    by (rule write_errors_unnoticed [where ?w1.0 = 0 and ?w2.0 = 0 and ?w3.0 = 0 and n = "-1" and m = "-1", OF _ _ _ sz code])
      (simp_all add: cenv_defs)
qed

text \<open>
  C24. On the router's side the same: reads of header and body that fail with -1 pass the tests,
  and the case is served, and answered, with what the buffers held.
\<close>

theorem read_errors_unnoticed:
  assumes "sint (t_n t) < 0" and "sint (t_m t) < 0"
  shows "handle_process E t s = andthen (handle_case E t s) (write_rsp t)"
  by (rule failed_reads_undetected [OF assms])

theorem read_errors_unnoticed_witness:
  "handle_process good_env ((thread_of (Ibv_Modify_Qp (modify_req 11)))\<lparr>t_n := -1, t_m := -1\<rparr>) router0
   = andthen (handle_case good_env ((thread_of (Ibv_Modify_Qp (modify_req 11)))\<lparr>t_n := -1, t_m := -1\<rparr>) router0)
       (write_rsp ((thread_of (Ibv_Modify_Qp (modify_req 11)))\<lparr>t_n := -1, t_m := -1\<rparr>))"
  by (rule read_errors_unnoticed) simp_all

section \<open>Single calls\<close>

text \<open>
  C25. \<open>ibv_modify_qp\<close> of libscale reports success and a queue pair in RTR also when the router
  answers that the physical queue pair did not become ready.
\<close>

theorem modify_reports_success:
  assumes attr: "qa_qp_state attr = IBV_QPS_RTR" "amask AND IBV_QP_STATE \<noteq> 0"
    and req: "req = \<lparr>mq_dst_gid = take 16 (grh_dgid attr), mq_dst_lid = ah_dlid attr,
         mq_dst_v_qp_num = qa_dest_qp_num attr, mq_src_v_qp_num = q_qp_num qp,
         mq_src_v_qp_handle = q_handle qp, mq_qp_state = 2\<rparr>"
    and router: "ibv_modify_qp_h E (request_header pid (Ibv_Modify_Qp req)) req arrivals s = (Done (Some flag), s')"
  shows "ibv_modify_qp (router_call E pid arrivals buf port) qp attr amask s =
    (Ret (0, qp\<lparr>q_dst_v_qp_num := qa_dest_qp_num attr, q_state := IBV_QPS_RTR\<rparr>), s')"
  by (rule client_modify_end_to_end [OF assms])

theorem modify_reports_success_witness:
  "\<exists>s'. ibv_modify_qp (router_call refusing_env 42 [] [] zero_port_rsp) (sample_qp 12) sample_attr 1 router_told =
     (Ret (0, (sample_qp 12)\<lparr>q_dst_v_qp_num := 0x0200000A, q_state := IBV_QPS_RTR\<rparr>), s')"
proof -
  let ?req = "\<lparr>mq_dst_gid = take 16 (grh_dgid sample_attr), mq_dst_lid = ah_dlid sample_attr,
         mq_dst_v_qp_num = qa_dest_qp_num sample_attr, mq_src_v_qp_num = q_qp_num (sample_qp 12),
         mq_src_v_qp_handle = q_handle (sample_qp 12), mq_qp_state = 2\<rparr>"
  let ?hd = "request_header 42 (Ibv_Modify_Qp ?req)"
  have "\<exists>s'. ibv_modify_qp_h refusing_env ?hd ?req [] router_told = (Done (Some 0), s')"
    by (simp add: run_defs body_sizes Let_def router_told_def sample_attr_def sample_qp_def modify_qp_finish_def
        modify_qp_to_ready_def modify_qp_to_init_def zero_qp_attr_def key_ab_def gid_b_def)
  then obtain s' where r: "ibv_modify_qp_h refusing_env ?hd ?req [] router_told = (Done (Some 0), s')" ..
  have a: "qa_qp_state sample_attr = IBV_QPS_RTR" "(1 :: u32) AND IBV_QP_STATE \<noteq> 0"
    by (simp_all add: sample_attr_def IBV_QP_STATE_def)
  show ?thesis
    using modify_reports_success [OF a refl r, of "[]" zero_port_rsp] by (auto simp: sample_attr_def)
qed



text \<open>
  C27. \<open>IBV_DEREG_MR\<close>: an unknown key is answered with 0 and no library call; a known key is
  forgotten whatever the calls return, and the answer is 1 exactly when all of them succeeded.
\<close>

theorem dereg_outcome:
  assumes free: "LkeyOffsetL \<notin> held s"
    and calls: "e_dereg_mr E (dm_router_mr req) (world s) = (rc, w1)"
      "e_close E (dm_router_shm_fd req) w1 = (c, w2)"
      "e_munmap E (dm_router_addr req) (dm_length req) w2 = (m, w3)"
      "e_shm_unlink E (dm_shm_name req) w3 = (u, w4)"
  shows "ibv_dereg_mr_h E req s =
    (if lkey_find s (dm_lkey req) = None then (Done 0, s)
     else if rc \<noteq> 0 then (Killed, (lkey_erase (dm_lkey req) s)\<lparr>world := w1\<rparr>)
     else (Done (if c = 0 \<and> m = 0 \<and> u \<noteq> -1 then 1 else 0), (lkey_erase (dm_lkey req) s)\<lparr>world := w4\<rparr>))"
proof (cases "lkey_find s (dm_lkey req)")
  case None
  then show ?thesis using ibv_dereg_mr_unknown [OF free] by simp
next
  case (Some v)
  then show ?thesis using ibv_dereg_mr_eq [OF free Some calls] by simp
qed

theorem dereg_outcome_witness:
  "ibv_dereg_mr_h good_env \<lparr>dm_shm_name = ''s'', dm_lkey = 5, dm_router_shm_fd = 3, dm_length = 64,
     dm_router_mr = 5, dm_router_addr = 0x7000\<rparr> router1 = (Done 1, (lkey_erase 5 router1)\<lparr>world := 0\<rparr>)"
  by (subst dereg_outcome [where rc = 0 and c = 0 and m = 0 and u = 0 and ?w1.0 = 0 and ?w2.0 = 0 and ?w3.0 = 0 and ?w4.0 = 0])
    (simp_all add: good_env_def router_defs lkey_find_def)

section \<open>Shared memory\<close>

text \<open>
  C28. After any run no two entries of the table of segments have the same name, so no process
  maps another's memory.
\<close>

theorem segments_distinct:
  assumes "run_ok (step E) event_ok es (Some (empty_router cf dev pa g pd w))"
    and "run_steps (step E) es (Some (empty_router cf dev pa g pd w)) = Some s"
    and "shm_slot s pid i = Some p" "shm_slot s pid' i' = Some p'"
    and "piece_heap s p = Some pc" "piece_heap s p' = Some pc'" and "sp_name pc = sp_name pc'"
  shows "pid = pid' \<and> i = i' \<and> p = p'"
  using shm_names_distinct [OF _ assms(3-7)] run_from_empty [OF assms(1,2)] by (simp add: router_inv_def)

theorem segments_distinct_witness:
  "\<exists>s pc. run_steps (step good_env) [Local (thread_of (Ibv_Reg_Mr sample_reg))] (Some router0) = Some s
     \<and> shm_slot s 42 0 = Some 1 \<and> piece_heap s 1 = Some pc
     \<and> (\<forall>pid i p pc'. shm_slot s pid i \<noteq> Some p \<or> piece_heap s p \<noteq> Some pc' \<or> sp_name pc' \<noteq> sp_name pc \<or> pid = 42)"
proof -
  let ?e = "Local (thread_of (Ibv_Reg_Mr sample_reg))"
  have "\<exists>s pc. run_steps (step good_env) [?e] (Some router0) = Some s \<and> shm_slot s 42 0 = Some 1 \<and> piece_heap s 1 = Some pc"
    by (simp add: step_def handle_process_def header_size body_short_def thread_of_def write_rsp_def int_lt_size_def
        ssize_lt_size_def handle_case_def reg_body_size ibv_reg_mr_h_def addShmPiece_def ShmPiece_open_def new_ShmPiece_def
        acquire_def release_def Let_def lkey_insert_def lkey_find_def sample_reg_def router_defs good_env_def
        sample_piece_name MAP_FAILED_def shm_slot_def replies_def)
  then obtain s pc where s: "run_steps (step good_env) [?e] (Some router0) = Some s" "shm_slot s 42 0 = Some 1" "piece_heap s 1 = Some pc"
    by blast
  have ok: "run_ok (step good_env) event_ok [?e] (Some router0)"
    by (simp add: event_ok_def request_ok_def request_sizes_c_def thread_of_def router_defs)
  have "pid = 42" if "shm_slot s pid i = Some p" "piece_heap s p = Some pc'" "sp_name pc' = sp_name pc" for pid i p pc'
    using segments_distinct [OF ok [unfolded router0_def] s(1) [unfolded router0_def] that(1) s(2) that(2) s(3) that(3)] by simp
  then show ?thesis using s by blast
qed

section \<open>Messages\<close>


text \<open>
  C30. For every call that libscale makes the router reads exactly the body the client writes
  and answers with exactly the bytes the client waits for; both fit the router's buffers, but for
  the list of devices.
\<close>

theorem sizes_agree:
  assumes "request_sizes_c f = Some (rsp, body)"
  shows "router_rsp_size f = rsp \<and> router_body_size f = body
    \<and> body \<le> buffer_size d \<and> (f = IBV_GET_DEVICE_LIST \<or> rsp \<le> buffer_size d)"
  using request_sizes_agree [OF assms] router_body_fits [of f] router_rsp_fits_cases [of f]
  by (auto simp: buffer_size_def)

theorem sizes_agree_witness:
  "router_rsp_size IBV_REG_MR = 136 \<and> router_body_size IBV_REG_MR = 24 \<and> 136 \<le> buffer_size True"
proof -
  have "request_sizes_c IBV_REG_MR = Some (136, 24)" by code_simp
  then show ?thesis using sizes_agree [of IBV_REG_MR 136 24 True] by simp
qed




text \<open>
  C33. With the large buffer the client gets the router's device, all strings included, and
  clears its table of queue pairs.
\<close>

theorem device_list_returns:
  assumes wf: "wf_device (g_ib_dev s)" and len: "length buf = buffer_size False"
  shows "client_get_device_list (router_call E pid arrivals buf port) cl s
    = (Ret (Some (g_ib_dev s)), cl\<lparr>cl_cq_qp_map := replicate 1024 0\<rparr>, s)"
  using device_list_roundtrip [OF wf len]
  by (auto simp: client_get_device_list_def request_def router_call_case handle_case_def replies_def)

theorem device_list_returns_witness:
  "client_get_device_list (router_call good_env 42 [] (replicate 1048575 0) zero_port_rsp) sample_client router0
   = (Ret (Some sample_device), sample_client\<lparr>cl_cq_qp_map := replicate 1024 0\<rparr>, router0)"
proof -
  have d: "g_ib_dev router0 = sample_device" by (simp add: router_defs)
  have wf: "wf_device (g_ib_dev router0)" by (simp add: d wf_device_def sample_device_def)
  show ?thesis
    using device_list_returns [OF wf, of "replicate 1048575 0" good_env 42 "[]" zero_port_rsp sample_client]
    by (simp add: buffer_size_def d)
qed

section \<open>Keys, names and handles\<close>

text \<open>
  C34. When neither GID of a host pair has a zero byte, the bytes behind the key enter its hash:
  the same key at two places in memory can have two hashes, and is then not found again.
\<close>

theorem hash_overrun:
  assumes "0 \<notin> set (src_gid k)" and "0 \<notin> set (dst_gid k)"
  shows "HostKey_hash h rest k =
    h (src_gid k @ dst_gid k @ c_string rest) XOR push_bit 1 (h (dst_gid k @ c_string rest))"
  by (rule HostKey_hash_overrun [OF assms])

theorem hash_overrun_witness:
  "HostKey_hash (\<lambda>bs. of_nat (length bs)) [0] key_ab \<noteq> HostKey_hash (\<lambda>bs. of_nat (length bs)) [1, 0] key_ab"
proof -
  have z: "0 \<notin> set (src_gid key_ab)" "0 \<notin> set (dst_gid key_ab)"
    by (simp_all add: key_ab_def gid_a_def gid_b_def)
  show ?thesis
    by (simp add: hash_overrun [OF z] c_string_def) (simp add: key_ab_def gid_a_def gid_b_def)
qed

text \<open>
  C35. Two handles that clients make are the same exactly when the counters and the low 16 bits
  of the process ids are: unlike the comment in the code says, not only within one process.
\<close>

theorem handles_unique:
  "(make_handle p a = make_handle q b) = (a = b \<and> (ucast p :: u16) = ucast q) \<and> low_word (make_handle p a) = a"
  by (simp add: make_handle_eq_iff)

section \<open>The first interface\<close>

text \<open>
  C36. \<open>SETUP_CONN\<close> for an unknown host pair closes the socket with \<open>hostmap_lock\<close> locked; from
  then on every request that attaches waits for ever.
\<close>

theorem setup_conn_leaks_lock:
  assumes "held s = {}" and "host_map s (host_key (conn_key (conn_id ci))) = None"
  shows "\<exists>s'. setup_conn_h E header ci s = (Killed, s')
     \<and> fst (create_res_h E hk s') = Blocked HostmapL
     \<and> fst (ibv_modify_qp_h E header' req arrivals s') = Blocked HostmapL"
proof -
  let ?s = "s\<lparr>held := insert HostmapL (held s)\<rparr>"
  have "HostmapL \<in> held ?s" "ConnL (next_ptr ?s) \<notin> held ?s" using assms(1) by simp_all
  from hostmap_locked_blocks(1,3) [OF this] setup_conn_unknown_host [of s ci E header] assms
  show ?thesis by auto
qed

theorem setup_conn_leaks_lock_witness:
  "\<exists>s'. setup_conn_h good_env header42 (qp_conninfo router0 header42 (modify_req 11) 7 9) router0 = (Killed, s')
     \<and> fst (create_res_h good_env key_ab s') = Blocked HostmapL
     \<and> fst (ibv_modify_qp_h good_env header42 (modify_req 12) [] s') = Blocked HostmapL"
  by (rule setup_conn_leaks_lock) (simp_all add: router_defs)

text \<open>
  C37. \<open>CREATE_RES\<close> for a new host pair and \<open>DESTROY_RES\<close> at once are balanced: the tables of
  host pairs and connections are as before and no mutex stays locked.
\<close>

theorem create_destroy_balanced:
  assumes "pool_inv s" and "held s = {}" and "host_map s (host_key (conn_key cid)) = None"
    and "create_res_h E (host_key (conn_key cid)) s = (Done n, s1)"
  shows "\<exists>rsp s2. destroy_res_h E cid s1 = (Done rsp, s2)
     \<and> host_map s2 = host_map s \<and> conn_heap s2 = conn_heap s \<and> held s2 = {} \<and> src_qp_map s2 = src_qp_map s
     \<and> conn_map s2 = (conn_map s)(cid := None)"
  by (rule create_destroy_res [OF assms])

theorem create_destroy_balanced_witness:
  "\<exists>s1 rsp s2. create_res_h good_env key_ab router0 = (Done 7, s1)
     \<and> destroy_res_h good_env \<lparr>conn_key = \<lparr>host_key = key_ab, src_qpn = 0, dst_qpn = 0\<rparr>, process_id = 42\<rparr> s1 = (Done rsp, s2)
     \<and> host_map s2 = Map.empty"
proof -
  let ?cid = "\<lparr>conn_key = \<lparr>host_key = key_ab, src_qpn = 0, dst_qpn = 0\<rparr>, process_id = 42\<rparr>"
  have k: "host_map router0 (host_key (conn_key ?cid)) = None" by (simp add: router_defs)
  have "fst (create_res_h good_env key_ab router0) = Done 7"
    by (simp add: create_res_h_def run_defs Let_def)
  then obtain s1 where c: "create_res_h good_env (host_key (conn_key ?cid)) router0 = (Done 7, s1)"
    by (cases "create_res_h good_env key_ab router0") simp
  have "host_map router0 = Map.empty" by (simp add: router_defs)
  then show ?thesis using create_destroy_balanced [OF router0_pool router_held(1) k c] c by auto
qed

section \<open>Start and end\<close>

text \<open>
  C38. The router ends exactly when a listening thread cannot be created or neither socket can be
  opened; how the initialisation of the RDMA resources went does not matter. A router that serves
  never runs its destructor. When only the second thread cannot be created, the thread of the
  local processes is still running while the destructor frees everything.
\<close>

theorem router_ends:
  assumes "shm_inv s" and "init_global_res (p_lib P) cf (world s) [] = (rc, cf', g, w1, log)"
    and "p_create P Local_Users w1 = (r1, w2)" "open_local (p_unix P) w2 = (users, w3)"
    and "p_create P Remote_Routers w3 = (r2, w4)" "open_remote (p_inet P) w4 = (Done routers, w5)"
  shows "(if r1 \<noteq> 0 \<or> r2 \<noteq> 0 \<or> users = None \<and> routers = None
      then \<exists>ls. fst (run_router E P cf s) = Done (Ended ls)
        \<and> fst (snd (snd (run_router E P cf s))) = log @ log_of g
        \<and> set ls = (if r1 = 0 \<and> r2 \<noteq> 0 \<and> users \<noteq> None then {Local_Users} else {})
      else \<exists>w. run_router E P cf s = (Done Serving, g, log, s\<lparr>world := w\<rparr>))"
  by (rule router_ends_iff [OF assms])

theorem router_ends_witness:
  "fst (run_router good_env (sample_penv no_epoll_lenv (\<lambda>_. 0)) default_options router0) = Done Serving
   \<and> (\<exists>ls. fst (run_router good_env (sample_penv no_epoll_lenv ((\<lambda>_. 0)(Remote_Routers := 11))) default_options router0)
       = Done (Ended ls) \<and> set ls = {Local_Users})"
proof -
  obtain rc cf' g w1 log where i: "init_global_res no_epoll_lenv default_options (world router0) [] = (rc, cf', g, w1, log)"
    by (metis prod_cases5)
  have "init_global_res (p_lib (sample_penv no_epoll_lenv r)) default_options (world router0) [] = (rc, cf', g, w1, log)" for r
    using i by (simp add: sample_penv_def)
  note ends = router_ends [OF router_shm(1) this sample_create sample_open_local sample_create sample_open_remote, where E = good_env]
  have "fst (run_router good_env (sample_penv no_epoll_lenv (\<lambda>_. 0)) default_options router0) = Done Serving"
    using ends [of "\<lambda>_. 0"] by auto
  moreover have "\<exists>ls. fst (run_router good_env (sample_penv no_epoll_lenv ((\<lambda>_. 0)(Remote_Routers := 11))) default_options router0)
      = Done (Ended ls) \<and> set ls = {Local_Users}"
    using ends [of "(\<lambda>_. 0)(Remote_Routers := 11)"] by auto
  ultimately show ?thesis by blast
qed

text \<open>
  C39. After a successful initialisation the destructor gives back device list, protection domain,
  context and descriptor, each exactly once, and frees every piece of shared memory.
\<close>

theorem destructor_frees_all:
  assumes "init_global_res L cf w [] = (0, cf', g, w', log)" and "0 < gr_epoll_fd g" and "shm_inv s"
  shows "\<exists>g' s'. destroy_router E L g log s = (Done (), g', [Dev_List, Pd, Ctx, Epoll (gr_epoll_fd g)], s')
     \<and> (\<forall>pid i p. shm_slot s pid i = Some p \<longrightarrow> piece_heap s' p = None)"
  by (rule destroy_after_success [OF assms])

theorem destructor_frees_all_witness:
  "\<exists>g' s'. destroy_router good_env sample_lenv sample_global [] router_reg = (Done (), g', [Dev_List, Pd, Ctx, Epoll 6], s')
     \<and> piece_heap router_reg 4 \<noteq> None \<and> piece_heap s' 4 = None"
proof -
  have p: "shm_slot router_reg 42 0 = Some 4" "piece_heap router_reg 4 \<noteq> None"
    by (simp_all add: shm_slot_def router_reg_def)
  have "0 < gr_epoll_fd sample_global" "gr_epoll_fd sample_global = 6" by (simp_all add: sample_global_def)
  then show ?thesis
    using destructor_frees_all [OF sample_init _ router_reg_shm, of good_env] p by metis
qed

text \<open>
  C40. When \<open>epoll_create\<close> fails, the initialisation frees device list, protection domain and
  context; \<open>start\<close> ignores the failure, and when no listening thread can be created either, the
  destructor frees the last two again.
\<close>

theorem failed_start_frees_twice:
  assumes "shm_inv s" and "l_get_device_list L (world s) = (Some (d # ds), w1)" and "o_dev_name cf = None"
    and "l_open_device L 0 w1 = (True, w2)" and "l_query_port L (o_ib_port cf) w2 = ((0, pa), w3)"
    and "l_query_gid L (o_ib_port cf) (o_gid_idx cf) w3 = ((0, gd), w4)" "0 \<le> sint (o_gid_idx cf)"
    and "l_alloc_pd L w4 = (True, w5)" and "l_epoll_create L w5 = (-1, w6)"
    and "p_lib P = L" "\<And>w. fst (p_create P Local_Users w) \<noteq> 0"
  shows "fst (snd (snd (run_router E P cf s))) = [Dev_List, Pd, Ctx, Pd, Ctx]"
  by (rule failed_init_frees_twice [OF assms])

theorem failed_start_frees_twice_witness:
  "fst (snd (snd (run_router good_env (sample_penv no_epoll_lenv (\<lambda>_. 11)) default_options router0)))
     = [Dev_List, Pd, Ctx, Pd, Ctx]"
  by (rule failed_start_frees_twice [where d = "''mlx5_0''" and ds = "[]" and ?w1.0 = 0 and ?w2.0 = 0 and ?w3.0 = 0
        and ?w4.0 = 0 and ?w5.0 = 0 and ?w6.0 = 0 and pa = sample_port and gd = gid_a and L = no_epoll_lenv])
    (simp_all add: router_shm(1) router_world0 sample_penv_def no_epoll_lenv_def sample_lenv_def default_options_def)

end
